(* ===== verification/Prelude.thy ===== *)
theory Prelude
  imports Complex_Main "HOL-Library.Word"
begin

text \<open>
  Shared vocabulary of the development: Go's 64-bit integers as \<open>64 word\<close> and the lemmas
  that move signed comparisons and sums to \<open>int\<close>, Go's \<open>time.Time\<close> as a linearly
  ordered type with the saturating \<open>Sub\<close>, calls that may panic, error-carrying folds,
  and the two interfaces that several packages implement: the checked sum (\<open>SumMoney\<close>,
  \<open>SumQuantities\<close>) and the get-or-create registry (\<open>BulkheadGroup.Get\<close>,
  \<open>ExecutorGroup.Get\<close>, \<open>ExecutorGroup.GetOrCreate\<close>, \<open>RateLimiter.getLimiter\<close>).
\<close>

named_theorems sint_simps
  \<comment> \<open>signed words read as integers\<close>
named_theorems inv_intros
  \<comment> \<open>every operation keeps the invariant of its component\<close>

section \<open>Machine integers\<close>

type_synonym i64 = "64 word"
type_synonym Duration = int
  \<comment> \<open>\<open>time.Duration\<close>, in nanoseconds; a Go Duration always lies in the int64 range\<close>

definition MinInt64 :: int where
  "MinInt64 = - (2 ^ 63)"

definition MaxInt64 :: int where
  "MaxInt64 = 2 ^ 63 - 1"

definition in_i64 :: "int \<Rightarrow> bool" where
  "in_i64 z \<longleftrightarrow> MinInt64 \<le> z \<and> z \<le> MaxInt64"

definition wrap64 :: "int \<Rightarrow> int" where
  "wrap64 z = (z + 2 ^ 63) mod 2 ^ 64 - 2 ^ 63"

definition trunc_div :: "int \<Rightarrow> int \<Rightarrow> int" where
  "trunc_div a b = sgn a * sgn b * (\<bar>a\<bar> div \<bar>b\<bar>)"

definition go_div :: "i64 \<Rightarrow> i64 \<Rightarrow> i64" where
  \<comment> \<open>Go's \<open>/\<close> on int64 for a non-zero divisor: truncated, and wrapping at \<open>MinInt64 / -1\<close>\<close>
  "go_div a b = word_of_int (trunc_div (sint a) (sint b))"

lemmas i64_limits = MinInt64_def MaxInt64_def

lemma in_i64_alt: "in_i64 z \<longleftrightarrow> - (2 ^ 63) \<le> z \<and> z < 2 ^ 63"
  by (auto simp: in_i64_def i64_limits)

lemma sint_i64_ge [simp]: "- (2 ^ 63) \<le> sint (x :: i64)"
  using sint_greater_eq [of x] by simp

lemma sint_i64_less [simp]: "sint (x :: i64) < 2 ^ 63"
  using sint_less [of x] by simp

lemma in_i64_sint [simp, intro]: "in_i64 (sint (x :: i64))"
  by (simp only: in_i64_alt sint_i64_ge sint_i64_less simp_thms)

lemma wrap64_id: "in_i64 z \<Longrightarrow> wrap64 z = z"
  by (simp add: wrap64_def in_i64_alt)

lemma wrap64_in_i64 [simp, intro]: "in_i64 (wrap64 z)"
  unfolding wrap64_def in_i64_alt by simp

lemma sint_word_of_int_i64: "sint (word_of_int z :: i64) = wrap64 z"
  by (simp add: int_word_sint wrap64_def)

lemma sint_of_int_exact [sint_simps]: "in_i64 z \<Longrightarrow> sint (word_of_int z :: i64) = z"
  by (simp add: sint_word_of_int_i64 wrap64_id)

lemma i64_eq_iff: "(x :: i64) = y \<longleftrightarrow> sint x = sint y"
  by (rule word_eq_iff_signed)

lemma i64_as_word_of_int: "(x :: i64) = word_of_int (sint x)"
  by simp

lemma sint_plus_wrap: "sint ((x :: i64) + y) = wrap64 (sint x + sint y)"
proof -
  have "x + y = word_of_int (sint x + sint y)" by simp
  then show ?thesis by (metis sint_word_of_int_i64)
qed

lemma sint_minus_wrap: "sint ((x :: i64) - y) = wrap64 (sint x - sint y)"
proof -
  have "x - y = word_of_int (sint x - sint y)" by simp
  then show ?thesis by (metis sint_word_of_int_i64)
qed

lemma sint_times_wrap: "sint ((x :: i64) * y) = wrap64 (sint x * sint y)"
proof -
  have "x * y = word_of_int (sint x * sint y)" by simp
  then show ?thesis by (metis sint_word_of_int_i64)
qed

lemma sint_uminus_wrap: "sint (- (x :: i64)) = wrap64 (- sint x)"
  using sint_minus_wrap [of 0 x] by simp

lemmas sint_wraps = sint_plus_wrap sint_minus_wrap sint_times_wrap sint_uminus_wrap

lemma sint_plus_exact [sint_simps]:
  "in_i64 (sint x + sint y) \<Longrightarrow> sint ((x :: i64) + y) = sint x + sint y"
  by (simp add: sint_plus_wrap wrap64_id)

lemma sint_minus_exact [sint_simps]:
  "in_i64 (sint x - sint y) \<Longrightarrow> sint ((x :: i64) - y) = sint x - sint y"
  by (simp add: sint_minus_wrap wrap64_id)

lemma sint_times_exact [sint_simps]:
  "in_i64 (sint x * sint y) \<Longrightarrow> sint ((x :: i64) * y) = sint x * sint y"
  by (simp add: sint_times_wrap wrap64_id)

lemma sint_uminus_exact [sint_simps]:
  "sint (x :: i64) \<noteq> MinInt64 \<Longrightarrow> sint (- x) = - sint x"
  using sint_i64_ge [of x] sint_i64_less [of x]
  by (subst sint_uminus_wrap, subst wrap64_id) (auto simp: in_i64_alt MinInt64_def)

lemma sint_sum_list_mod:
  "sint (sum_list xs :: i64) = wrap64 (sum_list (map sint xs))"
proof -
  have "sum_list xs = word_of_int (sum_list (map sint xs))"
    by (induction xs) simp_all
  then show ?thesis by (metis sint_word_of_int_i64)
qed

lemmas signed_compare = word_sless_alt word_sle_eq

section \<open>Time\<close>

text \<open>
  An instant is the number of nanoseconds since Go's zero time (January 1, year 1, UTC), so the
  zero value of \<open>time.Time\<close> is \<open>Time 0\<close>. \<open>Before\<close> and \<open>After\<close> are the order of the
  type. \<open>Sub\<close> saturates at the ends of the Duration range, as Go's does.
\<close>

datatype Time = Time (nanos: int)

instantiation Time :: linorder
begin

definition less_eq_Time :: "Time \<Rightarrow> Time \<Rightarrow> bool" where
  "less_eq_Time s t \<longleftrightarrow> nanos s \<le> nanos t"

definition less_Time :: "Time \<Rightarrow> Time \<Rightarrow> bool" where
  "less_Time s t \<longleftrightarrow> nanos s < nanos t"

instance
  by standard (auto simp: less_eq_Time_def less_Time_def Time.expand)

end

definition zeroTime :: Time where
  "zeroTime = Time 0"

definition IsZero :: "Time \<Rightarrow> bool" where
  "IsZero t \<longleftrightarrow> t = zeroTime"

definition AddT :: "Time \<Rightarrow> Duration \<Rightarrow> Time" where
  "AddT t d = Time (nanos t + d)"

definition SubT :: "Time \<Rightarrow> Time \<Rightarrow> Duration" where
  "SubT t u = max MinInt64 (min MaxInt64 (nanos t - nanos u))"

definition Millisecond :: Duration where
  "Millisecond = 1000000"

definition Second :: Duration where
  "Second = 1000000000"

definition Minute :: Duration where
  "Minute = 60 * Second"

definition Hour :: Duration where
  "Hour = 60 * Minute"

lemmas duration_units = Millisecond_def Second_def Minute_def Hour_def
lemmas time_order = less_eq_Time_def less_Time_def
lemmas time_defs = time_order AddT_def SubT_def

lemma nanos_AddT [simp]: "nanos (AddT t d) = nanos t + d"
  by (simp add: AddT_def)

lemma AddT_mono: "s \<le> t \<Longrightarrow> AddT s d \<le> AddT t d"
  by (simp add: time_order)

lemma SubT_AddT: "in_i64 d \<Longrightarrow> SubT (AddT t d) t = d"
  by (simp add: SubT_def in_i64_def)

lemma SubT_less_iff: "in_i64 d \<Longrightarrow> d < MaxInt64 \<Longrightarrow> d < SubT t u \<longleftrightarrow> AddT u d < t"
  by (auto simp: time_defs in_i64_def)

lemma SubT_le_iff:
  "MinInt64 < d \<Longrightarrow> d \<le> MaxInt64 \<Longrightarrow> SubT t u < d \<longleftrightarrow> t < AddT u d"
  by (auto simp: time_defs)

section \<open>Calls that may panic and folds that may fail\<close>

datatype 'a go = Panic string | Ret 'a

fun fold_res :: "('s \<Rightarrow> 'a \<Rightarrow> 'e + 's) \<Rightarrow> 's \<Rightarrow> 'a list \<Rightarrow> 'e + 's" where
  \<comment> \<open>a \<open>for\<close> loop that returns at the first error\<close>
  "fold_res f s [] = Inr s"
| "fold_res f s (x # xs) = (case f s x of Inl e \<Rightarrow> Inl e | Inr s' \<Rightarrow> fold_res f s' xs)"

lemma fold_res_append:
  "fold_res f s (xs @ ys) = (case fold_res f s xs of Inl e \<Rightarrow> Inl e | Inr t \<Rightarrow> fold_res f t ys)"
  by (induction xs arbitrary: s) (auto split: sum.splits)

lemma fold_res_invariant:
  assumes "fold_res f s xs = Inr t" and "P s"
    and "\<And>s x s'. P s \<Longrightarrow> x \<in> set xs \<Longrightarrow> f s x = Inr s' \<Longrightarrow> P s'"
  shows "P t"
  using assms
proof (induction xs arbitrary: s)
  case Nil
  then show ?case by simp
next
  case (Cons x xs)
  from Cons.prems(1) obtain s' where s': "f s x = Inr s'" "fold_res f s' xs = Inr t"
    by (auto split: sum.splits)
  have "P s'" by (rule Cons.prems(3) [OF Cons.prems(2) _ s'(1)]) simp
  with s'(2) show ?case
    by (rule Cons.IH) (rule Cons.prems(3), simp_all)
qed

section \<open>Interface: a checked sum\<close>

text \<open>
  A client that adds up a list of values through a fallible \<open>add\<close>. The provider says which
  operand pairs it accepts (\<open>ok\<close>), what a successful addition does to the numeric value
  (\<open>val\<close>) and to the tag (currency or unit), and that the operands stay well formed.
\<close>

locale checked_sum =
  fixes add :: "'a \<Rightarrow> 'a \<Rightarrow> 'e + 'a"
    and wf :: "'a \<Rightarrow> bool"
    and val :: "'a \<Rightarrow> 'v :: comm_monoid_add"
  assumes add_wf: "wf a \<Longrightarrow> wf b \<Longrightarrow> add a b = Inr c \<Longrightarrow> wf c"
    and add_val: "wf a \<Longrightarrow> wf b \<Longrightarrow> add a b = Inr c \<Longrightarrow> val c = val a + val b"
begin

lemma sum_wf:
  assumes "wf a" and "\<And>b. b \<in> set bs \<Longrightarrow> wf b" and "fold_res add a bs = Inr c"
  shows "wf c"
  by (rule fold_res_invariant [where P = wf, OF assms(3,1)]) (blast intro: add_wf assms(2))

lemma sum_val:
  "wf a \<Longrightarrow> (\<And>b. b \<in> set bs \<Longrightarrow> wf b) \<Longrightarrow> fold_res add a bs = Inr c \<Longrightarrow>
   val c = val a + sum_list (map val bs)"
proof (induction bs arbitrary: a)
  case Nil
  then show ?case by simp
next
  case (Cons b bs)
  from Cons.prems(3) obtain a' where a': "add a b = Inr a'" and rest: "fold_res add a' bs = Inr c"
    by (auto split: sum.splits)
  have "wf a'" using Cons.prems(1,2) a' by (auto intro: add_wf)
  then have "val c = val a' + sum_list (map val bs)"
    using Cons.IH Cons.prems(2) rest by auto
  also have "val a' = val a + val b" using Cons.prems(1,2) a' by (auto intro: add_val)
  finally show ?case by (simp add: add.assoc)
qed

end

section \<open>Interface: a get-or-create registry\<close>

text \<open>
  A registry hands out the object stored under a key and creates it on first use. The laws are
  what every such method of the library promises; the client lemmas say that the object behind a
  key never changes once it exists, whatever gets follow.
\<close>

locale registry =
  fixes get :: "'k \<Rightarrow> 'c \<Rightarrow> ('k \<rightharpoonup> 'v) \<Rightarrow> 'v \<times> ('k \<rightharpoonup> 'v)"
    and make :: "'k \<Rightarrow> 'c \<Rightarrow> 'v"
  assumes get_hit: "m k = Some v \<Longrightarrow> get k c m = (v, m)"
    and get_miss: "m k = None \<Longrightarrow> get k c m = (make k c, m(k \<mapsto> make k c))"
begin

fun gets :: "('k \<times> 'c) list \<Rightarrow> ('k \<rightharpoonup> 'v) \<Rightarrow> ('k \<rightharpoonup> 'v)" where
  "gets [] m = m"
| "gets ((k, c) # rs) m = gets rs (snd (get k c m))"

lemma get_stored: "snd (get k c m) k = Some (fst (get k c m))"
  by (cases "m k") (simp_all add: get_hit get_miss)

lemma get_keeps: "m j = Some v \<Longrightarrow> snd (get k c m) j = Some v"
  by (cases "m k") (auto simp: get_hit get_miss)

lemma get_frame: "j \<noteq> k \<Longrightarrow> snd (get k c m) j = m j"
  by (cases "m k") (auto simp: get_hit get_miss)

lemma gets_keeps: "m j = Some v \<Longrightarrow> gets rs m j = Some v"
  by (induction rs m rule: gets.induct) (auto simp: get_keeps)

lemma get_stable: "fst (get k c' (gets rs (snd (get k c m)))) = fst (get k c m)"
proof -
  have "gets rs (snd (get k c m)) k = Some (fst (get k c m))"
    by (rule gets_keeps) (rule get_stored)
  then show ?thesis by (simp add: get_hit)
qed

lemma get_again: "get k c' (snd (get k c m)) = get k c m"
  using get_stored [of k c m] by (simp add: get_hit)

end

end
