(* ===== verification/GoFloat.thy ===== *)
theory GoFloat
  imports Prelude "HOL-Library.Log_Nat"
begin

text \<open>
  Go's \<open>float64\<close> as far as the library uses it: IEEE 754 binary64 with round to nearest, ties to
  even, gradual underflow and overflow to infinity, executable over the rationals. A finite float
  is the rational number it denotes; the two zeros are one value, because no operation of the
  library divides by a zero or prints a negative one. \<open>math.Round\<close> rounds halves away from zero.
  The conversion of a float outside the int64 range is implementation-dependent in Go, so it is a
  parameter (\<open>conv\<close>) of every definition that converts.

  The lemmas give the error of one rounding (half a unit in the last place, hence a relative error
  of at most \<open>2 ^ -53\<close> in the normal range) and the exactness of integers below \<open>2 ^ 53\<close>.
\<close>

datatype float64 = Fin rat | PosInf | NegInf | NaN

definition pow2 :: "int \<Rightarrow> rat" where
  "pow2 e = 2 powi e"

definition expo :: "rat \<Rightarrow> int" where
  \<comment> \<open>the binary exponent of a non-zero number: \<open>2 ^ expo x \<le> \<bar>x\<bar> < 2 ^ (expo x + 1)\<close>\<close>
  "expo x = (let (p, q) = quotient_of \<bar>x\<bar>; k = bitlen p - bitlen q
             in if pow2 k \<le> \<bar>x\<bar> then k else k - 1)"

definition rne :: "rat \<Rightarrow> int" where
  \<comment> \<open>round to the nearest integer, ties to even\<close>
  "rne x = (let f = \<lfloor>x\<rfloor>; d = x - of_int f
            in if d < 1 / 2 \<or> (d = 1 / 2 \<and> even f) then f else f + 1)"

definition ulp :: "rat \<Rightarrow> rat" where
  \<comment> \<open>the spacing of the floats around x: 53 significant bits, never below \<open>2 ^ -1074\<close>\<close>
  "ulp x = pow2 (max (expo x - 52) (- 1074))"

definition nearest :: "rat \<Rightarrow> rat" where
  "nearest x = (if x = 0 then 0 else of_int (rne (x / ulp x)) * ulp x)"

definition round64 :: "rat \<Rightarrow> float64" where
  "round64 x = (let y = nearest x
                in if pow2 1024 \<le> y then PosInf else if y \<le> - pow2 1024 then NegInf else Fin y)"

definition float_of_i64 :: "i64 \<Rightarrow> float64" where
  "float_of_i64 n = round64 (of_int (sint n))"

definition float_of_int :: "int \<Rightarrow> float64" where
  "float_of_int n = round64 (of_int n)"

fun fmul :: "float64 \<Rightarrow> float64 \<Rightarrow> float64" where
  "fmul (Fin a) (Fin b) = round64 (a * b)"
| "fmul NaN _ = NaN"
| "fmul _ NaN = NaN"
| "fmul (Fin a) PosInf = (if a = 0 then NaN else if 0 < a then PosInf else NegInf)"
| "fmul (Fin a) NegInf = (if a = 0 then NaN else if 0 < a then NegInf else PosInf)"
| "fmul PosInf (Fin b) = (if b = 0 then NaN else if 0 < b then PosInf else NegInf)"
| "fmul NegInf (Fin b) = (if b = 0 then NaN else if 0 < b then NegInf else PosInf)"
| "fmul PosInf PosInf = PosInf"
| "fmul PosInf NegInf = NegInf"
| "fmul NegInf PosInf = NegInf"
| "fmul NegInf NegInf = PosInf"

fun fdiv :: "float64 \<Rightarrow> float64 \<Rightarrow> float64" where
  \<comment> \<open>a zero divisor is only met with the sign of a positive zero\<close>
  "fdiv (Fin a) (Fin b) =
     (if b = 0 then (if a = 0 then NaN else if 0 < a then PosInf else NegInf) else round64 (a / b))"
| "fdiv NaN _ = NaN"
| "fdiv _ NaN = NaN"
| "fdiv (Fin a) PosInf = Fin 0"
| "fdiv (Fin a) NegInf = Fin 0"
| "fdiv PosInf (Fin b) = (if 0 \<le> b then PosInf else NegInf)"
| "fdiv NegInf (Fin b) = (if 0 \<le> b then NegInf else PosInf)"
| "fdiv PosInf _ = NaN"
| "fdiv NegInf _ = NaN"

fun fadd :: "float64 \<Rightarrow> float64 \<Rightarrow> float64" where
  "fadd (Fin a) (Fin b) = round64 (a + b)"
| "fadd NaN _ = NaN"
| "fadd _ NaN = NaN"
| "fadd (Fin a) y = y"
| "fadd x (Fin b) = x"
| "fadd PosInf PosInf = PosInf"
| "fadd NegInf NegInf = NegInf"
| "fadd PosInf NegInf = NaN"
| "fadd NegInf PosInf = NaN"

fun fneg :: "float64 \<Rightarrow> float64" where
  "fneg (Fin a) = Fin (- a)"
| "fneg PosInf = NegInf"
| "fneg NegInf = PosInf"
| "fneg NaN = NaN"

definition fsub :: "float64 \<Rightarrow> float64 \<Rightarrow> float64" where
  "fsub x y = fadd x (fneg y)"

fun fless :: "float64 \<Rightarrow> float64 \<Rightarrow> bool" where
  "fless (Fin a) (Fin b) = (a < b)"
| "fless NaN _ = False"
| "fless _ NaN = False"
| "fless PosInf _ = False"
| "fless _ NegInf = False"
| "fless NegInf _ = True"
| "fless _ PosInf = True"

definition fle :: "float64 \<Rightarrow> float64 \<Rightarrow> bool" where
  "fle x y \<longleftrightarrow> fless x y \<or> (x = y \<and> x \<noteq> NaN)"

definition round_away :: "rat \<Rightarrow> int" where
  "round_away x = (if x < 0 then - \<lfloor>1 / 2 - x\<rfloor> else \<lfloor>x + 1 / 2\<rfloor>)"

fun fround :: "float64 \<Rightarrow> float64" where
  \<comment> \<open>\<open>math.Round\<close>\<close>
  "fround (Fin a) = Fin (of_int (round_away a))"
| "fround x = x"

definition trunc_rat :: "rat \<Rightarrow> int" where
  "trunc_rat x = (if x < 0 then - \<lfloor>- x\<rfloor> else \<lfloor>x\<rfloor>)"

fun to_int64 :: "(float64 \<Rightarrow> i64) \<Rightarrow> float64 \<Rightarrow> i64" where
  \<comment> \<open>\<open>int64(f)\<close>\<close>
  "to_int64 conv (Fin a) =
     (if in_i64 (trunc_rat a) then word_of_int (trunc_rat a) else conv (Fin a))"
| "to_int64 conv x = conv x"

section \<open>One rounding\<close>

lemma pow2_pos [simp]: "0 < pow2 e"
  by (simp add: pow2_def)

lemma pow2_nonzero [simp]: "pow2 e \<noteq> 0"
  by (simp add: pow2_def)

lemma pow2_add: "pow2 (a + b) = pow2 a * pow2 b"
  by (simp add: pow2_def power_int_add)

lemma pow2_diff: "pow2 (a - b) = pow2 a / pow2 b"
  by (simp add: pow2_def power_int_diff)

lemma pow2_of_nat: "pow2 (int n) = 2 ^ n"
  by (simp add: pow2_def)

lemma pow2_nonneg: "0 \<le> e \<Longrightarrow> pow2 e = 2 ^ nat e"
  by (simp add: pow2_def power_int_def)

lemma pow2_mono: "a \<le> b \<Longrightarrow> pow2 a \<le> pow2 b"
  unfolding pow2_def by (rule power_int_increasing) auto

lemma pow2_less_iff: "pow2 a < pow2 b \<longleftrightarrow> a < b"
proof
  show "a < b" if "pow2 a < pow2 b"
    using that pow2_mono [of b a] by force
  show "pow2 a < pow2 b" if "a < b"
    using that unfolding pow2_def by (intro power_int_strict_increasing) auto
qed

lemma bitlen_pow2_bounds:
  assumes "0 < p"
  shows "pow2 (bitlen p - 1) \<le> of_int p" and "of_int p < pow2 (bitlen p)"
proof -
  have len: "1 \<le> bitlen p"
    using assms bitlen_nonneg [of p] bitlen_eq_zero_iff [of p] by linarith
  have "(2::int) ^ nat (bitlen p - 1) \<le> p" "p < 2 ^ nat (bitlen p)"
    using bitlen_bounds [OF assms] by auto
  then have "(of_int (2 ^ nat (bitlen p - 1)) :: rat) \<le> of_int p"
      and "(of_int p :: rat) < of_int (2 ^ nat (bitlen p))"
    by (simp_all only: of_int_le_iff of_int_less_iff)
  with len show "pow2 (bitlen p - 1) \<le> of_int p" and "of_int p < pow2 (bitlen p)"
    by (simp_all add: pow2_nonneg)
qed

lemma expo_bounds:
  assumes "x \<noteq> 0"
  shows "pow2 (expo x) \<le> \<bar>x\<bar>" and "\<bar>x\<bar> < pow2 (expo x + 1)"
proof -
  obtain p q where pq: "quotient_of \<bar>x\<bar> = (p, q)" by fastforce
  have q: "0 < q" using quotient_of_denom_pos [OF pq] .
  have xpq: "\<bar>x\<bar> = of_int p / of_int q" using quotient_of_div [OF pq] .
  have p: "0 < p"
    using assms xpq q by (metis abs_of_nonpos abs_le_zero_iff divide_nonpos_pos linorder_not_less
        of_int_0_le_iff of_int_0_less_iff of_int_le_0_iff)
  define k where "k = bitlen p - bitlen q"
  have up: "\<bar>x\<bar> < pow2 (k + 1)"
  proof -
    have "of_int p / of_int q < pow2 (bitlen p) / pow2 (bitlen q - 1)"
      using bitlen_pow2_bounds [OF p] bitlen_pow2_bounds [OF q] p q
      by (intro frac_less) auto
    also have "\<dots> = pow2 (k + 1)" by (simp add: k_def pow2_diff [symmetric] algebra_simps)
    finally show ?thesis by (simp only: xpq)
  qed
  have lo: "pow2 (k - 1) \<le> \<bar>x\<bar>"
  proof -
    have "pow2 (k - 1) = pow2 (bitlen p - 1) / pow2 (bitlen q)"
      by (simp add: k_def pow2_diff [symmetric] algebra_simps)
    also have "\<dots> \<le> of_int p / of_int q"
      using bitlen_pow2_bounds [OF p] bitlen_pow2_bounds [OF q] p q
      by (intro frac_le) auto
    finally show ?thesis by (simp only: xpq)
  qed
  have e: "expo x = (if pow2 k \<le> \<bar>x\<bar> then k else k - 1)"
    by (simp add: expo_def pq k_def Let_def)
  show "pow2 (expo x) \<le> \<bar>x\<bar>" using e lo by simp
  show "\<bar>x\<bar> < pow2 (expo x + 1)" using e up by simp
qed

lemma rne_error: "\<bar>of_int (rne x) - x\<bar> \<le> 1 / 2"
proof -
  have "of_int \<lfloor>x\<rfloor> \<le> x" "x < of_int \<lfloor>x\<rfloor> + 1"
    using floor_correct [of x] by auto
  then show ?thesis
    by (auto simp: rne_def Let_def abs_le_iff)
qed

lemma rne_unique:
  assumes "\<bar>x - of_int n\<bar> < 1 / 2"
  shows "rne x = n"
proof -
  have "\<bar>of_int (rne x) - of_int n\<bar> < (1 :: rat)"
    using rne_error [of x] assms by linarith
  then have "of_int \<bar>rne x - n\<bar> < (1 :: rat)" by simp
  then have "\<bar>rne x - n\<bar> < 1" by (simp only: of_int_less_1_iff)
  then show ?thesis by simp
qed

lemma rne_of_int [simp]: "rne (of_int n) = n"
  by (simp add: rne_def)

lemma ulp_pos [simp]: "0 < ulp x"
  by (simp add: ulp_def)

lemma ulp_nonzero [simp]: "ulp x \<noteq> 0"
  by (simp add: ulp_def)

lemma nearest_0 [simp]: "nearest 0 = 0"
  by (simp add: nearest_def)

lemma nearest_error: "\<bar>nearest x - x\<bar> \<le> ulp x / 2"
proof (cases "x = 0")
  case True
  then show ?thesis by (simp add: less_imp_le)
next
  case False
  have "nearest x - x = (of_int (rne (x / ulp x)) - x / ulp x) * ulp x"
    using False by (simp add: nearest_def left_diff_distrib)
  then have "\<bar>nearest x - x\<bar> = \<bar>of_int (rne (x / ulp x)) - x / ulp x\<bar> * ulp x"
    using ulp_pos [of x] by (simp add: abs_mult abs_of_pos)
  also have "\<dots> \<le> 1 / 2 * ulp x"
    by (rule mult_right_mono [OF rne_error]) (simp add: less_imp_le)
  finally show ?thesis by simp
qed

lemma ulp_normal:
  assumes "x \<noteq> 0" and "pow2 (- 1022) \<le> \<bar>x\<bar>"
  shows "ulp x \<le> \<bar>x\<bar> / 2 ^ 52"
proof -
  have "pow2 (- 1022) < pow2 (expo x + 1)"
    using assms expo_bounds(2) [OF assms(1)] by linarith
  then have "- 1022 \<le> expo x" by (simp only: pow2_less_iff)
  then have "ulp x = pow2 (expo x - 52)" by (simp add: ulp_def)
  also have "\<dots> = pow2 (expo x) / 2 ^ 52"
    by (simp add: pow2_diff) (simp add: pow2_nonneg)
  finally show ?thesis
    using expo_bounds(1) [OF assms(1)] by (simp add: divide_right_mono)
qed

lemma nearest_rel_error:
  assumes "x \<noteq> 0" and "pow2 (- 1022) \<le> \<bar>x\<bar>"
  shows "\<bar>nearest x - x\<bar> \<le> \<bar>x\<bar> / 2 ^ 53"
  using nearest_error [of x] ulp_normal [OF assms] by simp

lemma nearest_of_int:
  assumes "\<bar>n\<bar> < 2 ^ 53"
  shows "nearest (of_int n) = of_int n"
proof (cases "n = 0")
  case True
  then show ?thesis by simp
next
  case False
  define e where "e = max (expo (of_int n) - 52) (- 1074)"
  have "\<bar>of_int n :: rat\<bar> < of_int (2 ^ 53)"
    using assms by (simp only: of_int_abs [symmetric] of_int_less_iff)
  then have "pow2 (expo (of_int n)) < pow2 53"
    using expo_bounds(1) [of "of_int n"] False by (simp add: pow2_nonneg)
  then have "e \<le> 0" by (simp add: pow2_less_iff e_def)
  then have "pow2 e = inverse (2 ^ nat (- e))"
    by (auto simp: pow2_def power_int_def power_one_over inverse_eq_divide)
  then have "of_int n / ulp (of_int n) = of_int (n * 2 ^ nat (- e))"
    unfolding ulp_def e_def by (simp add: divide_inverse)
  then have "of_int (rne (of_int n / ulp (of_int n))) = of_int n / ulp (of_int n)"
    by (simp only: rne_of_int)
  then show ?thesis
    using False by (simp add: nearest_def)
qed

lemma rne_mono_int: "\<bar>x\<bar> \<le> of_int n \<Longrightarrow> \<bar>rne x\<bar> \<le> n"
proof -
  assume a: "\<bar>x\<bar> \<le> of_int n"
  have "of_int (rne x) < (of_int (n + 1) :: rat)" "of_int (- n - 1) < (of_int (rne x) :: rat)"
    using rne_error [of x] a unfolding abs_le_iff by auto
  then have "rne x < n + 1" "- n - 1 < rne x" by (simp_all only: of_int_less_iff)
  then show ?thesis by simp
qed

lemma nearest_abs_pow2:
  assumes "\<bar>x\<bar> \<le> pow2 k" and "- 1074 \<le> k"
  shows "\<bar>nearest x\<bar> \<le> pow2 k"
proof (cases "x = 0")
  case True
  then show ?thesis by (simp add: less_imp_le)
next
  case False
  let ?m = "max (expo x - 52) (- 1074)"
  have "pow2 (expo x) \<le> pow2 k" using expo_bounds(1) [OF False] assms(1) by simp
  then have "?m \<le> k" using assms(2) by (simp add: not_less [symmetric] pow2_less_iff)
  then have q: "pow2 k / ulp x = of_int (2 ^ nat (k - ?m))"
    by (simp add: ulp_def pow2_nonneg flip: pow2_diff)
  have "\<bar>x / ulp x\<bar> \<le> pow2 k / ulp x"
    using assms(1) by (simp add: divide_right_mono less_imp_le abs_divide)
  then have "\<bar>rne (x / ulp x)\<bar> \<le> 2 ^ nat (k - ?m)" unfolding q by (rule rne_mono_int)
  then have "\<bar>of_int (rne (x / ulp x))\<bar> \<le> (pow2 k / ulp x :: rat)"
    unfolding q by (metis of_int_abs of_int_le_iff)
  then show ?thesis using False 
    by (simp add: nearest_def abs_mult abs_of_pos field_simps)
qed

lemma nearest_nonneg: "0 \<le> x \<Longrightarrow> 0 \<le> nearest x"
proof -
  assume "0 \<le> x"
  then have "- 1 / 2 \<le> (of_int (rne (x / ulp x)) :: rat)"
    using rne_error [of "x / ulp x"] divide_nonneg_pos [OF \<open>0 \<le> x\<close> ulp_pos [of x]]
    unfolding abs_le_iff by linarith
  then have "of_int (- 1) < (of_int (rne (x / ulp x)) :: rat)" by simp
  then have "- 1 < rne (x / ulp x)" by (simp only: of_int_less_iff)
  then have "0 \<le> (of_int (rne (x / ulp x)) :: rat)" by simp
  then have "0 \<le> of_int (rne (x / ulp x)) * ulp x" by (intro mult_nonneg_nonneg) (simp_all add: less_imp_le)
  then show ?thesis by (simp add: nearest_def)
qed

lemma nearest_abs_bound:
  assumes "\<bar>x\<bar> \<le> 2 ^ 1000"
  shows "\<bar>nearest x\<bar> < pow2 1024"
proof (cases "x = 0 \<or> \<bar>x\<bar> < pow2 (- 1022)")
  case True
  have "ulp x / 2 \<le> 1" if "x \<noteq> 0" "\<bar>x\<bar> < pow2 (- 1022)"
  proof -
    have "pow2 (expo x) < pow2 (- 1022)" using expo_bounds(1) [OF that(1)] that(2) by linarith
    then have "max (expo x - 52) (- 1074) \<le> 0" by (simp add: pow2_less_iff)
    then have "ulp x \<le> pow2 0" unfolding ulp_def by (rule pow2_mono)
    then show ?thesis by (simp add: pow2_def)
  qed
  moreover have "(1::rat) + 1 < pow2 1024" and "pow2 (- 1022) \<le> 1"
    using pow2_less_iff [of 1 1024] pow2_mono [of "- 1022" 0] by (simp_all add: pow2_def)
  ultimately show ?thesis
    using True nearest_error [of x] by (cases "x = 0") (simp, linarith)
next
  case False
  then have "\<bar>nearest x - x\<bar> \<le> \<bar>x\<bar> / 2 ^ 53" by (intro nearest_rel_error) auto
  moreover have "\<bar>x\<bar> / 2 ^ 53 \<le> \<bar>x\<bar>" by (simp add: divide_le_eq)
  ultimately have "\<bar>nearest x\<bar> \<le> 2 * \<bar>x\<bar>" by linarith
  also have "\<dots> \<le> 2 ^ 1001" using assms by simp
  also have "\<dots> < pow2 1024"
    by (simp add: pow2_nonneg)
  finally show ?thesis .
qed

lemma round64_finite: "\<bar>x\<bar> \<le> 2 ^ 1000 \<Longrightarrow> round64 x = Fin (nearest x)"
  using nearest_abs_bound [of x] by (auto simp: round64_def Let_def abs_less_iff)

section \<open>Rounding to integers\<close>

lemma nearest_fix:
  assumes "y / ulp y = of_int k"
  shows "nearest y = y"
  using assms by (simp add: nearest_def) (metis nonzero_eq_divide_eq ulp_nonzero)

lemma nearest_idem: "nearest (nearest x) = nearest x"
proof (cases "nearest x = 0")
  case False
  define y where "y = nearest x"
  have y0: "y \<noteq> 0" and x0: "x \<noteq> 0" using False by (auto simp: y_def)
  define m where "m = max (expo x - 52) (- 1074)"
  define m' where "m' = max (expo y - 52) (- 1074)"
  define k where "k = rne (x / ulp x)"
  have y: "y = of_int k * pow2 m" using x0 by (simp add: y_def nearest_def k_def ulp_def m_def)
  have uy: "ulp y = pow2 m'" by (simp add: ulp_def m'_def)
  show ?thesis unfolding y_def [symmetric]
  proof (cases "m' \<le> m")
    case True
    then have "pow2 m / pow2 m' = of_int (2 ^ nat (m - m'))" by (simp add: pow2_nonneg flip: pow2_diff)
    then have "of_int k * pow2 m / pow2 m' = of_int (k * 2 ^ nat (m - m'))"
      by (simp only: times_divide_eq_right [symmetric] of_int_mult)
    then have "y / ulp y = of_int (k * 2 ^ nat (m - m'))" unfolding uy by (simp only: y)
    then show "nearest y = y" by (rule nearest_fix)
  next
    case False
    then have big: "m' = expo y - 52" "- 1022 < expo y" "expo x < expo y" by (auto simp: m_def m'_def)
    have "\<bar>x\<bar> \<le> pow2 (max (expo x + 1) (- 1074))"
      using expo_bounds(2) [OF x0] pow2_mono [of "expo x + 1" "max (expo x + 1) (- 1074)"] by simp
    then have b: "\<bar>y\<bar> \<le> pow2 (max (expo x + 1) (- 1074))" unfolding y_def by (rule nearest_abs_pow2) simp
    have lo: "pow2 (expo y) \<le> \<bar>y\<bar>" by (rule expo_bounds(1) [OF y0])
    with b have "pow2 (expo y) \<le> pow2 (max (expo x + 1) (- 1074))" by (rule order_trans [rotated])
    then have "expo y \<le> max (expo x + 1) (- 1074)" by (simp only: not_less [symmetric] pow2_less_iff not_False_eq_True)
    with big have "max (expo x + 1) (- 1074) = expo y" by linarith
    with b lo have "\<bar>y\<bar> = pow2 (expo y)" by simp
    then have "y = pow2 (expo y) \<or> y = - pow2 (expo y)" by linarith
    moreover have "pow2 (expo y) / ulp y = of_int (2 ^ 52)" by (simp add: uy big(1) pow2_nonneg flip: pow2_diff)
    ultimately have "y / ulp y = of_int (2 ^ 52) \<or> y / ulp y = of_int (- (2 ^ 52))"
      by (metis minus_divide_left of_int_minus)
    then show "nearest y = y" using nearest_fix by metis
  qed
qed simp

lemma round64_idem: "round64 x = Fin y \<Longrightarrow> round64 y = Fin y"
  by (auto simp: round64_def Let_def nearest_idem split: if_splits)

lemma round_away_unique:
  assumes "\<bar>y - of_int n\<bar> < 1 / 2"
  shows "round_away y = n"
proof (cases "y < 0")
  case True
  have "\<lfloor>1 / 2 - y\<rfloor> = - n"
    by (rule floor_unique; use assms in linarith)
  then show ?thesis using True by (simp add: round_away_def)
next
  case False
  have "\<lfloor>y + 1 / 2\<rfloor> = n"
    by (rule floor_unique; use assms in linarith)
  then show ?thesis using False by (simp add: round_away_def)
qed

lemma round_away_error: "\<bar>of_int (round_away x) - x\<bar> \<le> 1 / 2"
proof (cases "x < 0")
  case True
  have "of_int \<lfloor>1 / 2 - x\<rfloor> \<le> 1 / 2 - x" "1 / 2 - x < of_int \<lfloor>1 / 2 - x\<rfloor> + 1"
    using floor_correct [of "1 / 2 - x"] by auto
  then have "\<bar>- of_int \<lfloor>1 / 2 - x\<rfloor> - x\<bar> \<le> 1 / 2" by linarith
  then show ?thesis using True by (simp add: round_away_def)
next
  case False
  have "of_int \<lfloor>x + 1 / 2\<rfloor> \<le> x + 1 / 2" "x + 1 / 2 < of_int \<lfloor>x + 1 / 2\<rfloor> + 1"
    using floor_correct [of "x + 1 / 2"] by auto
  then have "\<bar>of_int \<lfloor>x + 1 / 2\<rfloor> - x\<bar> \<le> 1 / 2" by linarith
  then show ?thesis using False by (simp add: round_away_def)
qed

lemma trunc_rat_of_int [simp]: "trunc_rat (of_int n) = n"
  by (simp add: trunc_rat_def)

lemma to_int64_of_int: "in_i64 n \<Longrightarrow> to_int64 conv (Fin (of_int n)) = word_of_int n"
  by simp

lemma float_of_int_exact:
  assumes "\<bar>n\<bar> < 2 ^ 53"
  shows "float_of_int n = Fin (of_int n)"
proof -
  have "\<bar>of_int n :: rat\<bar> \<le> of_int (2 ^ 53)"
    using assms by (simp only: of_int_abs [symmetric] of_int_le_iff less_imp_le)
  also have "\<dots> \<le> 2 ^ 1000" by simp
  finally show ?thesis
    using nearest_of_int [OF assms] by (simp add: float_of_int_def round64_finite)
qed

lemma float_of_i64_exact: "\<bar>sint n\<bar> < 2 ^ 53 \<Longrightarrow> float_of_i64 n = Fin (of_int (sint n))"
  using float_of_int_exact [of "sint n"] unfolding float_of_i64_def float_of_int_def .

end
