(* ===== verification/Money.thy ===== *)
theory Money
  imports GoFloat GoStrings
begin

text \<open>
  \<open>domain/money.go\<close>: an amount of cents in an int64 with a currency code. Arithmetic wraps like
  Go's; mismatched currencies are errors; conversions go through \<open>float64\<close>. \<open>conv\<close> stands for the
  implementation-dependent conversion of a float outside the int64 range and \<open>sscanf\<close> for
  \<open>fmt.Sscanf(s, "%f", _)\<close>.
\<close>

section \<open>Model\<close>

definition CurrencyMYR :: string where "CurrencyMYR = ''MYR''"
definition CurrencyUSD :: string where "CurrencyUSD = ''USD''"
definition CurrencySGD :: string where "CurrencySGD = ''SGD''"

definition DefaultCurrency :: string where
  "DefaultCurrency = CurrencyMYR"

record Money =
  amount :: i64
  currency :: string

datatype money_error =
    AddCurrencies string string
  | SubtractCurrencies string string
  | DivideByZero
  | ScanFormat string
  | ScanType string

fun money_error_text :: "money_error \<Rightarrow> string" where
  "money_error_text (AddCurrencies a b) =
     ''cannot add money with different currencies: '' @ a @ '' and '' @ b"
| "money_error_text (SubtractCurrencies a b) =
     ''cannot subtract money with different currencies: '' @ a @ '' and '' @ b"
| "money_error_text DivideByZero = ''cannot divide money by zero''"
| "money_error_text (ScanFormat e) = e"
| "money_error_text (ScanType t) = ''cannot scan '' @ t @ '' into Money''"

definition or_default :: "string \<Rightarrow> string" where
  "or_default cur = (if cur = '''' then DefaultCurrency else cur)"

definition NewMoney :: "(float64 \<Rightarrow> i64) \<Rightarrow> float64 \<Rightarrow> string \<Rightarrow> Money" where
  "NewMoney conv x cur =
     \<lparr>amount = to_int64 conv (fround (fmul x (Fin 100))), currency = or_default cur\<rparr>"

definition MYR :: "(float64 \<Rightarrow> i64) \<Rightarrow> float64 \<Rightarrow> Money" where
  "MYR conv x = NewMoney conv x CurrencyMYR"

definition USD :: "(float64 \<Rightarrow> i64) \<Rightarrow> float64 \<Rightarrow> Money" where
  "USD conv x = NewMoney conv x CurrencyUSD"

definition SGD :: "(float64 \<Rightarrow> i64) \<Rightarrow> float64 \<Rightarrow> Money" where
  "SGD conv x = NewMoney conv x CurrencySGD"

definition Money_Zero :: "string \<Rightarrow> Money" where
  "Money_Zero cur = \<lparr>amount = 0, currency = or_default cur\<rparr>"

definition FromCents :: "i64 \<Rightarrow> string \<Rightarrow> Money" where
  "FromCents cents cur = \<lparr>amount = cents, currency = or_default cur\<rparr>"

definition Money_Amount :: "Money \<Rightarrow> float64" where
  "Money_Amount m = fdiv (float_of_i64 (amount m)) (Fin 100)"

definition Cents :: "Money \<Rightarrow> i64" where
  "Cents m = amount m"

definition Money_Currency :: "Money \<Rightarrow> string" where
  "Money_Currency m = currency m"

fun fmt_f2 :: "float64 \<Rightarrow> string" where
  \<comment> \<open>\<open>%.2f\<close>: the exact value rounded to two decimals, ties to even\<close>
  "fmt_f2 (Fin x) =
     (let n = nat (rne (\<bar>x\<bar> * 100))
      in (if x < 0 then ''-'' else '''') @ show_nat (n div 100) @ ''.''
         @ [digit (n div 10 mod 10), digit (n mod 10)])"
| "fmt_f2 PosInf = ''+Inf''"
| "fmt_f2 NegInf = ''-Inf''"
| "fmt_f2 NaN = ''NaN''"

definition Money_String :: "Money \<Rightarrow> string" where
  "Money_String m = currency m @ '' '' @ fmt_f2 (Money_Amount m)"

definition Money_Float64 :: "Money \<Rightarrow> float64" where
  "Money_Float64 m = Money_Amount m"

definition Money_Add :: "Money \<Rightarrow> Money \<Rightarrow> money_error + Money" where
  "Money_Add m other =
     (if currency m \<noteq> currency other then Inl (AddCurrencies (currency m) (currency other))
      else Inr \<lparr>amount = amount m + amount other, currency = currency m\<rparr>)"

definition Money_MustAdd :: "Money \<Rightarrow> Money \<Rightarrow> Money go" where
  "Money_MustAdd m other =
     (case Money_Add m other of Inl e \<Rightarrow> Panic (money_error_text e) | Inr r \<Rightarrow> Ret r)"

definition Money_Subtract :: "Money \<Rightarrow> Money \<Rightarrow> money_error + Money" where
  "Money_Subtract m other =
     (if currency m \<noteq> currency other then Inl (SubtractCurrencies (currency m) (currency other))
      else Inr \<lparr>amount = amount m - amount other, currency = currency m\<rparr>)"

definition Money_MustSubtract :: "Money \<Rightarrow> Money \<Rightarrow> Money go" where
  "Money_MustSubtract m other =
     (case Money_Subtract m other of Inl e \<Rightarrow> Panic (money_error_text e) | Inr r \<Rightarrow> Ret r)"

definition Money_Multiply :: "(float64 \<Rightarrow> i64) \<Rightarrow> Money \<Rightarrow> float64 \<Rightarrow> Money" where
  "Money_Multiply conv m factor =
     \<lparr>amount = to_int64 conv (fround (fmul (float_of_i64 (amount m)) factor)),
      currency = currency m\<rparr>"

definition Money_Divide :: "(float64 \<Rightarrow> i64) \<Rightarrow> Money \<Rightarrow> float64 \<Rightarrow> money_error + Money" where
  "Money_Divide conv m divisor =
     (if divisor = Fin 0 then Inl DivideByZero
      else Inr \<lparr>amount = to_int64 conv (fround (fdiv (float_of_i64 (amount m)) divisor)),
                currency = currency m\<rparr>)"

definition Money_Percentage :: "(float64 \<Rightarrow> i64) \<Rightarrow> Money \<Rightarrow> float64 \<Rightarrow> Money" where
  "Money_Percentage conv m percent = Money_Multiply conv m (fdiv percent (Fin 100))"

definition Money_Equals :: "Money \<Rightarrow> Money \<Rightarrow> bool" where
  "Money_Equals m other \<longleftrightarrow> amount m = amount other \<and> currency m = currency other"

definition Money_GreaterThan :: "Money \<Rightarrow> Money \<Rightarrow> bool" where
  "Money_GreaterThan m other =
     (if currency m \<noteq> currency other then False else amount other <s amount m)"

definition Money_GreaterThanOrEqual :: "Money \<Rightarrow> Money \<Rightarrow> bool" where
  "Money_GreaterThanOrEqual m other =
     (if currency m \<noteq> currency other then False else amount other \<le>s amount m)"

definition Money_LessThan :: "Money \<Rightarrow> Money \<Rightarrow> bool" where
  "Money_LessThan m other =
     (if currency m \<noteq> currency other then False else amount m <s amount other)"

definition Money_LessThanOrEqual :: "Money \<Rightarrow> Money \<Rightarrow> bool" where
  "Money_LessThanOrEqual m other =
     (if currency m \<noteq> currency other then False else amount m \<le>s amount other)"

definition Money_IsZero :: "Money \<Rightarrow> bool" where
  "Money_IsZero m \<longleftrightarrow> amount m = 0"

definition Money_IsPositive :: "Money \<Rightarrow> bool" where
  "Money_IsPositive m \<longleftrightarrow> 0 <s amount m"

definition Money_IsNegative :: "Money \<Rightarrow> bool" where
  "Money_IsNegative m \<longleftrightarrow> amount m <s 0"

definition Money_Negate :: "Money \<Rightarrow> Money" where
  "Money_Negate m = \<lparr>amount = - amount m, currency = currency m\<rparr>"

definition Money_Abs :: "Money \<Rightarrow> Money" where
  "Money_Abs m = (if amount m <s 0 then Money_Negate m else m)"

datatype driver_value =
    DNil | DFloat float64 | DInt64 i64 | DInt i64 | DBytes string | DString string | DOther string
  \<comment> \<open>the dynamic type of the \<open>interface{}\<close> that \<open>Scan\<close> switches on\<close>

definition Money_Value :: "Money \<Rightarrow> driver_value" where
  "Money_Value m = DFloat (Money_Amount m)"

fun Money_Scan ::
  "(float64 \<Rightarrow> i64) \<Rightarrow> (string \<Rightarrow> string + float64) \<Rightarrow> driver_value \<Rightarrow> money_error + Money" where
  "Money_Scan conv sscanf DNil = Inr (Money_Zero DefaultCurrency)"
| "Money_Scan conv sscanf (DFloat v) = Inr (NewMoney conv v DefaultCurrency)"
| "Money_Scan conv sscanf (DInt64 v) = Inr (FromCents (v * 100) DefaultCurrency)"
| "Money_Scan conv sscanf (DBytes v) =
     (case sscanf v of Inl e \<Rightarrow> Inl (ScanFormat e) | Inr a \<Rightarrow> Inr (NewMoney conv a DefaultCurrency))"
| "Money_Scan conv sscanf (DString v) =
     (case sscanf v of Inl e \<Rightarrow> Inl (ScanFormat e) | Inr a \<Rightarrow> Inr (NewMoney conv a DefaultCurrency))"
| "Money_Scan conv sscanf (DInt _) = Inl (ScanType ''int'')"
| "Money_Scan conv sscanf (DOther t) = Inl (ScanType t)"

definition Money_Max :: "Money \<Rightarrow> Money \<Rightarrow> Money" where
  "Money_Max m other =
     (if currency m \<noteq> currency other then m
      else if amount m <s amount other then other else m)"

definition Money_Min :: "Money \<Rightarrow> Money \<Rightarrow> Money" where
  "Money_Min m other =
     (if currency m \<noteq> currency other then m
      else if amount other <s amount m then other else m)"

fun SumMoney :: "Money list \<Rightarrow> money_error + Money" where
  "SumMoney [] = Inr (Money_Zero DefaultCurrency)"
| "SumMoney (v # vs) = fold_res Money_Add v vs"

lemmas money_currency_defs =
  CurrencyMYR_def CurrencyUSD_def CurrencySGD_def DefaultCurrency_def or_default_def
lemmas money_order_defs =
  Money_GreaterThan_def Money_GreaterThanOrEqual_def Money_LessThan_def Money_LessThanOrEqual_def
  Money_Max_def Money_Min_def Money_Equals_def

section \<open>Sums\<close>

interpretation money_sum: checked_sum Money_Add "\<lambda>_. True" amount
  by unfold_locales (auto simp: Money_Add_def split: if_splits)

lemma Money_Add_same:
  "currency b = currency a \<Longrightarrow>
   Money_Add a b = Inr \<lparr>amount = amount a + amount b, currency = currency a\<rparr>"
  by (simp add: Money_Add_def)

lemma Money_Add_Inr_iff:
  "Money_Add a b = Inr c \<longleftrightarrow>
   currency b = currency a \<and> currency c = currency a \<and> amount c = amount a + amount b"
  by (auto simp: Money_Add_def)

lemma fold_Money_Add:
  "fold_res Money_Add v vs =
     (case find (\<lambda>x. currency x \<noteq> currency v) vs of
        None \<Rightarrow> Inr \<lparr>amount = amount v + sum_list (map amount vs), currency = currency v\<rparr>
      | Some x \<Rightarrow> Inl (AddCurrencies (currency v) (currency x)))"
proof (induction vs arbitrary: v)
  case Nil
  then show ?case by simp
next
  case (Cons x xs)
  then show ?case
    by (cases "currency x = currency v")
      (auto simp: Money_Add_def add.assoc split: option.splits)
qed

text \<open>
  \<open>SumMoney\<close> decides its result completely: the zero amount of the default currency for no
  values, the currency error naming the first value that differs from the head, and otherwise the
  (wrapping) sum of all amounts in the currency of the head.
\<close>
theorem SumMoney_spec:
  "SumMoney vs =
     (case vs of
        [] \<Rightarrow> Inr \<lparr>amount = 0, currency = ''MYR''\<rparr>
      | v # rest \<Rightarrow>
          (case find (\<lambda>x. currency x \<noteq> currency v) rest of
             None \<Rightarrow> Inr \<lparr>amount = sum_list (map amount vs), currency = currency v\<rparr>
           | Some x \<Rightarrow> Inl (AddCurrencies (currency v) (currency x))))"
  by (cases vs) (simp_all add: fold_Money_Add Money_Zero_def money_currency_defs split: option.splits)

text \<open>
  When the mathematical total fits an int64, a successful \<open>SumMoney\<close> returns exactly it, even
  if a partial sum overflows on the way.
\<close>
theorem SumMoney_exact:
  assumes "SumMoney vs = Inr m" and "in_i64 (\<Sum>v\<leftarrow>vs. sint (amount v))"
  shows "sint (Cents m) = (\<Sum>v\<leftarrow>vs. sint (amount v))"
proof (cases vs)
  case Nil
  with assms(1) show ?thesis by (auto simp: Money_Zero_def Cents_def)
next
  case (Cons v rest)
  with assms(1) have "amount m = amount v + sum_list (map amount rest)"
    by (auto dest: money_sum.sum_val [rotated 2])
  then have "amount m = sum_list (map amount vs)" by (simp add: Cons)
  then show ?thesis
    using assms(2) by (simp add: Cents_def sint_sum_list_mod wrap64_id comp_def)
qed

theorem SumMoney_exact_witness:
  "sint (Cents \<lparr>amount = 2 ^ 62, currency = ''MYR''\<rparr>) = 2 ^ 62"
proof -
  let ?p = "\<lparr>amount = 2 ^ 62, currency = ''MYR''\<rparr>" and ?n = "\<lparr>amount = - (2 ^ 62), currency = ''MYR''\<rparr>"
  have s: "sint (2 ^ 62 :: i64) = 2 ^ 62" "sint (- (2 ^ 62) :: i64) = - (2 ^ 62)" by simp_all
  have "SumMoney [?p, ?p, ?n] = Inr ?p" by (simp add: Money_Add_def)
  from SumMoney_exact [OF this] show ?thesis
    by (simp add: in_i64_def i64_limits)
qed

section \<open>Arithmetic\<close>

text \<open>
  Subtraction undoes addition, whatever wraps, and both fail exactly on different currencies.
\<close>
theorem Money_Subtract_Add:
  "(case Money_Add a b of
      Inl e \<Rightarrow> currency a \<noteq> currency b \<and> e = AddCurrencies (currency a) (currency b)
             \<and> Money_Subtract a b = Inl (SubtractCurrencies (currency a) (currency b))
    | Inr c \<Rightarrow> currency a = currency b \<and> Money_Subtract c b = Inr a
             \<and> Money_Add b a = Inr c \<and> Money_MustAdd a b = Ret c)"
  by (auto simp: Money_Add_def Money_Subtract_def Money_MustAdd_def)

text \<open>
  \<open>Abs\<close> and \<open>Negate\<close> are exact except at the least int64, where both wrap and \<open>Abs\<close>
  returns a negative amount.
\<close>
theorem Money_Abs_exact:
  "sint (amount (Money_Abs m)) =
     (if sint (amount m) = MinInt64 then MinInt64 else \<bar>sint (amount m)\<bar>)
   \<and> (Money_IsNegative (Money_Abs m) \<longleftrightarrow> sint (amount m) = MinInt64)"
proof -
  have *: "sint (amount (Money_Abs m)) =
     (if sint (amount m) = MinInt64 then MinInt64 else \<bar>sint (amount m)\<bar>)"
  proof (cases "sint (amount m) = MinInt64")
    case True
    then show ?thesis
      by (simp add: Money_Abs_def Money_Negate_def signed_compare sint_uminus_wrap wrap64_def i64_limits)
  next
    case False
    then show ?thesis
      by (simp add: Money_Abs_def Money_Negate_def signed_compare sint_uminus_exact)
  qed
  show ?thesis
    unfolding Money_IsNegative_def signed_compare * by (simp add: i64_limits)
qed

text \<open>
  Amounts of one currency are linearly ordered by the comparison methods: exactly one of less,
  equal and greater holds, the non-strict methods are the negations of the strict ones, and
  \<open>Max\<close>/\<open>Min\<close> return the bounds. Across currencies every comparison is false and
  \<open>Max\<close>/\<open>Min\<close> return the receiver.
\<close>
theorem Money_order_laws:
  "if currency a = currency b
   then (Money_LessThan a b \<longleftrightarrow> \<not> Money_GreaterThanOrEqual a b)
      \<and> (Money_GreaterThan a b \<longleftrightarrow> \<not> Money_LessThanOrEqual a b)
      \<and> (Money_Equals a b \<longleftrightarrow> Money_LessThanOrEqual a b \<and> Money_GreaterThanOrEqual a b)
      \<and> Money_GreaterThanOrEqual (Money_Max a b) a \<and> Money_GreaterThanOrEqual (Money_Max a b) b
      \<and> Money_LessThanOrEqual (Money_Min a b) a \<and> Money_LessThanOrEqual (Money_Min a b) b
      \<and> {Money_Max a b, Money_Min a b} = {a, b}
   else \<not> Money_LessThan a b \<and> \<not> Money_GreaterThan a b \<and> \<not> Money_LessThanOrEqual a b
      \<and> \<not> Money_GreaterThanOrEqual a b \<and> \<not> Money_Equals a b
      \<and> Money_Max a b = a \<and> Money_Min a b = a"
proof (cases "currency a = currency b")
  case True
  have "Money_Equals a b \<longleftrightarrow> Money_LessThanOrEqual a b \<and> Money_GreaterThanOrEqual a b"
    using True by (auto simp: money_order_defs signed_compare i64_eq_iff)
  moreover have "{Money_Max a b, Money_Min a b} = {a, b}"
    using True i64_eq_iff [of "amount a" "amount b"]
    by (cases a; cases b) (auto simp: money_order_defs signed_compare)
  ultimately show ?thesis
    using True by (auto simp: money_order_defs signed_compare)
next
  case False
  then show ?thesis by (simp add: money_order_defs)
qed

section \<open>Rounding\<close>

lemma pow2_tiny: "pow2 (- 1022) \<le> 1 / 128"
proof -
  have "pow2 (- 1022) \<le> pow2 (- 7)" by (rule pow2_mono) simp
  also have "pow2 (- 7) = 1 / 128" by (simp add: pow2_def power_int_def power_divide)
  finally show ?thesis .
qed

lemma nearest_quarter:
  assumes "\<bar>x\<bar> < pow2 (- 1022)"
  shows "\<bar>nearest x\<bar> < 1 / 4"
proof (cases "x = 0")
  case True
  then show ?thesis by simp
next
  case False
  have "pow2 (expo x) < pow2 (- 1022)" using expo_bounds(1) [OF False] assms by simp
  then have "expo x < - 1022" by (simp add: pow2_less_iff)
  then have "ulp x \<le> pow2 (- 1022)" by (auto simp: ulp_def intro: pow2_mono)
  then show ?thesis using nearest_error [of x] assms pow2_tiny by linarith
qed

lemma fround_round64:
  assumes "\<bar>x\<bar> \<le> 2 ^ 62"
  obtains n where "fround (round64 x) = Fin (of_int n)" and "in_i64 n"
    and "\<bar>of_int n - x\<bar> \<le> 1 / 2 + \<bar>x\<bar> / 2 ^ 53"
proof -
  have "(2 :: rat) ^ 62 \<le> 2 ^ 1000" by (rule power_increasing) auto
  then have r: "round64 x = Fin (nearest x)" using assms by (intro round64_finite) linarith
  show thesis
  proof (cases "\<bar>x\<bar> < pow2 (- 1022)")
    case True
    then have "round_away (nearest x) = 0"
      using nearest_quarter [OF True] by (intro round_away_unique) simp
    moreover have "\<bar>of_int 0 - x\<bar> \<le> 1 / 2 + \<bar>x\<bar> / 2 ^ 53"
      using True pow2_tiny by simp
    ultimately show thesis using that [of 0] by (simp add: r in_i64_alt)
  next
    case False
    then have "x \<noteq> 0" by auto
    then have e: "\<bar>nearest x - x\<bar> \<le> \<bar>x\<bar> / 2 ^ 53" using False by (intro nearest_rel_error) auto
    let ?n = "round_away (nearest x)"
    have d: "\<bar>of_int ?n - x\<bar> \<le> 1 / 2 + \<bar>x\<bar> / 2 ^ 53"
      using round_away_error [of "nearest x"] e by linarith
    have "\<bar>x\<bar> / 2 ^ 53 \<le> 512" using assms by (simp add: field_simps)
    then have "\<bar>of_int ?n - x\<bar> \<le> 513" by (intro order_trans [OF d]) simp
    then have "\<bar>of_int ?n\<bar> < (2 :: rat) ^ 62 + 2 ^ 10" 
      using assms unfolding abs_le_iff abs_less_iff by auto
    then have "of_int \<bar>?n\<bar> < (of_int (2 ^ 62 + 2 ^ 10) :: rat)" by simp
    then have "\<bar>?n\<bar> < 2 ^ 62 + 2 ^ 10" by (simp only: of_int_less_iff)
    then have "in_i64 ?n" by (auto simp: in_i64_alt)
    with d show thesis using that [of ?n] by (simp add: r)
  qed
qed

text \<open>
  C39. \<open>Multiply\<close> keeps the currency and is within half a cent, plus the relative error of one
  float operation, of the exact product, for amounts below 2^53 cents and products up to 2^62.
\<close>
theorem Money_Multiply_error:
  assumes "\<bar>sint (amount m)\<bar> < 2 ^ 53" and "\<bar>of_int (sint (amount m)) * f\<bar> \<le> 2 ^ 62"
  shows "\<bar>of_int (sint (amount (Money_Multiply conv m (Fin f)))) - of_int (sint (amount m)) * f\<bar>
           \<le> 1 / 2 + \<bar>of_int (sint (amount m)) * f\<bar> / 2 ^ 53
         \<and> currency (Money_Multiply conv m (Fin f)) = currency m"
proof -
  obtain n where "fround (round64 (of_int (sint (amount m)) * f)) = Fin (of_int n)" "in_i64 n"
    and e: "\<bar>of_int n - of_int (sint (amount m)) * f\<bar> \<le> 1 / 2 + \<bar>of_int (sint (amount m)) * f\<bar> / 2 ^ 53"
    using fround_round64 [OF assms(2)] by blast
  then have "sint (amount (Money_Multiply conv m (Fin f))) = n"
    by (simp add: Money_Multiply_def float_of_i64_exact [OF assms(1)] sint_of_int_exact)
  with e show ?thesis by (simp add: Money_Multiply_def)
qed

theorem Money_Multiply_error_witness:
  "\<bar>of_int (sint (amount (Money_Multiply (\<lambda>_. 0) \<lparr>amount = 1050, currency = ''MYR''\<rparr> (Fin (3 / 2))))) - 1575\<bar>
     \<le> 1 / 2 + (1575 :: rat) / 2 ^ 53"
  using Money_Multiply_error [of "\<lparr>amount = 1050, currency = ''MYR''\<rparr>" "3 / 2" "\<lambda>_. 0"] by simp

text \<open>
  \<open>Divide\<close> refuses only a zero divisor, and otherwise is within half a cent, plus the
  relative error of one float operation, of the exact quotient.
\<close>
theorem Money_Divide_error:
  assumes "\<bar>sint (amount m)\<bar> < 2 ^ 53" and "\<bar>of_int (sint (amount m)) / d\<bar> \<le> 2 ^ 62"
  shows "if d = 0 then Money_Divide conv m (Fin d) = Inl DivideByZero
         else \<exists>n. Money_Divide conv m (Fin d) = Inr \<lparr>amount = word_of_int n, currency = currency m\<rparr>
            \<and> in_i64 n \<and> \<bar>of_int n - of_int (sint (amount m)) / d\<bar>
                          \<le> 1 / 2 + \<bar>of_int (sint (amount m)) / d\<bar> / 2 ^ 53"
proof (cases "d = 0")
  case True
  then show ?thesis by (simp add: Money_Divide_def)
next
  case False
  obtain n where "fround (round64 (of_int (sint (amount m)) / d)) = Fin (of_int n)" "in_i64 n"
    "\<bar>of_int n - of_int (sint (amount m)) / d\<bar> \<le> 1 / 2 + \<bar>of_int (sint (amount m)) / d\<bar> / 2 ^ 53"
    using fround_round64 [OF assms(2)] by blast
  with False show ?thesis
    by (auto simp: Money_Divide_def float_of_i64_exact [OF assms(1)] intro!: exI [of _ n])
qed

theorem Money_Divide_error_witness:
  "\<exists>n. Money_Divide (\<lambda>_. 0) \<lparr>amount = 1000, currency = ''MYR''\<rparr> (Fin 3) =
         Inr \<lparr>amount = word_of_int n, currency = ''MYR''\<rparr>
       \<and> in_i64 n \<and> \<bar>of_int n - 1000 / 3\<bar> \<le> 1 / 2 + (1000 / 3 :: rat) / 2 ^ 53"
  using Money_Divide_error [of "\<lparr>amount = 1000, currency = ''MYR''\<rparr>" 3 "\<lambda>_. 0"] by simp

section \<open>Round trips through float64\<close>

lemma Money_Amount_near:
  assumes "\<bar>sint (amount m)\<bar> \<le> 2 ^ 50"
  obtains x where "Money_Amount m = Fin x" and "\<bar>x * 100 - of_int (sint (amount m))\<bar> \<le> 1 / 8"
    and "x < 0 \<longleftrightarrow> sint (amount m) < 0" and "\<bar>x\<bar> \<le> 2 ^ 50"
proof -
  define c where "c = sint (amount m)"
  have c: "\<bar>c\<bar> \<le> 2 ^ 50" "\<bar>c\<bar> < 2 ^ 53" using assms by (auto simp: c_def)
  have rc: "\<bar>of_int c\<bar> \<le> (2 :: rat) ^ 50"
    using c(1) by (metis of_int_abs of_int_le_iff of_int_numeral of_int_power)
  define q where "q = (of_int c / 100 :: rat)"
  have "(2 :: rat) ^ 50 \<le> 2 ^ 1000" by (rule power_increasing) auto
  then have "\<bar>q\<bar> \<le> 2 ^ 1000" using rc unfolding q_def by simp
  then have m: "Money_Amount m = Fin (nearest q)"
    using c(2) by (simp add: Money_Amount_def float_of_i64_exact c_def q_def round64_finite)
  show thesis
  proof (cases "c = 0")
    case True
    then show thesis using that [of 0] m by (simp add: q_def c_def)
  next
    case False
    then have "1 \<le> (of_int \<bar>c\<bar> :: rat)" unfolding of_int_1_le_iff by simp
    then have "1 \<le> \<bar>of_int c :: rat\<bar>" by simp
    then have "1 / 100 \<le> \<bar>q\<bar>" by (simp add: q_def)
    then have "q \<noteq> 0" "pow2 (- 1022) \<le> \<bar>q\<bar>" using pow2_tiny by auto
    from nearest_rel_error [OF this] have e: "\<bar>nearest q - q\<bar> \<le> \<bar>q\<bar> / 2 ^ 53" .
    have "\<bar>q\<bar> / 2 ^ 53 \<le> 1 / 800" using rc by (simp add: q_def field_simps)
    with e have b: "\<bar>nearest q - q\<bar> \<le> 1 / 800" by (rule order_trans)
    then have n: "\<bar>nearest q * 100 - of_int c\<bar> \<le> 1 / 8" unfolding q_def abs_le_iff by auto
    have s: "nearest q < 0 \<longleftrightarrow> c < 0"
    proof -
      have "\<bar>q\<bar> / 2 ^ 53 < \<bar>q\<bar>" using \<open>q \<noteq> 0\<close> by (simp add: field_simps)
      with e have "\<bar>nearest q - q\<bar> < \<bar>q\<bar>" by (rule le_less_trans)
      then have "nearest q < 0 \<longleftrightarrow> q < 0" by (auto simp: abs_if split: if_splits)
      then show ?thesis by (simp add: q_def)
    qed
    have "\<bar>nearest q\<bar> \<le> 2 ^ 50" using b rc unfolding q_def abs_le_iff by auto
    with that [of "nearest q"] m n s show thesis by (simp add: c_def)
  qed
qed

lemma fround_near_int:
  assumes "\<bar>y - of_int c\<bar> \<le> 1 / 8" and "\<bar>c\<bar> \<le> 2 ^ 50"
  shows "fround (round64 y) = Fin (of_int c)"
proof -
  have rc: "\<bar>of_int c\<bar> \<le> (2 :: rat) ^ 50"
    using assms(2) by (metis of_int_abs of_int_le_iff of_int_numeral of_int_power)
  then have y: "\<bar>y\<bar> \<le> 2 ^ 51" using assms(1) unfolding abs_le_iff by auto
  have "(2 :: rat) ^ 51 \<le> 2 ^ 1000" by (rule power_increasing) auto
  with y have r: "round64 y = Fin (nearest y)" by (intro round64_finite) linarith
  have "\<bar>nearest y - of_int c\<bar> < 1 / 2"
  proof (cases "\<bar>y\<bar> < pow2 (- 1022)")
    case True
    then have "\<bar>of_int c\<bar> < (1 :: rat)" using assms(1) pow2_tiny by linarith
    then have "of_int \<bar>c\<bar> < (1 :: rat)" by simp
    then have "\<bar>c\<bar> < 1" by (simp only: of_int_less_1_iff)
    then have "c = 0" by simp
    then show ?thesis using nearest_quarter [OF True] by simp
  next
    case False
    then have "y \<noteq> 0" by auto
    then have e: "\<bar>nearest y - y\<bar> \<le> \<bar>y\<bar> / 2 ^ 53" using False by (intro nearest_rel_error) auto
    have "\<bar>y\<bar> / 2 ^ 53 \<le> 1 / 4" using y by (simp add: field_simps)
    with e have "\<bar>nearest y - y\<bar> \<le> 1 / 4" by (rule order_trans)
    with assms(1) show ?thesis by linarith
  qed
  then show ?thesis by (simp add: r round_away_unique)
qed

lemma NewMoney_near:
  assumes "\<bar>x * 100 - of_int c\<bar> \<le> 1 / 8" and "\<bar>c\<bar> \<le> 2 ^ 50"
  shows "NewMoney conv (Fin x) cur = FromCents (word_of_int c) cur"
proof -
  have "in_i64 c" using assms(2) by (auto simp: in_i64_alt)
  then show ?thesis
    by (simp add: NewMoney_def FromCents_def fround_near_int [OF assms] to_int64_of_int)
qed

text \<open>
  \<open>NewMoney\<close> inverts \<open>Amount\<close>: up to 2^50 cents (11 trillion ringgit) no cent is lost on
  the way through a float64.
\<close>
theorem NewMoney_Amount:
  assumes "\<bar>sint (amount m)\<bar> \<le> 2 ^ 50" and "currency m \<noteq> ''''"
  shows "NewMoney conv (Money_Amount m) (Money_Currency m) = m"
proof -
  obtain x where m: "Money_Amount m = Fin x"
    and near: "\<bar>x * 100 - of_int (sint (amount m))\<bar> \<le> 1 / 8"
    by (rule Money_Amount_near [OF assms(1)])
  show ?thesis
    unfolding m NewMoney_near [OF near assms(1)] FromCents_def Money_Currency_def or_default_def
    using assms(2) by simp
qed

theorem NewMoney_Amount_witness:
  "NewMoney (\<lambda>_. 0) (Money_Amount \<lparr>amount = 1999, currency = ''USD''\<rparr>) ''USD''
     = \<lparr>amount = 1999, currency = ''USD''\<rparr>"
  using NewMoney_Amount [of "\<lparr>amount = 1999, currency = ''USD''\<rparr>" "\<lambda>_. 0"]
  by (simp add: Money_Currency_def)

text \<open>
  Storing an amount and reading it back keeps the cents and replaces the currency by the
  default one: \<open>Value\<close> writes no currency.
\<close>
theorem Money_Scan_Value:
  assumes "\<bar>sint (amount m)\<bar> \<le> 2 ^ 50"
  shows "Money_Scan conv sscanf (Money_Value m) = Inr \<lparr>amount = amount m, currency = DefaultCurrency\<rparr>"
proof -
  obtain x where m: "Money_Amount m = Fin x"
    and near: "\<bar>x * 100 - of_int (sint (amount m))\<bar> \<le> 1 / 8"
    by (rule Money_Amount_near [OF assms])
  show ?thesis
    unfolding m Money_Value_def Money_Scan.simps NewMoney_near [OF near assms] FromCents_def
    by (simp add: money_currency_defs)
qed

theorem Money_Scan_Value_witness:
  "Money_Scan (\<lambda>_. 0) (\<lambda>_. Inl '''') (Money_Value \<lparr>amount = - 725, currency = ''SGD''\<rparr>)
     = Inr \<lparr>amount = - 725, currency = ''MYR''\<rparr>"
  using Money_Scan_Value [of "\<lparr>amount = - 725, currency = ''SGD''\<rparr>" "\<lambda>_. 0" "\<lambda>_. Inl ''''"]
  by (simp add: money_currency_defs)

text \<open>
  \<open>String\<close> prints the exact amount: sign, whole units, a point and the two digits of the
  cents, up to 2^50 cents.
\<close>
theorem Money_String_exact:
  assumes "\<bar>sint (amount m)\<bar> \<le> 2 ^ 50"
  shows "Money_String m = currency m @ '' '' @ (if sint (amount m) < 0 then ''-'' else '''')
           @ show_nat (nat \<bar>sint (amount m)\<bar> div 100) @ ''.''
           @ [digit (nat \<bar>sint (amount m)\<bar> div 10 mod 10), digit (nat \<bar>sint (amount m)\<bar> mod 10)]"
proof -
  obtain x where m: "Money_Amount m = Fin x" and x: "\<bar>x * 100 - of_int (sint (amount m))\<bar> \<le> 1 / 8"
    and sgn: "x < 0 \<longleftrightarrow> sint (amount m) < 0"
    by (rule Money_Amount_near [OF assms])
  have "\<bar>\<bar>x\<bar> * 100 - of_int \<bar>sint (amount m)\<bar>\<bar> \<le> 1 / 8"
    using x sgn by (simp add: abs_if split: if_splits)
  then have "rne (\<bar>x\<bar> * 100) = \<bar>sint (amount m)\<bar>"
    using rne_unique by simp
  then show ?thesis by (simp add: Money_String_def m sgn Let_def)
qed

theorem Money_String_exact_witness:
  "Money_String \<lparr>amount = - 12305, currency = ''MYR''\<rparr> = ''MYR -123.05''"
  using Money_String_exact [of "\<lparr>amount = - 12305, currency = ''MYR''\<rparr>"]
  by (simp add: show_nat.simps)

end
