(* ===== verification/Quantity.thy ===== *)
theory Quantity
  imports Money
begin

text \<open>
  \<open>domain/quantity.go\<close>: non-negative 64-bit counts with an optional unit, where the empty unit
  matches every unit. \<open>conv\<close> stands for the implementation-dependent conversion of a float
  outside the int64 range.
\<close>

section \<open>Model\<close>

record Quantity =
  qvalue :: i64
  unit :: string

datatype quantity_error =
    ErrNegativeQuantity
  | ErrQuantityOverflow
  | AddUnits string string
  | SubtractUnits string string
  | ScanQuantityType string

fun quantity_error_text :: "quantity_error \<Rightarrow> string" where
  "quantity_error_text ErrNegativeQuantity = ''quantity cannot be negative''"
| "quantity_error_text ErrQuantityOverflow = ''quantity operation would cause overflow''"
| "quantity_error_text (AddUnits a b) =
     ''cannot add quantities with different units: '' @ a @ '' and '' @ b"
| "quantity_error_text (SubtractUnits a b) =
     ''cannot subtract quantities with different units: '' @ a @ '' and '' @ b"
| "quantity_error_text (ScanQuantityType t) = ''cannot scan '' @ t @ '' into Quantity''"

definition must :: "quantity_error + 'a \<Rightarrow> 'a go" where
  \<comment> \<open>\<open>if err != nil { panic(err) }\<close>\<close>
  "must r = (case r of Inl e \<Rightarrow> Panic (quantity_error_text e) | Inr x \<Rightarrow> Ret x)"

definition NewQuantity :: "i64 \<Rightarrow> quantity_error + Quantity" where
  "NewQuantity v = (if v <s 0 then Inl ErrNegativeQuantity else Inr \<lparr>qvalue = v, unit = ''''\<rparr>)"

definition MustQuantity :: "i64 \<Rightarrow> Quantity go" where
  "MustQuantity v = must (NewQuantity v)"

definition QuantityWithUnit :: "i64 \<Rightarrow> string \<Rightarrow> quantity_error + Quantity" where
  "QuantityWithUnit v u = (if v <s 0 then Inl ErrNegativeQuantity else Inr \<lparr>qvalue = v, unit = u\<rparr>)"

definition MustQuantityWithUnit :: "i64 \<Rightarrow> string \<Rightarrow> Quantity go" where
  "MustQuantityWithUnit v u = must (QuantityWithUnit v u)"

definition ZeroQuantity :: Quantity where
  "ZeroQuantity = \<lparr>qvalue = 0, unit = ''''\<rparr>"

definition RawValue :: "Quantity \<Rightarrow> i64" where
  "RawValue q = qvalue q"

definition Quantity_Unit :: "Quantity \<Rightarrow> string" where
  "Quantity_Unit q = unit q"

definition Quantity_String :: "Quantity \<Rightarrow> string" where
  "Quantity_String q =
     (if unit q \<noteq> '''' then show_int (sint (qvalue q)) @ '' '' @ unit q
      else show_int (sint (qvalue q)))"

definition Quantity_Int :: "Quantity \<Rightarrow> i64" where
  "Quantity_Int q = RawValue q"

definition units_clash :: "Quantity \<Rightarrow> Quantity \<Rightarrow> bool" where
  \<comment> \<open>the guard every binary operation starts with\<close>
  "units_clash q other \<longleftrightarrow> unit q \<noteq> '''' \<and> unit other \<noteq> '''' \<and> unit q \<noteq> unit other"

definition joint_unit :: "Quantity \<Rightarrow> Quantity \<Rightarrow> string" where
  "joint_unit q other = (if unit q = '''' then unit other else unit q)"

definition Quantity_Add :: "Quantity \<Rightarrow> Quantity \<Rightarrow> quantity_error + Quantity" where
  "Quantity_Add q other =
     (if units_clash q other then Inl (AddUnits (unit q) (unit other))
      else let newValue = qvalue q + qvalue other
           in if newValue <s qvalue q then Inl ErrQuantityOverflow
              else Inr \<lparr>qvalue = newValue, unit = joint_unit q other\<rparr>)"

definition Quantity_MustAdd :: "Quantity \<Rightarrow> Quantity \<Rightarrow> Quantity go" where
  "Quantity_MustAdd q other = must (Quantity_Add q other)"

definition Quantity_Subtract :: "Quantity \<Rightarrow> Quantity \<Rightarrow> quantity_error + Quantity" where
  "Quantity_Subtract q other =
     (if units_clash q other then Inl (SubtractUnits (unit q) (unit other))
      else if qvalue q <s qvalue other then Inl ErrNegativeQuantity
      else Inr \<lparr>qvalue = qvalue q - qvalue other, unit = joint_unit q other\<rparr>)"

definition Quantity_MustSubtract :: "Quantity \<Rightarrow> Quantity \<Rightarrow> Quantity go" where
  "Quantity_MustSubtract q other = must (Quantity_Subtract q other)"

definition CanSubtract :: "Quantity \<Rightarrow> Quantity \<Rightarrow> bool" where
  "CanSubtract q other = (if units_clash q other then False else qvalue other \<le>s qvalue q)"

definition Quantity_Multiply :: "Quantity \<Rightarrow> i64 \<Rightarrow> quantity_error + Quantity" where
  "Quantity_Multiply q factor =
     (if factor <s 0 then Inl ErrNegativeQuantity
      else Inr \<lparr>qvalue = qvalue q * factor, unit = unit q\<rparr>)"

definition Quantity_MustMultiply :: "Quantity \<Rightarrow> i64 \<Rightarrow> Quantity go" where
  "Quantity_MustMultiply q factor = must (Quantity_Multiply q factor)"

definition Quantity_Equals :: "Quantity \<Rightarrow> Quantity \<Rightarrow> bool" where
  "Quantity_Equals q other \<longleftrightarrow> qvalue q = qvalue other \<and> unit q = unit other"

definition Quantity_GreaterThan :: "Quantity \<Rightarrow> Quantity \<Rightarrow> bool" where
  "Quantity_GreaterThan q other = (if units_clash q other then False else qvalue other <s qvalue q)"

definition Quantity_GreaterThanOrEqual :: "Quantity \<Rightarrow> Quantity \<Rightarrow> bool" where
  "Quantity_GreaterThanOrEqual q other =
     (if units_clash q other then False else qvalue other \<le>s qvalue q)"

definition Quantity_LessThan :: "Quantity \<Rightarrow> Quantity \<Rightarrow> bool" where
  "Quantity_LessThan q other = (if units_clash q other then False else qvalue q <s qvalue other)"

definition Quantity_LessThanOrEqual :: "Quantity \<Rightarrow> Quantity \<Rightarrow> bool" where
  "Quantity_LessThanOrEqual q other =
     (if units_clash q other then False else qvalue q \<le>s qvalue other)"

definition Quantity_IsZero :: "Quantity \<Rightarrow> bool" where
  "Quantity_IsZero q \<longleftrightarrow> qvalue q = 0"


definition Quantity_Value :: "Quantity \<Rightarrow> driver_value" where
  "Quantity_Value q = DInt64 (qvalue q)"




fun SumQuantities :: "Quantity list \<Rightarrow> quantity_error + Quantity" where
  "SumQuantities [] = Inr ZeroQuantity"
| "SumQuantities (v # vs) = fold_res Quantity_Add v vs"

lemmas unit_defs = units_clash_def joint_unit_def

section \<open>The invariant\<close>

definition quantity_ok :: "Quantity \<Rightarrow> bool" where
  \<comment> \<open>"a non-negative quantity value"\<close>
  "quantity_ok q \<longleftrightarrow> 0 \<le> sint (qvalue q)"



lemma ZeroQuantity_ok [simp, inv_intros]: "quantity_ok ZeroQuantity"
  by (simp add: ZeroQuantity_def quantity_ok_def)




lemma wrap64_overflow:
  assumes "MaxInt64 < z" and "z \<le> 2 * MaxInt64"
  shows "wrap64 z = z - 2 ^ 64"
proof -
  have "(z + 2 ^ 63) mod 2 ^ 64 = (z + 2 ^ 63 - 2 ^ 64) mod 2 ^ 64"
    by (rule minus_mod_self2 [symmetric])
  also have "\<dots> = z + 2 ^ 63 - 2 ^ 64"
    using assms by (intro mod_pos_pos_trivial) (auto simp: i64_limits)
  finally show ?thesis by (simp add: wrap64_def)
qed

lemma Quantity_Add_cases:
  assumes "quantity_ok a" and "quantity_ok b"
  shows "Quantity_Add a b =
     (if units_clash a b then Inl (AddUnits (unit a) (unit b))
      else if MaxInt64 < sint (qvalue a) + sint (qvalue b) then Inl ErrQuantityOverflow
      else Inr \<lparr>qvalue = qvalue a + qvalue b, unit = joint_unit a b\<rparr>)"
proof -
  have lim: "sint (qvalue a) \<le> MaxInt64" "sint (qvalue b) \<le> MaxInt64"
    using in_i64_sint unfolding in_i64_def by blast+
  have "qvalue a + qvalue b <s qvalue a \<longleftrightarrow> MaxInt64 < sint (qvalue a) + sint (qvalue b)"
  proof (cases "MaxInt64 < sint (qvalue a) + sint (qvalue b)")
    case True
    then have "sint (qvalue a + qvalue b) = sint (qvalue a) + sint (qvalue b) - 2 ^ 64"
      using lim by (simp add: sint_plus_wrap wrap64_overflow)
    with True lim show ?thesis by (simp add: signed_compare i64_limits)
  next
    case False
    then have "in_i64 (sint (qvalue a) + sint (qvalue b))"
      using assms by (simp add: quantity_ok_def in_i64_def i64_limits)
    with False assms show ?thesis
      by (simp add: signed_compare sint_simps quantity_ok_def)
  qed
  then show ?thesis by (simp add: Quantity_Add_def)
qed

lemma Quantity_Add_sint:
  assumes "quantity_ok a" and "quantity_ok b" and "Quantity_Add a b = Inr c"
  shows "sint (qvalue c) = sint (qvalue a) + sint (qvalue b)"
proof -
  have "in_i64 (sint (qvalue a) + sint (qvalue b))"
    using assms by (simp add: Quantity_Add_cases quantity_ok_def in_i64_def i64_limits split: if_splits)
  with assms show ?thesis by (auto simp: Quantity_Add_cases sint_simps split: if_splits)
qed

interpretation quantity_sum: checked_sum Quantity_Add quantity_ok "\<lambda>q. sint (qvalue q)"
proof
  fix a b c
  assume *: "quantity_ok a" "quantity_ok b" "Quantity_Add a b = Inr c"
  show "sint (qvalue c) = sint (qvalue a) + sint (qvalue b)" by (rule Quantity_Add_sint [OF *])
  with * show "quantity_ok c" by (simp add: quantity_ok_def)
qed

lemmas Quantity_Add_ok [inv_intros] = quantity_sum.add_wf

lemma Quantity_Subtract_ok [inv_intros]:
  assumes "quantity_ok a" and "quantity_ok b" and "Quantity_Subtract a b = Inr c"
  shows "quantity_ok c" and "sint (qvalue c) = sint (qvalue a) - sint (qvalue b)"
proof -
  have le: "sint (qvalue b) \<le> sint (qvalue a)" and c: "qvalue c = qvalue a - qvalue b"
    using assms(3) by (auto simp: Quantity_Subtract_def signed_compare split: if_splits)
  have "in_i64 (sint (qvalue a) - sint (qvalue b))"
    using assms(1,2) le sint_i64_less [of "qvalue a"] unfolding quantity_ok_def in_i64_alt by auto
  then show "sint (qvalue c) = sint (qvalue a) - sint (qvalue b)" by (simp add: c sint_simps)
  with le show "quantity_ok c" by (simp add: quantity_ok_def)
qed


section \<open>Properties\<close>



text \<open>
  \<open>Add\<close> detects overflow exactly: on non-negative operands of matching units it returns
  the true sum when that fits an int64 and \<open>ErrQuantityOverflow\<close> when it does not.
\<close>
theorem Quantity_Add_detects_overflow:
  assumes "quantity_ok a" and "quantity_ok b" and "\<not> units_clash a b"
  shows "if sint (qvalue a) + sint (qvalue b) \<le> MaxInt64
         then \<exists>c. Quantity_Add a b = Inr c \<and> sint (qvalue c) = sint (qvalue a) + sint (qvalue b)
                 \<and> unit c \<in> {unit a, unit b}
         else Quantity_Add a b = Inl ErrQuantityOverflow"
proof (cases "sint (qvalue a) + sint (qvalue b) \<le> MaxInt64")
  case True
  then have c: "Quantity_Add a b = Inr \<lparr>qvalue = qvalue a + qvalue b, unit = joint_unit a b\<rparr>"
    using assms by (simp add: Quantity_Add_cases)
  from Quantity_Add_sint [OF assms(1,2) this] c True show ?thesis
    by (simp add: joint_unit_def)
next
  case False
  then show ?thesis using assms by (simp add: Quantity_Add_cases)
qed

theorem Quantity_Add_detects_overflow_witness:
  "Quantity_Add \<lparr>qvalue = 2 ^ 62, unit = ''m''\<rparr> \<lparr>qvalue = 2 ^ 62, unit = ''''\<rparr> = Inl ErrQuantityOverflow"
  using Quantity_Add_detects_overflow
    [of "\<lparr>qvalue = 2 ^ 62, unit = ''m''\<rparr>" "\<lparr>qvalue = 2 ^ 62, unit = ''''\<rparr>"]
  by (simp add: quantity_ok_def unit_defs i64_limits)

lemma joint_unit_clash:
  "\<not> units_clash a b \<Longrightarrow> units_clash \<lparr>qvalue = v, unit = joint_unit a b\<rparr> x
     \<longleftrightarrow> units_clash a x \<or> units_clash b x"
  by (auto simp: unit_defs)

lemma compatible_Cons:
  "pairwise (\<lambda>x y. \<not> units_clash x y) (set (v # vs)) \<longleftrightarrow>
     (\<forall>y\<in>set vs. \<not> units_clash v y) \<and> pairwise (\<lambda>x y. \<not> units_clash x y) (set vs)"
  by (auto simp: pairwise_insert units_clash_def)

lemma fold_Quantity_Add_ok_iff:
  "quantity_ok v \<Longrightarrow> \<forall>x\<in>set vs. quantity_ok x \<Longrightarrow>
   (\<exists>r. fold_res Quantity_Add v vs = Inr r) \<longleftrightarrow>
     pairwise (\<lambda>x y. \<not> units_clash x y) (set (v # vs))
     \<and> sint (qvalue v) + (\<Sum>x\<leftarrow>vs. sint (qvalue x)) \<le> MaxInt64"
proof (induction vs arbitrary: v)
  case Nil
  have "sint (qvalue v) \<le> MaxInt64" using in_i64_sint unfolding in_i64_def by blast
  then show ?case by simp
next
  case (Cons x xs)
  have nn: "0 \<le> (\<Sum>x\<leftarrow>xs. sint (qvalue x))"
    using Cons.prems by (intro sum_list_nonneg) (auto simp: quantity_ok_def)
  show ?case
  proof (cases "units_clash v x \<or> MaxInt64 < sint (qvalue v) + sint (qvalue x)")
    case True
    then have "\<not> (pairwise (\<lambda>x y. \<not> units_clash x y) (set (v # x # xs))
       \<and> sint (qvalue v) + (\<Sum>x\<leftarrow>x # xs. sint (qvalue x)) \<le> MaxInt64)"
      using nn unfolding compatible_Cons by auto
    moreover have "\<exists>e. Quantity_Add v x = Inl e"
      using True Cons.prems by (auto simp: Quantity_Add_cases)
    ultimately show ?thesis by auto
  next
    case False
    define w where "w = \<lparr>qvalue = qvalue v + qvalue x, unit = joint_unit v x\<rparr>"
    have w: "Quantity_Add v x = Inr w"
      using False Cons.prems by (simp add: Quantity_Add_cases w_def)
    have ok: "quantity_ok w" and val: "sint (qvalue w) = sint (qvalue v) + sint (qvalue x)"
      using Cons.prems w by (auto intro: Quantity_Add_ok Quantity_Add_sint)
    have "units_clash w y \<longleftrightarrow> units_clash v y \<or> units_clash x y" for y
      using False unfolding w_def by (intro joint_unit_clash) simp
    then have "pairwise (\<lambda>x y. \<not> units_clash x y) (set (w # xs))
       \<longleftrightarrow> pairwise (\<lambda>x y. \<not> units_clash x y) (set (v # x # xs))"
      using False unfolding compatible_Cons by auto
    with Cons.IH [OF ok] Cons.prems(2) show ?thesis by (simp add: w val add.assoc)
  qed
qed

text \<open>
  \<open>SumQuantities\<close> succeeds exactly when no two values carry different non-empty units and
  the true total fits an int64, and then returns that total.
\<close>
theorem SumQuantities_iff:
  assumes "\<forall>v\<in>set vs. quantity_ok v"
  shows "case SumQuantities vs of
           Inr r \<Rightarrow> pairwise (\<lambda>x y. \<not> units_clash x y) (set vs)
             \<and> (\<Sum>v\<leftarrow>vs. sint (qvalue v)) \<le> MaxInt64
             \<and> sint (RawValue r) = (\<Sum>v\<leftarrow>vs. sint (qvalue v))
         | Inl e \<Rightarrow> \<not> (pairwise (\<lambda>x y. \<not> units_clash x y) (set vs)
             \<and> (\<Sum>v\<leftarrow>vs. sint (qvalue v)) \<le> MaxInt64)"
proof (cases vs)
  case Nil
  then show ?thesis by (simp add: i64_limits RawValue_def ZeroQuantity_def)
next
  case (Cons v rest)
  then have iff: "(\<exists>r. SumQuantities vs = Inr r) \<longleftrightarrow>
      pairwise (\<lambda>x y. \<not> units_clash x y) (set vs) \<and> (\<Sum>v\<leftarrow>vs. sint (qvalue v)) \<le> MaxInt64"
    using assms fold_Quantity_Add_ok_iff [of v rest] by simp
  show ?thesis
  proof (cases "SumQuantities vs")
    case (Inl e)
    with iff show ?thesis by simp
  next
    case (Inr r)
    have "sint (RawValue r) = (\<Sum>v\<leftarrow>vs. sint (qvalue v))"
      using Inr Cons assms quantity_sum.sum_val [of v rest r] by (simp add: RawValue_def)
    with iff Inr show ?thesis by simp
  qed
qed

theorem SumQuantities_iff_witness:
  "case SumQuantities [\<lparr>qvalue = 4, unit = ''''\<rparr>, \<lparr>qvalue = 6, unit = ''pcs''\<rparr>] of
     Inr r \<Rightarrow> sint (RawValue r) = 10 | Inl e \<Rightarrow> False"
  using SumQuantities_iff [of "[\<lparr>qvalue = 4, unit = ''''\<rparr>, \<lparr>qvalue = 6, unit = ''pcs''\<rparr>]"]
  by (auto simp: quantity_ok_def units_clash_def pairwise_def i64_limits split: sum.splits)

text \<open>
  \<open>CanSubtract\<close> predicts \<open>Subtract\<close>, and adding back what was subtracted restores the
  value.
\<close>
theorem Quantity_Subtract_then_Add:
  assumes "quantity_ok a" and "quantity_ok b"
  shows "if CanSubtract a b
         then \<exists>c. Quantity_Subtract a b = Inr c \<and> sint (qvalue c) = sint (qvalue a) - sint (qvalue b)
                 \<and> (\<exists>d. Quantity_Add c b = Inr d \<and> qvalue d = qvalue a)
         else \<exists>e. Quantity_Subtract a b = Inl e"
proof (cases "CanSubtract a b")
  case True
  define c where "c = \<lparr>qvalue = qvalue a - qvalue b, unit = joint_unit a b\<rparr>"
  have c: "Quantity_Subtract a b = Inr c"
    using True by (auto simp: CanSubtract_def Quantity_Subtract_def c_def signed_compare split: if_splits)
  have v: "sint (qvalue c) = sint (qvalue a) - sint (qvalue b)" and ok: "quantity_ok c"
    using Quantity_Subtract_ok [OF assms c] by auto
  have nc: "\<not> units_clash c b"
    using True by (auto simp: c_def unit_defs CanSubtract_def split: if_splits)
  have "sint (qvalue a) \<le> MaxInt64" using in_i64_sint unfolding in_i64_def by blast
  then have "\<exists>d. Quantity_Add c b = Inr d \<and> qvalue d = qvalue a"
    using Quantity_Add_cases [OF ok assms(2)] v nc by (simp add: c_def)
  with True c v show ?thesis by auto
next
  case False
  then show ?thesis
    by (auto simp: CanSubtract_def Quantity_Subtract_def signed_compare split: if_splits)
qed

theorem Quantity_Subtract_then_Add_witness:
  "\<exists>c. Quantity_Subtract \<lparr>qvalue = 9, unit = ''''\<rparr> \<lparr>qvalue = 4, unit = ''kg''\<rparr> = Inr c \<and> sint (qvalue c) = 5"
  using Quantity_Subtract_then_Add [of "\<lparr>qvalue = 9, unit = ''''\<rparr>" "\<lparr>qvalue = 4, unit = ''kg''\<rparr>"]
  by (auto simp: quantity_ok_def CanSubtract_def units_clash_def signed_compare)

text \<open>
  \<open>Multiply\<close> has no overflow check: on a non-negative factor it succeeds with the product
  modulo 2^64, which is the true product when that fits, and two positive operands can give a
  negative quantity.
\<close>
theorem Quantity_Multiply_wraps:
  "(case Quantity_Multiply q f of
      Inl e \<Rightarrow> sint f < 0 \<and> e = ErrNegativeQuantity
    | Inr r \<Rightarrow> 0 \<le> sint f \<and> sint (qvalue r) = wrap64 (sint (qvalue q) * sint f) \<and> unit r = unit q)
   \<and> (\<exists>q f r. quantity_ok q \<and> 0 < sint f \<and> Quantity_Multiply q f = Inr r \<and> \<not> quantity_ok r)"
proof
  have "quantity_ok \<lparr>qvalue = 2 ^ 62, unit = ''''\<rparr> \<and> 0 < sint (2 :: i64)
     \<and> Quantity_Multiply \<lparr>qvalue = 2 ^ 62, unit = ''''\<rparr> 2 = Inr \<lparr>qvalue = 2 ^ 63, unit = ''''\<rparr>
     \<and> \<not> quantity_ok \<lparr>qvalue = 2 ^ 63, unit = ''''\<rparr>"
    by (simp add: quantity_ok_def Quantity_Multiply_def signed_compare)
  then show "\<exists>q f r. quantity_ok q \<and> 0 < sint f \<and> Quantity_Multiply q f = Inr r \<and> \<not> quantity_ok r"
    by blast
qed (simp add: Quantity_Multiply_def signed_compare sint_times_wrap)

end
