(* ===== verification/GoJson.thy ===== *)
theory GoJson
  imports GoFloat GoStrings
begin

text \<open>
  The part of \<open>encoding/json\<close> the library relies on: structs encoded and decoded through their
  field tags. A document is its parsed tree; a number literal is kept as written, an integer
  (\<open>JInt\<close>) or a literal with a fraction or an exponent (\<open>JDec\<close>, its exact value). A struct type is
  the list of its tagged fields. Encoding writes the fields in order and drops an empty
  \<open>omitempty\<close> field; decoding walks the object's entries in order, gives each to the field whose tag
  is the key, or failing that to one whose tag differs only in the case of ASCII letters, skips
  unknown keys, and leaves a field as it was on \<open>null\<close>. Text is taken to be valid UTF-8.
  \<open>shortest\<close> is the decimal that \<open>strconv\<close> prints for a non-integral float; \<open>shortest_ok\<close> is its
  documented guarantee that the text reads back as the same float.
\<close>

datatype json =
    JNull
  | JBool bool
  | JInt int
  | JDec rat
  | JStr string
  | JArr "json list"
  | JObj "(string \<times> json) list"

record 's jfield =
  tag :: string
  put :: "'s \<Rightarrow> string + json option"
    \<comment> \<open>the encoded field; \<open>None\<close> when it is omitted\<close>
  store :: "json \<Rightarrow> 's \<Rightarrow> string + 's"

definition cannot :: "string \<Rightarrow> string" where
  "cannot t = ''json: cannot unmarshal value into Go value of type '' @ t"

section \<open>Scalars\<close>

fun un_str :: "json \<Rightarrow> string \<Rightarrow> string + string" where
  "un_str JNull old = Inr old"
| "un_str (JStr s) old = Inr s"
| "un_str _ old = Inl (cannot ''string'')"

fun un_int :: "json \<Rightarrow> i64 \<Rightarrow> string + i64" where
  "un_int JNull old = Inr old"
| "un_int (JInt z) old = (if in_i64 z then Inr (word_of_int z) else Inl (cannot ''int''))"
| "un_int _ old = Inl (cannot ''int'')"

definition en_int :: "i64 \<Rightarrow> json" where
  "en_int n = JInt (sint n)"

fun finite_float :: "float64 \<Rightarrow> string + float64" where
  "finite_float (Fin x) = Inr (Fin x)"
| "finite_float _ = Inl (cannot ''float64'')"

fun un_float :: "json \<Rightarrow> float64 \<Rightarrow> string + float64" where
  "un_float JNull old = Inr old"
| "un_float (JInt z) old = finite_float (float_of_int z)"
| "un_float (JDec q) old = finite_float (round64 q)"
| "un_float _ old = Inl (cannot ''float64'')"

fun en_float :: "(rat \<Rightarrow> rat) \<Rightarrow> float64 \<Rightarrow> string + json" where
  "en_float shortest (Fin x) =
     (if of_int \<lfloor>x\<rfloor> = x \<and> \<bar>x\<bar> < 10 ^ 21 then Inr (JInt \<lfloor>x\<rfloor>) else Inr (JDec (shortest x)))"
| "en_float shortest _ = Inl ''json: unsupported value''"

definition is_float64 :: "rat \<Rightarrow> bool" where
  "is_float64 x \<longleftrightarrow> round64 x = Fin x"

definition shortest_ok :: "(rat \<Rightarrow> rat) \<Rightarrow> bool" where
  \<comment> \<open>the printed decimal reads back as the float it was printed from\<close>
  "shortest_ok shortest \<longleftrightarrow> (\<forall>x. is_float64 x \<longrightarrow> round64 (shortest x) = Fin x)"

lemma un_int_en_int [simp]: "un_int (en_int n) old = Inr n"
  by (simp add: en_int_def)

lemma un_float_en_float:
  assumes "shortest_ok shortest" and "is_float64 x"
  shows "\<exists>j. en_float shortest (Fin x) = Inr j \<and> (\<forall>old. un_float j old = Inr (Fin x))"
proof (cases "of_int \<lfloor>x\<rfloor> = x \<and> \<bar>x\<bar> < 10 ^ 21")
  case True
  have "of_int \<lfloor>x\<rfloor> = x" by (rule conjunct1 [OF True])
  then have "float_of_int \<lfloor>x\<rfloor> = Fin x"
    using assms(2) by (simp only: float_of_int_def is_float64_def)
  with True show ?thesis by auto
next
  case False
  with assms show ?thesis by (auto simp: shortest_ok_def)
qed

section \<open>Fields\<close>

definition strf :: "string \<Rightarrow> bool \<Rightarrow> ('s \<Rightarrow> string) \<Rightarrow> ((string \<Rightarrow> string) \<Rightarrow> 's \<Rightarrow> 's) \<Rightarrow> 's jfield" where
  "strf t omitempty get upd =
     \<lparr>tag = t, put = \<lambda>s. Inr (if omitempty \<and> get s = '''' then None else Some (JStr (get s))),
      store = \<lambda>j s. map_sum id (\<lambda>v. upd (\<lambda>_. v) s) (un_str j (get s))\<rparr>"

definition intf :: "string \<Rightarrow> ('s \<Rightarrow> i64) \<Rightarrow> ((i64 \<Rightarrow> i64) \<Rightarrow> 's \<Rightarrow> 's) \<Rightarrow> 's jfield" where
  "intf t get upd =
     \<lparr>tag = t, put = \<lambda>s. Inr (Some (en_int (get s))),
      store = \<lambda>j s. map_sum id (\<lambda>v. upd (\<lambda>_. v) s) (un_int j (get s))\<rparr>"

definition floatf :: "(rat \<Rightarrow> rat) \<Rightarrow> string \<Rightarrow> ('s \<Rightarrow> float64) \<Rightarrow> ((float64 \<Rightarrow> float64) \<Rightarrow> 's \<Rightarrow> 's) \<Rightarrow> 's jfield" where
  "floatf shortest t get upd =
     \<lparr>tag = t, put = \<lambda>s. map_sum id Some (en_float shortest (get s)),
      store = \<lambda>j s. map_sum id (\<lambda>v. upd (\<lambda>_. v) s) (un_float j (get s))\<rparr>"

definition valuef ::
  "string \<Rightarrow> ('v \<Rightarrow> string + json) \<Rightarrow> (json \<Rightarrow> 'v \<Rightarrow> string + 'v) \<Rightarrow> ('s \<Rightarrow> 'v) \<Rightarrow> (('v \<Rightarrow> 'v) \<Rightarrow> 's \<Rightarrow> 's) \<Rightarrow> 's jfield" where
  \<comment> \<open>a nested struct or slice, given its own encoder and decoder\<close>
  "valuef t en un get upd =
     \<lparr>tag = t, put = \<lambda>s. map_sum id Some (en (get s)),
      store = \<lambda>j s. map_sum id (\<lambda>v. upd (\<lambda>_. v) s) (un j (get s))\<rparr>"

definition pointerf ::
  "string \<Rightarrow> ('v \<Rightarrow> json) \<Rightarrow> (json \<Rightarrow> string + 'v) \<Rightarrow> ('s \<Rightarrow> 'v option) \<Rightarrow> (('v option \<Rightarrow> 'v option) \<Rightarrow> 's \<Rightarrow> 's) \<Rightarrow> 's jfield" where
  \<comment> \<open>a pointer with \<open>omitempty\<close>; \<open>null\<close> sets it to nil\<close>
  "pointerf t en un get upd =
     \<lparr>tag = t, put = \<lambda>s. Inr (map_option en (get s)),
      store = \<lambda>j s. if j = JNull then Inr (upd (\<lambda>_. None) s)
                    else map_sum id (\<lambda>v. upd (\<lambda>_. Some v) s) (un j)\<rparr>"

section \<open>Structs and slices\<close>

fun entries :: "'s jfield list \<Rightarrow> 's \<Rightarrow> string + (string \<times> json) list" where
  "entries [] s = Inr []"
| "entries (f # fs) s =
     (case put f s of
        Inl e \<Rightarrow> Inl e
      | Inr None \<Rightarrow> entries fs s
      | Inr (Some j) \<Rightarrow> map_sum id (\<lambda>es. (tag f, j) # es) (entries fs s))"

definition Marshal :: "'s jfield list \<Rightarrow> 's \<Rightarrow> string + json" where
  "Marshal fs s = map_sum id JObj (entries fs s)"

definition field_for :: "'s jfield list \<Rightarrow> string \<Rightarrow> 's jfield option" where
  "field_for fs k =
     (case find (\<lambda>f. tag f = k) fs of
        Some f \<Rightarrow> Some f
      | None \<Rightarrow> find (\<lambda>f. ToLower (tag f) = ToLower k) fs)"

definition store_entry :: "'s jfield list \<Rightarrow> 's \<Rightarrow> string \<times> json \<Rightarrow> string + 's" where
  "store_entry fs s e =
     (case field_for fs (fst e) of None \<Rightarrow> Inr s | Some f \<Rightarrow> store f (snd e) s)"

fun Unmarshal :: "'s jfield list \<Rightarrow> json \<Rightarrow> 's \<Rightarrow> string + 's" where
  \<comment> \<open>a type mismatch is reported after the rest of the document was read, so only the error shows\<close>
  "Unmarshal fs JNull s = Inr s"
| "Unmarshal fs (JObj es) s = fold_res (store_entry fs) s es"
| "Unmarshal fs _ s = Inl (cannot ''struct'')"

fun map_res :: "('a \<Rightarrow> 'e + 'b) \<Rightarrow> 'a list \<Rightarrow> 'e + 'b list" where
  "map_res f [] = Inr []"
| "map_res f (x # xs) =
     (case f x of Inl e \<Rightarrow> Inl e | Inr y \<Rightarrow> map_sum id (\<lambda>ys. y # ys) (map_res f xs))"

fun en_slice :: "('a \<Rightarrow> string + json) \<Rightarrow> 'a list option \<Rightarrow> string + json" where
  \<comment> \<open>a nil slice is encoded as \<open>null\<close>\<close>
  "en_slice en None = Inr JNull"
| "en_slice en (Some xs) = map_sum id JArr (map_res en xs)"

fun un_slice :: "(json \<Rightarrow> string + 'a) \<Rightarrow> json \<Rightarrow> 'a list option \<Rightarrow> string + 'a list option" where
  "un_slice un JNull old = Inr None"
| "un_slice un (JArr js) old = map_sum id Some (map_res un js)"
| "un_slice un _ old = Inl (cannot ''slice'')"

section \<open>Reading back what was written\<close>

definition reads_back :: "('v \<Rightarrow> string + json) \<Rightarrow> (json \<Rightarrow> 'v \<Rightarrow> string + 'v) \<Rightarrow> 'v \<Rightarrow> 'v \<Rightarrow> bool" where
  "reads_back en un v0 v \<longleftrightarrow> (\<exists>j. en v = Inr j \<and> un j v0 = Inr v)"

definition trip :: "'s jfield list \<Rightarrow> 's jfield list \<Rightarrow> 's \<Rightarrow> 's \<Rightarrow> string + 's" where
  \<comment> \<open>encode the fields \<open>gs\<close> of \<open>p\<close> and decode them into \<open>s\<close>, a struct with the fields \<open>fs\<close>\<close>
  "trip fs gs p s = (case entries gs p of Inl e \<Rightarrow> Inl e | Inr es \<Rightarrow> fold_res (store_entry fs) s es)"

lemma trip_Nil [simp]: "trip fs [] p s = Inr s"
  by (simp add: trip_def)

lemma trip_Cons:
  assumes "put f p = Inr None \<Longrightarrow> s' = s"
    and "\<And>j. put f p = Inr (Some j) \<Longrightarrow> store_entry fs s (tag f, j) = Inr s'"
    and "\<exists>r. put f p = Inr r"
  shows "trip fs (f # gs) p s = trip fs gs p s'"
proof -
  obtain r where r: "put f p = Inr r" using assms(3) by blast
  show ?thesis
  proof (cases r)
    case None
    with r assms(1) show ?thesis by (simp add: trip_def)
  next
    case (Some j)
    with r assms(2) [of j] show ?thesis by (cases "entries gs p") (auto simp: trip_def)
  qed
qed

lemma trip_strf [simp]:
  assumes "field_for fs t = Some (strf t om get upd)" and "upd (\<lambda>_. '''') s = s"
  shows "trip fs (strf t om get upd # gs) p s = trip fs gs p (upd (\<lambda>_. get p) s)"
  by (rule trip_Cons) (use assms in \<open>auto simp: strf_def store_entry_def split: if_splits\<close>)

lemma trip_intf [simp]:
  assumes "field_for fs t = Some (intf t get upd)"
  shows "trip fs (intf t get upd # gs) p s = trip fs gs p (upd (\<lambda>_. get p) s)"
  by (rule trip_Cons) (use assms in \<open>auto simp: intf_def store_entry_def\<close>)

lemma trip_floatf:
  assumes "field_for fs t = Some (floatf shortest t get upd)" and "get p = Fin x" and "shortest_ok shortest"
    and "is_float64 x"
  shows "trip fs (floatf shortest t get upd # gs) p s = trip fs gs p (upd (\<lambda>_. Fin x) s)"
  using un_float_en_float [OF assms(3,4)]
  by (intro trip_Cons) (use assms(1,2) in \<open>auto simp: floatf_def store_entry_def simp del: en_float.simps\<close>)

lemma trip_valuef:
  assumes "field_for fs t = Some (valuef t en un get upd)" and "reads_back en un (get s) (get p)"
  shows "trip fs (valuef t en un get upd # gs) p s = trip fs gs p (upd (\<lambda>_. get p) s)"
  by (rule trip_Cons) (use assms in \<open>auto simp: valuef_def store_entry_def reads_back_def\<close>)

lemma trip_pointerf:
  assumes "field_for fs t = Some (pointerf t en un get upd)" and "upd (\<lambda>_. None) s = s"
    and "\<And>v. en v \<noteq> JNull \<and> un (en v) = Inr v"
  shows "trip fs (pointerf t en un get upd # gs) p s = trip fs gs p (upd (\<lambda>_. get p) s)"
  by (rule trip_Cons) (use assms in \<open>auto simp: pointerf_def store_entry_def\<close>)

lemma trip_Marshal: "trip fs fs p s = Inr p \<Longrightarrow> reads_back (Marshal fs) (Unmarshal fs) s p"
  by (auto simp: trip_def reads_back_def Marshal_def split: sum.splits)

lemma field_for_here [simp]: "tag f = k \<Longrightarrow> field_for (f # fs) k = Some f"
  by (simp add: field_for_def)

lemma field_for_next:
  "tag f \<noteq> k \<Longrightarrow> field_for fs k = Some g \<Longrightarrow> tag g = k \<Longrightarrow> field_for (f # fs) k = Some g"
  unfolding field_for_def
proof (cases "find (\<lambda>f. tag f = k) fs")
  case None
  assume a: "tag f \<noteq> k" "tag g = k"
    "(case find (\<lambda>f. tag f = k) fs of Some f \<Rightarrow> Some f | None \<Rightarrow> find (\<lambda>f. ToLower (tag f) = ToLower k) fs) = Some g"
  with None have "g \<in> set fs" by (auto simp: find_Some_iff)
  with None a(2) have False by (auto simp: find_None_iff)
  then show "(case find (\<lambda>f. tag f = k) (f # fs) of Some f \<Rightarrow> Some f
      | None \<Rightarrow> find (\<lambda>f. ToLower (tag f) = ToLower k) (f # fs)) = Some g" ..
qed simp

lemma tag_simps [simp]:
  "tag (strf t om get1 upd1) = t" "tag (intf t get2 upd2) = t" "tag (floatf sh t get3 upd3) = t"
  "tag (valuef t en un get4 upd4) = t" "tag (pointerf t en' un' get5 upd5) = t"
  by (simp_all add: strf_def intf_def floatf_def valuef_def pointerf_def)

lemma map_res_reads_back:
  assumes "\<And>x. x \<in> set xs \<Longrightarrow> \<exists>j. en x = Inr j \<and> un j = Inr x"
  shows "\<exists>js. map_res en xs = Inr js \<and> map_res un js = Inr xs"
  using assms by (induction xs) fastforce+

lemma slice_reads_back:
  assumes "\<And>x. x \<in> set (case xs of None \<Rightarrow> [] | Some ys \<Rightarrow> ys) \<Longrightarrow> \<exists>j. en x = Inr j \<and> un j = Inr x"
  shows "reads_back (en_slice en) (un_slice un) old xs"
proof (cases xs)
  case None
  then show ?thesis by (simp add: reads_back_def)
next
  case (Some ys)
  then have "\<exists>js. map_res en ys = Inr js \<and> map_res un js = Inr ys" using assms by (intro map_res_reads_back) simp
  with Some show ?thesis by (auto simp: reads_back_def)
qed

text \<open>Keys that no tag answers to are skipped, wherever a publisher adds them.\<close>

lemma store_entry_unknown:
  "(\<And>f. f \<in> set fs \<Longrightarrow> ToLower (tag f) \<noteq> ToLower k) \<Longrightarrow> store_entry fs s (k, j) = Inr s"
proof -
  assume a: "\<And>f. f \<in> set fs \<Longrightarrow> ToLower (tag f) \<noteq> ToLower k"
  then have "find (\<lambda>f. tag f = k) fs = None" "find (\<lambda>f. ToLower (tag f) = ToLower k) fs = None"
    by (auto simp: find_None_iff)
  then show ?thesis by (simp add: store_entry_def field_for_def)
qed

lemma Unmarshal_filter:
  "Unmarshal fs (JObj (filter (\<lambda>e. \<exists>f\<in>set fs. ToLower (tag f) = ToLower (fst e)) es)) s = Unmarshal fs (JObj es) s"
proof (induction es arbitrary: s)
  case (Cons e es)
  show ?case
  proof (cases "\<exists>f\<in>set fs. ToLower (tag f) = ToLower (fst e)")
    case True
    with Cons show ?thesis by (auto split: sum.splits)
  next
    case False
    then have "store_entry fs s e = Inr s" using store_entry_unknown [of fs "fst e" s "snd e"] by auto
    with False Cons show ?thesis by auto
  qed
qed simp

end
