(* ===== verification/DomainJson.thy ===== *)
theory DomainJson
  imports Quantity GoJson
begin

text \<open>
  The JSON methods of \<open>domain/money.go\<close> and \<open>domain/quantity.go\<close>, on parsed documents: an amount is
  written as an object with its float64 value, and read from an object or a plain number; a quantity
  is written as a plain integer when it has no unit.
\<close>

record moneyJSON =
  mjAmount :: float64
  mjCurrency :: string

definition moneyJSON_tags :: "(rat \<Rightarrow> rat) \<Rightarrow> moneyJSON jfield list" where
  "moneyJSON_tags shortest =
    [floatf shortest ''amount'' mjAmount mjAmount_update, strf ''currency'' False mjCurrency mjCurrency_update]"

definition zero_moneyJSON :: moneyJSON where
  "zero_moneyJSON = \<lparr>mjAmount = Fin 0, mjCurrency = ''''\<rparr>"

definition Money_MarshalJSON :: "(rat \<Rightarrow> rat) \<Rightarrow> Money \<Rightarrow> string + json" where
  "Money_MarshalJSON shortest m =
     Marshal (moneyJSON_tags shortest) \<lparr>mjAmount = Money_Amount m, mjCurrency = currency m\<rparr>"

definition Money_UnmarshalJSON :: "(float64 \<Rightarrow> i64) \<Rightarrow> (rat \<Rightarrow> rat) \<Rightarrow> json \<Rightarrow> string + Money" where
  "Money_UnmarshalJSON conv shortest data =
     (case Unmarshal (moneyJSON_tags shortest) data zero_moneyJSON of
        Inl _ \<Rightarrow>
          (case un_float data (Fin 0) of
             Inl err \<Rightarrow> Inl err
           | Inr x \<Rightarrow> Inr (NewMoney conv x DefaultCurrency))
      | Inr mj \<Rightarrow> Inr (NewMoney conv (mjAmount mj) (mjCurrency mj)))"

record quantityJSON =
  qjValue :: i64
  qjUnit :: string

definition quantityJSON_tags :: "quantityJSON jfield list" where
  "quantityJSON_tags =
    [intf ''value'' qjValue qjValue_update, strf ''unit'' True qjUnit qjUnit_update]"

definition zero_quantityJSON :: quantityJSON where
  "zero_quantityJSON = \<lparr>qjValue = 0, qjUnit = ''''\<rparr>"

definition Quantity_MarshalJSON :: "Quantity \<Rightarrow> string + json" where
  "Quantity_MarshalJSON q =
     (if unit q = '''' then Inr (en_int (qvalue q))
      else Marshal quantityJSON_tags \<lparr>qjValue = qvalue q, qjUnit = unit q\<rparr>)"

datatype quantity_json_error = NegativeQuantity quantity_error | BadDocument string

definition Quantity_UnmarshalJSON :: "json \<Rightarrow> quantity_json_error + Quantity" where
  "Quantity_UnmarshalJSON data =
     (case un_int data 0 of
        Inr v \<Rightarrow>
          if v <s 0 then Inl (NegativeQuantity ErrNegativeQuantity) else Inr \<lparr>qvalue = v, unit = ''''\<rparr>
      | Inl _ \<Rightarrow>
          (case Unmarshal quantityJSON_tags data zero_quantityJSON of
             Inl err \<Rightarrow> Inl (BadDocument err)
           | Inr qj \<Rightarrow>
               if qjValue qj <s 0 then Inl (NegativeQuantity ErrNegativeQuantity)
               else Inr \<lparr>qvalue = qjValue qj, unit = qjUnit qj\<rparr>))"

section \<open>Round trips\<close>

lemma moneyJSON_reads_back:
  assumes "shortest_ok shortest" and "mjAmount p = Fin x" and "is_float64 x"
  shows "reads_back (Marshal (moneyJSON_tags shortest)) (Unmarshal (moneyJSON_tags shortest)) zero_moneyJSON p"
  using assms
  by (intro trip_Marshal, cases p) (simp add: moneyJSON_tags_def zero_moneyJSON_def field_for_next trip_floatf)

lemma quantityJSON_reads_back:
  "reads_back (Marshal quantityJSON_tags) (Unmarshal quantityJSON_tags) zero_quantityJSON p"
  by (intro trip_Marshal, cases p) (simp add: quantityJSON_tags_def zero_quantityJSON_def field_for_next)

lemma Money_Amount_is_float64: "Money_Amount m = Fin x \<Longrightarrow> is_float64 x"
  unfolding Money_Amount_def is_float64_def
  by (cases "float_of_i64 (amount m)") (auto intro: round64_idem split: if_splits)

lemma Marshal_object: "Marshal fs p = Inr j \<Longrightarrow> \<exists>es. j = JObj es"
  by (auto simp: Marshal_def map_sum_def split: sum.splits)

text \<open>
  C38. JSON keeps money and quantities: an amount of up to \<open>2^50\<close> cents with a currency is encoded
  without an error and decoded to the same cents and the same currency, although it travels as a
  float64; every non-negative quantity, with or without a unit, is decoded to itself, and an encoded
  negative one is refused.
\<close>
theorem domain_json_roundtrip:
  assumes "shortest_ok shortest" and "\<bar>sint (amount m)\<bar> \<le> 2 ^ 50" and "currency m \<noteq> ''''"
  shows "(\<exists>j. Money_MarshalJSON shortest m = Inr j \<and> Money_UnmarshalJSON conv shortest j = Inr m)
       \<and> (\<exists>j. Quantity_MarshalJSON q = Inr j
            \<and> Quantity_UnmarshalJSON j =
                (if quantity_ok q then Inr q else Inl (NegativeQuantity ErrNegativeQuantity)))"
proof
  obtain x where a: "Money_Amount m = Fin x"
    and near: "\<bar>x * 100 - of_int (sint (amount m))\<bar> \<le> 1 / 8"
    by (rule Money_Amount_near [OF assms(2)])
  obtain j where "Money_MarshalJSON shortest m = Inr j"
    "Unmarshal (moneyJSON_tags shortest) j zero_moneyJSON = Inr \<lparr>mjAmount = Fin x, mjCurrency = currency m\<rparr>"
    using moneyJSON_reads_back [OF assms(1), of "\<lparr>mjAmount = Fin x, mjCurrency = currency m\<rparr>" x]
      Money_Amount_is_float64 [OF a]
    by (auto simp: reads_back_def Money_MarshalJSON_def a)
  moreover have "NewMoney conv (Fin x) (currency m) = m"
    unfolding NewMoney_near [OF near assms(2)] FromCents_def or_default_def using assms(3) by simp
  ultimately show "\<exists>j. Money_MarshalJSON shortest m = Inr j \<and> Money_UnmarshalJSON conv shortest j = Inr m"
    by (auto simp: Money_UnmarshalJSON_def)
next
  have neg: "qvalue q <s 0 \<longleftrightarrow> \<not> quantity_ok q" for q by (auto simp: quantity_ok_def signed_compare)
  show "\<exists>j. Quantity_MarshalJSON q = Inr j
      \<and> Quantity_UnmarshalJSON j = (if quantity_ok q then Inr q else Inl (NegativeQuantity ErrNegativeQuantity))"
  proof (cases "unit q = ''''")
    case True
    then show ?thesis using neg [of q] by (cases q) (simp add: Quantity_MarshalJSON_def Quantity_UnmarshalJSON_def)
  next
    case False
    obtain j where j: "Marshal quantityJSON_tags \<lparr>qjValue = qvalue q, qjUnit = unit q\<rparr> = Inr j"
      "Unmarshal quantityJSON_tags j zero_quantityJSON = Inr \<lparr>qjValue = qvalue q, qjUnit = unit q\<rparr>"
      using quantityJSON_reads_back [of "\<lparr>qjValue = qvalue q, qjUnit = unit q\<rparr>"] unfolding reads_back_def by blast
    from Marshal_object [OF j(1)] obtain es where "j = JObj es" by blast
    with False j show ?thesis
      by (simp add: Quantity_MarshalJSON_def Quantity_UnmarshalJSON_def neg del: Unmarshal.simps)
  qed
qed

theorem domain_json_roundtrip_witness:
  "\<exists>j. Money_MarshalJSON (\<lambda>x. x) \<lparr>amount = 1999, currency = ''USD''\<rparr> = Inr j
     \<and> Money_UnmarshalJSON (\<lambda>_. 0) (\<lambda>x. x) j = Inr \<lparr>amount = 1999, currency = ''USD''\<rparr>"
proof -
  have "shortest_ok (\<lambda>x. x)" by (simp add: shortest_ok_def is_float64_def)
  from domain_json_roundtrip [OF this, of "\<lparr>amount = 1999, currency = ''USD''\<rparr>" "\<lambda>_. 0" ZeroQuantity]
  show ?thesis by simp
qed

end
