(* ===== verification/DomainErrors.thy ===== *)
theory DomainErrors
  imports GoStrings
begin

text \<open>
  \<open>domain/errors.go\<close>: domain errors with machine-readable codes, the constructors, the
  classification through \<open>errors.Is\<close>/\<open>errors.As\<close> and the HTTP status. A Go error is a
  tree: opaque errors, errors that wrap one error (\<open>fmt.Errorf\<close> with \<open>%w\<close>), joined errors and
  domain errors with an optional cause. An id of type \<open>interface{}\<close> is given by the text \<open>%v\<close>
  prints for it.
\<close>

section \<open>Model\<close>

definition CodeNotFound :: string where "CodeNotFound = ''NOT_FOUND''"
definition CodeConflict :: string where "CodeConflict = ''CONFLICT''"
definition CodeValidation :: string where "CodeValidation = ''VALIDATION_ERROR''"
definition CodeConcurrentModification :: string where
  "CodeConcurrentModification = ''CONCURRENT_MODIFICATION''"
definition CodeInsufficientStock :: string where "CodeInsufficientStock = ''INSUFFICIENT_STOCK''"
definition CodeInvalidTransition :: string where "CodeInvalidTransition = ''INVALID_STATE_TRANSITION''"
definition CodeUnauthorized :: string where "CodeUnauthorized = ''UNAUTHORIZED''"
definition CodeForbidden :: string where "CodeForbidden = ''FORBIDDEN''"
definition CodeInternalError :: string where "CodeInternalError = ''INTERNAL_ERROR''"

lemmas code_defs =
  CodeNotFound_def CodeConflict_def CodeValidation_def CodeConcurrentModification_def
  CodeInsufficientStock_def CodeInvalidTransition_def CodeUnauthorized_def CodeForbidden_def
  CodeInternalError_def

datatype detail = DetailText string | DetailInt int
datatype details = NoDetails | DetailMap "(string \<times> detail) list" | OtherDetails string

datatype 'e DomainError =
  DomainError (Code: string) (Message: string) (Details: details) (Err: "'e option")

datatype goerr =
    Opaque string
  | Wrapped string goerr
  | Joined string "goerr list"
  | DomErr "goerr DomainError"

fun unwrap :: "goerr \<Rightarrow> goerr list" where
  \<comment> \<open>\<open>Unwrap() error\<close> (at most one) or \<open>Unwrap() []error\<close>\<close>
  "unwrap (Opaque s) = []"
| "unwrap (Wrapped s e) = [e]"
| "unwrap (Joined s es) = es"
| "unwrap (DomErr d) = (case Err d of None \<Rightarrow> [] | Some e \<Rightarrow> [e])"

lemma unwrap_size [termination_simp]: "x \<in> set (unwrap e) \<Longrightarrow> size x < size e"
proof (induction e)
  case (Joined s es)
  then show ?case by (simp add: less_Suc_eq_le size_list_estimation')
next
  case (DomErr d)
  then show ?case by (cases d) (auto split: option.splits)
qed auto

fun Error :: "goerr \<Rightarrow> string" where
  "Error (Opaque s) = s"
| "Error (Wrapped s e) = s"
| "Error (Joined s es) = s"
| "Error (DomErr (DomainError c m det None)) = c @ '': '' @ m"
| "Error (DomErr (DomainError c m det (Some e))) = c @ '': '' @ m @ '': '' @ Error e"

definition WithDetails :: "goerr DomainError \<Rightarrow> details \<Rightarrow> goerr DomainError" where
  "WithDetails e det = DomainError (Code e) (Message e) det (Err e)"

definition WithError :: "goerr DomainError \<Rightarrow> goerr option \<Rightarrow> goerr DomainError" where
  "WithError e err = DomainError (Code e) (Message e) (Details e) err"

definition sentinel :: "string \<Rightarrow> string \<Rightarrow> goerr DomainError" where
  "sentinel c m = DomainError c m NoDetails None"

definition ErrNotFound :: "goerr DomainError" where
  "ErrNotFound = sentinel CodeNotFound ''resource not found''"
definition ErrConflict :: "goerr DomainError" where
  "ErrConflict = sentinel CodeConflict ''conflict with existing data''"
definition ErrValidation :: "goerr DomainError" where
  "ErrValidation = sentinel CodeValidation ''validation failed''"
definition ErrConcurrentModification :: "goerr DomainError" where
  "ErrConcurrentModification = sentinel CodeConcurrentModification ''concurrent modification detected''"
definition ErrInsufficientStock :: "goerr DomainError" where
  "ErrInsufficientStock = sentinel CodeInsufficientStock ''insufficient stock''"
definition ErrInvalidTransition :: "goerr DomainError" where
  "ErrInvalidTransition = sentinel CodeInvalidTransition ''invalid state transition''"
definition ErrUnauthorized :: "goerr DomainError" where
  "ErrUnauthorized = sentinel CodeUnauthorized ''unauthorized access''"
definition ErrForbidden :: "goerr DomainError" where
  "ErrForbidden = sentinel CodeForbidden ''permission denied''"
definition ErrInternal :: "goerr DomainError" where
  "ErrInternal = sentinel CodeInternalError ''internal error''"

lemmas sentinel_defs =
  sentinel_def ErrNotFound_def ErrConflict_def ErrValidation_def ErrConcurrentModification_def
  ErrInsufficientStock_def ErrInvalidTransition_def ErrUnauthorized_def ErrForbidden_def
  ErrInternal_def

definition DomainError_Is :: "goerr DomainError \<Rightarrow> goerr DomainError \<Rightarrow> bool" where
  "DomainError_Is e t \<longleftrightarrow> Code e = Code t"

function errors_Is :: "goerr \<Rightarrow> goerr DomainError \<Rightarrow> bool" where
  \<comment> \<open>\<open>errors.Is\<close> with a domain error as the target\<close>
  "errors_Is err target \<longleftrightarrow>
     (case err of DomErr d \<Rightarrow> DomainError_Is d target | _ \<Rightarrow> False)
     \<or> (\<exists>e\<in>set (unwrap err). errors_Is e target)"
  by pat_completeness auto
termination by (relation "measure (size \<circ> fst)") (auto simp: unwrap_size)

fun first_some :: "'a option list \<Rightarrow> 'a option" where
  "first_some [] = None"
| "first_some (None # xs) = first_some xs"
| "first_some (Some x # xs) = Some x"

function errors_As :: "goerr \<Rightarrow> goerr DomainError option" where
  \<comment> \<open>\<open>errors.As\<close> with a \<open>*DomainError\<close> target: depth first, the outermost match\<close>
  "errors_As err = (case err of DomErr d \<Rightarrow> Some d | _ \<Rightarrow> first_some (map errors_As (unwrap err)))"
  by pat_completeness auto
termination
  by (relation "measure size") (auto simp: less_Suc_eq_le size_list_estimation')

declare errors_Is.simps [simp del] errors_As.simps [simp del]

definition NewNotFoundError :: "string \<Rightarrow> string \<Rightarrow> goerr DomainError" where
  "NewNotFoundError entity i =
     DomainError CodeNotFound (entity @ '' with ID '' @ [CHR 0x27] @ i @ [CHR 0x27] @ '' not found'') NoDetails None"

definition NewConflictError :: "string \<Rightarrow> goerr DomainError" where
  "NewConflictError message = DomainError CodeConflict message NoDetails None"

definition NewDuplicateError :: "string \<Rightarrow> string \<Rightarrow> string \<Rightarrow> goerr DomainError" where
  "NewDuplicateError entity field v =
     DomainError CodeConflict
       (entity @ '' with '' @ field @ '' '' @ [CHR 0x27] @ v @ [CHR 0x27] @ '' already exists'') NoDetails None"

definition NewValidationError :: "string \<Rightarrow> details \<Rightarrow> goerr DomainError" where
  "NewValidationError message det = DomainError CodeValidation message det None"

definition NewFieldValidationError :: "string \<Rightarrow> string \<Rightarrow> goerr DomainError" where
  "NewFieldValidationError field message =
     DomainError CodeValidation
       (''validation failed for field '' @ [CHR 0x27] @ field @ [CHR 0x27] @ '': '' @ message)
       (DetailMap [(field, DetailText message)]) None"

definition NewConcurrentModificationError ::
  "string \<Rightarrow> string \<Rightarrow> i64 \<Rightarrow> i64 \<Rightarrow> goerr DomainError" where
  "NewConcurrentModificationError entity i expectedVersion actualVersion =
     DomainError CodeConcurrentModification
       (entity @ '' with ID '' @ [CHR 0x27] @ i @ [CHR 0x27]
          @ '' was modified by another process (expected version '' @ show_int (sint expectedVersion)
          @ '', found '' @ show_int (sint actualVersion) @ '')'')
       (DetailMap [(''expected_version'', DetailInt (sint expectedVersion)),
                   (''actual_version'', DetailInt (sint actualVersion))]) None"

definition NewInsufficientStockError :: "string \<Rightarrow> i64 \<Rightarrow> i64 \<Rightarrow> goerr DomainError" where
  "NewInsufficientStockError productID requested available =
     DomainError CodeInsufficientStock
       (''insufficient stock for product '' @ [CHR 0x27] @ productID @ [CHR 0x27] @ '': requested ''
          @ show_int (sint requested) @ '', available '' @ show_int (sint available))
       (DetailMap [(''product_id'', DetailText productID),
                   (''requested'', DetailInt (sint requested)),
                   (''available'', DetailInt (sint available))]) None"

definition NewInvalidTransitionError :: "string \<Rightarrow> string \<Rightarrow> goerr DomainError" where
  "NewInvalidTransitionError src dst =
     DomainError CodeInvalidTransition
       (''invalid state transition from '' @ [CHR 0x27] @ src @ [CHR 0x27] @ '' to '' @ [CHR 0x27] @ dst @ [CHR 0x27])
       (DetailMap [(''from'', DetailText src), (''to'', DetailText dst)]) None"

definition NewUnauthorizedError :: "string \<Rightarrow> goerr DomainError" where
  "NewUnauthorizedError message =
     DomainError CodeUnauthorized
       (if message = '''' then ''authentication required'' else message) NoDetails None"

definition NewForbiddenError :: "string \<Rightarrow> goerr DomainError" where
  "NewForbiddenError message =
     DomainError CodeForbidden
       (if message = '''' then ''you do not have permission to perform this action'' else message)
       NoDetails None"

definition NewInternalError :: "string \<Rightarrow> goerr option \<Rightarrow> goerr DomainError" where
  "NewInternalError message err = DomainError CodeInternalError message NoDetails err"

definition is_sentinel :: "goerr option \<Rightarrow> goerr DomainError \<Rightarrow> bool" where
  \<comment> \<open>\<open>errors.Is(err, sentinel)\<close>, false on a nil error\<close>
  "is_sentinel err s = (case err of None \<Rightarrow> False | Some e \<Rightarrow> errors_Is e s)"

definition IsNotFoundError :: "goerr option \<Rightarrow> bool" where
  "IsNotFoundError err = is_sentinel err ErrNotFound"
definition IsConflictError :: "goerr option \<Rightarrow> bool" where
  "IsConflictError err = is_sentinel err ErrConflict"
definition IsValidationError :: "goerr option \<Rightarrow> bool" where
  "IsValidationError err = is_sentinel err ErrValidation"
definition IsConcurrentModificationError :: "goerr option \<Rightarrow> bool" where
  "IsConcurrentModificationError err = is_sentinel err ErrConcurrentModification"
definition IsInsufficientStockError :: "goerr option \<Rightarrow> bool" where
  "IsInsufficientStockError err = is_sentinel err ErrInsufficientStock"
definition IsInvalidTransitionError :: "goerr option \<Rightarrow> bool" where
  "IsInvalidTransitionError err = is_sentinel err ErrInvalidTransition"
definition IsUnauthorizedError :: "goerr option \<Rightarrow> bool" where
  "IsUnauthorizedError err = is_sentinel err ErrUnauthorized"
definition IsForbiddenError :: "goerr option \<Rightarrow> bool" where
  "IsForbiddenError err = is_sentinel err ErrForbidden"
definition IsInternalError :: "goerr option \<Rightarrow> bool" where
  "IsInternalError err = is_sentinel err ErrInternal"

lemmas is_error_defs =
  is_sentinel_def IsNotFoundError_def IsConflictError_def IsValidationError_def
  IsConcurrentModificationError_def IsInsufficientStockError_def IsInvalidTransitionError_def
  IsUnauthorizedError_def IsForbiddenError_def IsInternalError_def

definition GetDomainError :: "goerr option \<Rightarrow> goerr DomainError option" where
  "GetDomainError err = (case err of None \<Rightarrow> None | Some e \<Rightarrow> errors_As e)"

definition GetErrorCode :: "goerr option \<Rightarrow> string" where
  "GetErrorCode err = (case GetDomainError err of Some d \<Rightarrow> Code d | None \<Rightarrow> '''')"

definition GetHTTPStatus :: "goerr option \<Rightarrow> nat" where
  "GetHTTPStatus err =
     (let c = GetErrorCode err
      in if c = CodeNotFound then 404
         else if c = CodeConflict \<or> c = CodeConcurrentModification then 409
         else if c = CodeValidation \<or> c = CodeInsufficientStock \<or> c = CodeInvalidTransition then 422
         else if c = CodeUnauthorized then 401
         else if c = CodeForbidden then 403
         else 500)"

definition WrapError :: "string \<Rightarrow> goerr option \<Rightarrow> goerr DomainError option" where
  "WrapError message err =
     (case err of None \<Rightarrow> None
      | Some e \<Rightarrow>
          (case GetDomainError err of
             Some d \<Rightarrow> Some (DomainError (Code d) message (Details d) (Some e))
           | None \<Rightarrow> Some (NewInternalError message (Some e))))"

section \<open>What an error tree holds\<close>

inductive holds :: "goerr \<Rightarrow> goerr DomainError \<Rightarrow> bool" where
  here: "holds (DomErr d) d"
| below: "e \<in> set (unwrap err) \<Longrightarrow> holds e d \<Longrightarrow> holds err d"

inductive_simps holds_Opaque: "holds (Opaque s) d"
inductive_simps holds_Domain: "holds (DomErr x) d"

lemma errors_Is_holds: "errors_Is err t \<longleftrightarrow> (\<exists>d. holds err d \<and> Code d = Code t)"
proof
  show "errors_Is err t \<Longrightarrow> \<exists>d. holds err d \<and> Code d = Code t"
  proof (induction err t rule: errors_Is.induct)
    case (1 err t)
    from 1(2) consider d where "err = DomErr d" "Code d = Code t"
      | e where "e \<in> set (unwrap err)" "errors_Is e t"
      by (subst (asm) errors_Is.simps) (auto simp: DomainError_Is_def split: goerr.splits)
    then show ?case
    proof cases
      case 1
      then show ?thesis by (blast intro: here)
    next
      case 2
      with 1(1) show ?thesis by (blast intro: below)
    qed
  qed
next
  assume "\<exists>d. holds err d \<and> Code d = Code t"
  then obtain d where "holds err d" "Code d = Code t" by blast
  then show "errors_Is err t"
  proof (induction rule: holds.induct)
    case (here d)
    then show ?case by (subst errors_Is.simps) (simp add: DomainError_Is_def)
  next
    case (below e err d)
    then show ?case by (subst errors_Is.simps) blast
  qed
qed

lemma first_some_None: "first_some xs = None \<longleftrightarrow> set xs \<subseteq> {None}"
  by (induction xs rule: first_some.induct) auto

lemma first_some_in: "first_some xs = Some x \<Longrightarrow> Some x \<in> set xs"
  by (induction xs rule: first_some.induct) auto

lemma errors_As_Domain [simp]: "errors_As (DomErr d) = Some d"
  by (subst errors_As.simps) simp

lemma errors_As_holds: "errors_As err = Some d \<Longrightarrow> holds err d"
proof (induction err arbitrary: d rule: errors_As.induct)
  case (1 err)
  show ?case
  proof (cases "\<exists>x. err = DomErr x")
    case True
    with "1.prems" show ?thesis by (auto simp: holds_Domain)
  next
    case False
    with "1.prems" have "Some d \<in> set (map errors_As (unwrap err))"
      by (subst (asm) errors_As.simps) (auto split: goerr.splits dest: first_some_in)
    with False "1.IH" show ?thesis by (cases err) (auto intro: below)
  qed
qed

lemma errors_As_total: "holds err d \<Longrightarrow> errors_As err \<noteq> None"
proof (induction rule: holds.induct)
  case (here d)
  then show ?case by simp
next
  case (below e err d)
  then have "Some (the (errors_As e)) \<in> set (map errors_As (unwrap err))" by force
  then have "first_some (map errors_As (unwrap err)) \<noteq> None"
    unfolding first_some_None by blast
  then show ?case by (subst errors_As.simps) (auto split: goerr.splits)
qed

lemma holds_Domain_iff:
  "holds (DomErr x) d \<longleftrightarrow> d = x \<or> (\<exists>e. Err x = Some e \<and> holds e d)"
  by (subst holds_Domain) (auto split: option.splits)

lemma is_sentinel_iff:
  "is_sentinel err s \<longleftrightarrow> (\<exists>e d. err = Some e \<and> holds e d \<and> Code d = Code s)"
  by (auto simp: is_sentinel_def errors_Is_holds split: option.splits)

text \<open>
  The status a client sees is a classification the code can rely on: a status other than 500
  comes from a domain error inside the tree for which the matching \<open>Is\<close> function answers true,
  and a tree without any domain error is always a 500.
\<close>
theorem GetHTTPStatus_sound:
  "let s = GetHTTPStatus err in
     (s = 404 \<longrightarrow> IsNotFoundError err)
   \<and> (s = 409 \<longrightarrow> IsConflictError err \<or> IsConcurrentModificationError err)
   \<and> (s = 422 \<longrightarrow> IsValidationError err \<or> IsInsufficientStockError err \<or> IsInvalidTransitionError err)
   \<and> (s = 401 \<longrightarrow> IsUnauthorizedError err)
   \<and> (s = 403 \<longrightarrow> IsForbiddenError err)
   \<and> s \<in> {401, 403, 404, 409, 422, 500}
   \<and> ((\<nexists>e d. err = Some e \<and> holds e d) \<longrightarrow> s = 500)"
proof (cases "GetDomainError err")
  case None
  then have "GetErrorCode err = ''''" by (simp add: GetErrorCode_def)
  then have "GetHTTPStatus err = 500" by (simp add: GetHTTPStatus_def code_defs)
  then show ?thesis by simp
next
  case (Some d)
  then obtain e where e: "err = Some e" "holds e d"
    by (auto simp: GetDomainError_def errors_As_holds split: option.splits)
  then have sen: "is_sentinel err s" if "Code s = Code d" for s
    using that by (auto simp: is_sentinel_iff)
  have "GetErrorCode err = Code d" by (simp add: GetErrorCode_def Some)
  then show ?thesis
    using e sen [of ErrNotFound] sen [of ErrConflict] sen [of ErrConcurrentModification]
      sen [of ErrValidation] sen [of ErrInsufficientStock] sen [of ErrInvalidTransition]
      sen [of ErrUnauthorized] sen [of ErrForbidden]
    by (auto simp: GetHTTPStatus_def Let_def sentinel_defs IsNotFoundError_def IsConflictError_def
        IsValidationError_def IsConcurrentModificationError_def IsInsufficientStockError_def
        IsInvalidTransitionError_def IsUnauthorizedError_def IsForbiddenError_def split: if_splits)
qed

theorem GetHTTPStatus_sound_witness:
  "GetHTTPStatus (Some (Wrapped ''load'' (DomErr (NewNotFoundError ''order'' ''7'')))) = 404
   \<and> IsNotFoundError (Some (Wrapped ''load'' (DomErr (NewNotFoundError ''order'' ''7''))))"
proof -
  let ?e = "Some (Wrapped ''load'' (DomErr (NewNotFoundError ''order'' ''7'')))"
  have "GetHTTPStatus ?e = 404"
    by (simp add: GetHTTPStatus_def GetErrorCode_def GetDomainError_def errors_As.simps
        NewNotFoundError_def)
  with GetHTTPStatus_sound [of ?e] show ?thesis by (simp add: Let_def)
qed

text \<open>
  \<open>WrapError\<close> adds context without changing what the error is: nil stays nil, the code, the
  status and every classification are those of the wrapped error, and only an error tree without
  a domain error becomes an internal error.
\<close>
theorem WrapError_preserves:
  "case WrapError message err of
     None \<Rightarrow> err = None
   | Some w \<Rightarrow> err \<noteq> None \<and> Err w = err \<and> Message w = message
       \<and> GetHTTPStatus (Some (DomErr w)) = GetHTTPStatus err
       \<and> GetErrorCode (Some (DomErr w)) =
           (if GetDomainError err = None then CodeInternalError else GetErrorCode err)
       \<and> (\<forall>s. is_sentinel (Some (DomErr w)) s \<longleftrightarrow>
                is_sentinel err s \<or> (GetDomainError err = None \<and> Code s = CodeInternalError))"
proof (cases err)
  case None
  then show ?thesis by (simp add: WrapError_def)
next
  case (Some e)
  show ?thesis
  proof (cases "GetDomainError err")
    case None
    with Some show ?thesis
      by (auto simp: WrapError_def NewInternalError_def GetHTTPStatus_def GetErrorCode_def
          GetDomainError_def is_sentinel_iff holds_Domain_iff code_defs)
  next
    case (Some d)
    with \<open>err = Some e\<close> have "holds e d" by (simp add: GetDomainError_def errors_As_holds)
    with Some \<open>err = Some e\<close> show ?thesis
      by (auto simp: WrapError_def GetHTTPStatus_def GetErrorCode_def
          GetDomainError_def is_sentinel_iff holds_Domain_iff)
  qed
qed

text \<open>
  Wrapping a domain error in \<open>NewInternalError\<close> splits the two classifications: the status is
  500 while the \<open>Is\<close> functions still see the code of the cause.
\<close>
theorem NewInternalError_hides_status:
  "GetHTTPStatus (Some (DomErr (NewInternalError m err))) = 500
   \<and> (is_sentinel (Some (DomErr (NewInternalError m err))) s \<longleftrightarrow>
        Code s = CodeInternalError \<or> is_sentinel err s)"
  by (auto simp: NewInternalError_def GetHTTPStatus_def GetErrorCode_def GetDomainError_def
      is_sentinel_iff holds_Domain_iff code_defs)

text \<open>
  Every constructor makes an error of its own status that exactly its own \<open>Is\<close> function
  recognises (as long as it wraps no other error).
\<close>
theorem constructor_status:
  "map (\<lambda>d. (GetHTTPStatus (Some (DomErr d)), filter (\<lambda>s. is_sentinel (Some (DomErr d)) s)
          [ErrNotFound, ErrConflict, ErrValidation, ErrConcurrentModification, ErrInsufficientStock,
           ErrInvalidTransition, ErrUnauthorized, ErrForbidden, ErrInternal]))
     [NewNotFoundError a b, NewConflictError a, NewDuplicateError a b c, NewValidationError a det,
      NewFieldValidationError a b, NewConcurrentModificationError a b v w,
      NewInsufficientStockError a v w, NewInvalidTransitionError a b, NewUnauthorizedError a,
      NewForbiddenError a, NewInternalError a None] =
   [(404, [ErrNotFound]), (409, [ErrConflict]), (409, [ErrConflict]), (422, [ErrValidation]),
    (422, [ErrValidation]), (409, [ErrConcurrentModification]), (422, [ErrInsufficientStock]),
    (422, [ErrInvalidTransition]), (401, [ErrUnauthorized]), (403, [ErrForbidden]),
    (500, [ErrInternal])]"
proof -
  have sen: "is_sentinel (Some (DomErr d)) s \<longleftrightarrow> Code d = Code s" if "Err d = None" for d s
    using that by (auto simp: is_sentinel_iff holds_Domain_iff)
  show ?thesis
    by (simp add: sen GetHTTPStatus_def GetErrorCode_def GetDomainError_def NewNotFoundError_def NewConflictError_def NewDuplicateError_def
        NewValidationError_def NewFieldValidationError_def NewConcurrentModificationError_def
        NewInsufficientStockError_def NewInvalidTransitionError_def NewUnauthorizedError_def
        NewForbiddenError_def NewInternalError_def sentinel_defs code_defs)
qed

end
