(* ===== verification/ResilienceCore.thy ===== *)
theory ResilienceCore
  imports GoFloat
begin

text \<open>
  What the files of \<open>resilience/\<close> share: the error values they return, the environment they
  read (clock, context, timers, random numbers) and the contract every protection wrapper
  (circuit breaker, bulkhead, retry, executor) keeps towards the protected function. A protected
  function is a state transformer on the caller's world that returns an optional error; log calls
  have no effect on any result and are left out.
\<close>

datatype rerror =
    ErrCircuitOpen
  | ErrTooManyRequests
  | ErrBulkheadFull
  | ErrBulkheadTimeout
  | CtxErr string
  | FnErr string

type_synonym 'w action = "'w \<Rightarrow> rerror option \<times> 'w"

datatype wait_outcome = Waited | Cancelled string
  \<comment> \<open>which case of \<open>select { case <-ctx.Done(): ...; case <-timer: ... }\<close> was taken\<close>

record 'w env =
  Now :: "'w \<Rightarrow> Time"
  CtxDone :: "'w \<Rightarrow> string option"
    \<comment> \<open>\<open>ctx.Err()\<close> once \<open>ctx.Done()\<close> is closed\<close>
  Sleep :: "Duration \<Rightarrow> 'w \<Rightarrow> wait_outcome \<times> 'w"
  RandFloat :: "'w \<Rightarrow> float64 \<times> 'w"
    \<comment> \<open>\<open>rand.Float64\<close>\<close>

definition never_done :: "'w env \<Rightarrow> bool" where
  \<comment> \<open>\<open>context.Background()\<close>: its \<open>Done\<close> channel is nil, so no \<open>select\<close> takes that case\<close>
  "never_done env \<longleftrightarrow> (\<forall>w. CtxDone env w = None) \<and> (\<forall>d w. fst (Sleep env d w) = Waited)"

section \<open>Interface: a protection wrapper\<close>

text \<open>
  \<open>exec fn s\<close> runs the action \<open>fn\<close> under protection. A nil result means that the last run of
  the action returned nil and left the world as it is now; an error is either the action's or one
  of the wrapper's own.
\<close>

locale protection =
  fixes exec :: "'w action \<Rightarrow> 's \<Rightarrow> rerror option \<times> 's"
    and world :: "'s \<Rightarrow> 'w"
    and own :: "rerror set"
  assumes exec_nil: "exec fn s = (None, s') \<Longrightarrow> \<exists>w. fn w = (None, world s')"
    and exec_error: "exec fn s = (Some e, s') \<Longrightarrow> e \<in> own \<or> (\<exists>w w'. fn w = (Some e, w'))"
begin

lemma never_hides_failure:
  assumes "\<And>w. fst (fn w) \<noteq> None"
  shows "fst (exec fn s) \<noteq> None"
proof
  assume "fst (exec fn s) = None"
  then have "exec fn s = (None, snd (exec fn s))" by (simp add: prod_eq_iff)
  then obtain w where "fn w = (None, world (snd (exec fn s)))" by (blast dest: exec_nil)
  with assms [of w] show False by simp
qed

lemma only_known_errors:
  assumes "\<And>w e w'. fn w = (Some e, w') \<Longrightarrow> e \<in> E"
  shows "set_option (fst (exec fn s)) \<subseteq> own \<union> E"
proof
  fix e
  assume "e \<in> set_option (fst (exec fn s))"
  then have "exec fn s = (Some e, snd (exec fn s))" by (auto simp: prod_eq_iff)
  from exec_error [OF this] assms show "e \<in> own \<union> E" by blast
qed

end

text \<open>Wrapping a wrapper is a wrapper: the contract composes.\<close>

lemma protection_compose:
  assumes "protection outer wo oo" and "protection inner wi oi"
  shows "protection (\<lambda>fn. outer (inner fn)) (\<lambda>s. wi (wo s)) (oo \<union> oi)"
proof
  fix fn s s'
  assume "outer (inner fn) s = (None, s')"
  then obtain w where "inner fn w = (None, wo s')"
    using protection.exec_nil [OF assms(1)] by blast
  then show "\<exists>w. fn w = (None, wi (wo s'))"
    by (rule protection.exec_nil [OF assms(2)])
next
  fix fn s e s'
  assume "outer (inner fn) s = (Some e, s')"
  then consider "e \<in> oo" | w w' where "inner fn w = (Some e, w')"
    using protection.exec_error [OF assms(1)] by blast
  then show "e \<in> oo \<union> oi \<or> (\<exists>w w'. fn w = (Some e, w'))"
    using protection.exec_error [OF assms(2)] by cases blast+
qed

lemma protection_id: "protection (\<lambda>fn. fn) (\<lambda>s. s) {}"
  by unfold_locales auto

end
