(* ===== verification/CircuitBreaker.thy ===== *)
theory CircuitBreaker
  imports ResilienceCore
begin

text \<open>
  \<open>resilience/circuit_breaker.go\<close>: the breaker as a record, its two mutex-protected steps
  \<open>beforeRequest\<close> and \<open>afterRequest\<close> as functions of the clock, \<open>Execute\<close> as their
  composition, and a step relation in which any number of calls is in flight at once. Counters are
  unbounded integers (a 64-bit counter of failures does not wrap in the life of a process).
\<close>

section \<open>Model\<close>

datatype CircuitState = StateClosed | StateOpen | StateHalfOpen

record CircuitBreakerConfig =
  cb_Name :: string
  MaxFailures :: int
  Timeout :: Duration
  ResetTimeout :: Duration

record CircuitBreaker =
  cbconfig :: CircuitBreakerConfig
  state :: CircuitState
  failures :: int
  successes :: int
  lastFailTime :: Time
  lastAttempt :: Time

definition DefaultCircuitBreakerConfig :: "string \<Rightarrow> CircuitBreakerConfig" where
  "DefaultCircuitBreakerConfig name =
     \<lparr>cb_Name = name, MaxFailures = 5, Timeout = 30 * Second, ResetTimeout = 10 * Second\<rparr>"

definition NewCircuitBreaker :: "CircuitBreakerConfig \<Rightarrow> CircuitBreaker" where
  "NewCircuitBreaker config =
     (let config = (if MaxFailures config \<le> 0 then config\<lparr>MaxFailures := 5\<rparr> else config);
          config = (if Timeout config \<le> 0 then config\<lparr>Timeout := 30 * Second\<rparr> else config);
          config = (if ResetTimeout config \<le> 0 then config\<lparr>ResetTimeout := 10 * Second\<rparr> else config)
      in \<lparr>cbconfig = config, state = StateClosed, failures = 0, successes = 0,
          lastFailTime = zeroTime, lastAttempt = zeroTime\<rparr>)"

definition beforeRequest :: "Time \<Rightarrow> CircuitBreaker \<Rightarrow> rerror option \<times> CircuitBreaker" where
  "beforeRequest now cb =
     (case state cb of
        StateClosed \<Rightarrow> (None, cb)
      | StateOpen \<Rightarrow>
          if SubT now (lastFailTime cb) > Timeout (cbconfig cb)
          then (None, cb\<lparr>state := StateHalfOpen, successes := 0, lastAttempt := now\<rparr>)
          else (Some ErrCircuitOpen, cb)
      | StateHalfOpen \<Rightarrow>
          if SubT now (lastAttempt cb) < Second then (Some ErrTooManyRequests, cb)
          else (None, cb\<lparr>lastAttempt := now\<rparr>))"

definition onFailure :: "Time \<Rightarrow> CircuitBreaker \<Rightarrow> CircuitBreaker" where
  "onFailure now cb =
     (let cb = cb\<lparr>failures := failures cb + 1, lastFailTime := now\<rparr>
      in case state cb of
           StateClosed \<Rightarrow>
             if failures cb \<ge> MaxFailures (cbconfig cb) then cb\<lparr>state := StateOpen\<rparr> else cb
         | StateHalfOpen \<Rightarrow> cb\<lparr>state := StateOpen\<rparr>
         | StateOpen \<Rightarrow> cb)"

definition onSuccess :: "CircuitBreaker \<Rightarrow> CircuitBreaker" where
  "onSuccess cb =
     (case state cb of
        StateClosed \<Rightarrow> cb\<lparr>failures := 0\<rparr>
      | StateHalfOpen \<Rightarrow>
          (let cb = cb\<lparr>successes := successes cb + 1\<rparr>
           in if successes cb \<ge> 3 then cb\<lparr>state := StateClosed, failures := 0\<rparr> else cb)
      | StateOpen \<Rightarrow> cb)"

definition afterRequest :: "Time \<Rightarrow> rerror option \<Rightarrow> CircuitBreaker \<Rightarrow> CircuitBreaker" where
  "afterRequest now err cb = (if err \<noteq> None then onFailure now cb else onSuccess cb)"

definition CircuitBreaker_ExecuteWithContext ::
  "'w env \<Rightarrow> 'w action \<Rightarrow> CircuitBreaker \<times> 'w \<Rightarrow> rerror option \<times> (CircuitBreaker \<times> 'w)" where
  "CircuitBreaker_ExecuteWithContext env fn s =
     (let (cb, w) = s in
      case beforeRequest (Now env w) cb of
        (Some err, cb') \<Rightarrow> (Some err, (cb', w))
      | (None, cb') \<Rightarrow>
          (let (err, w') = fn w in (err, (afterRequest (Now env w') err cb', w'))))"

definition CircuitBreaker_Execute ::
  "'w env \<Rightarrow> 'w action \<Rightarrow> CircuitBreaker \<times> 'w \<Rightarrow> rerror option \<times> (CircuitBreaker \<times> 'w)" where
  "CircuitBreaker_Execute env fn s =
     (let (cb, w) = s in
      case beforeRequest (Now env w) cb of
        (Some err, cb') \<Rightarrow> (Some err, (cb', w))
      | (None, cb') \<Rightarrow>
          (let (err, w') = fn w in (err, (afterRequest (Now env w') err cb', w'))))"

definition State :: "CircuitBreaker \<Rightarrow> CircuitState" where
  "State cb = state cb"

definition StateName :: "CircuitBreaker \<Rightarrow> string" where
  "StateName cb =
     (case State cb of StateClosed \<Rightarrow> ''closed'' | StateOpen \<Rightarrow> ''open'' | StateHalfOpen \<Rightarrow> ''half-open'')"

definition Failures :: "CircuitBreaker \<Rightarrow> int" where
  "Failures cb = failures cb"

definition Reset :: "CircuitBreaker \<Rightarrow> CircuitBreaker" where
  "Reset cb = cb\<lparr>state := StateClosed, failures := 0, successes := 0\<rparr>"

definition IsOpen :: "CircuitBreaker \<Rightarrow> bool" where
  "IsOpen cb \<longleftrightarrow> State cb = StateOpen"

lemmas cb_step_defs = beforeRequest_def afterRequest_def onFailure_def onSuccess_def Reset_def

section \<open>Calls in flight\<close>

text \<open>
  The breaker under concurrent use: the clock never goes back, a call is admitted or rejected by
  \<open>beforeRequest\<close> at the current time, an admitted call ends at some later step with
  \<open>afterRequest\<close>, and anyone may call \<open>Reset\<close>.
\<close>

datatype cb_event = Tick | Admit | Reject rerror | Finish "rerror option" | ResetCall

record cb_sys =
  brk :: CircuitBreaker
  inflight :: nat
  clock :: Time

inductive cb_step :: "cb_sys \<Rightarrow> cb_event \<Rightarrow> cb_sys \<Rightarrow> bool" where
  tick: "clock s \<le> t \<Longrightarrow> cb_step s Tick (s\<lparr>clock := t\<rparr>)"
| admit: "beforeRequest (clock s) (brk s) = (None, cb') \<Longrightarrow>
    cb_step s Admit (s\<lparr>brk := cb', inflight := inflight s + 1\<rparr>)"
| reject: "beforeRequest (clock s) (brk s) = (Some e, cb') \<Longrightarrow> cb_step s (Reject e) (s\<lparr>brk := cb'\<rparr>)"
| finish: "0 < inflight s \<Longrightarrow>
    cb_step s (Finish err) (s\<lparr>brk := afterRequest (clock s) err (brk s), inflight := inflight s - 1\<rparr>)"
| reset: "cb_step s ResetCall (s\<lparr>brk := Reset (brk s)\<rparr>)"

inductive cb_run :: "cb_sys \<Rightarrow> cb_event list \<Rightarrow> cb_sys \<Rightarrow> bool" where
  nil: "cb_run s [] s"
| snoc: "cb_run s es t \<Longrightarrow> cb_step t e u \<Longrightarrow> cb_run s (es @ [e]) u"

inductive_cases cb_stepE: "cb_step s e t"
inductive_simps cb_run_Nil: "cb_run s [] t"

definition cb_init :: "CircuitBreakerConfig \<Rightarrow> Time \<Rightarrow> cb_sys" where
  "cb_init config t = \<lparr>brk = NewCircuitBreaker config, inflight = 0, clock = t\<rparr>"

definition cb_ok :: "CircuitBreaker \<Rightarrow> Time \<Rightarrow> bool" where
  "cb_ok cb now \<longleftrightarrow>
     1 \<le> MaxFailures (cbconfig cb) \<and> 0 < Timeout (cbconfig cb) \<and> 0 \<le> failures cb
     \<and> 0 \<le> successes cb \<and> lastFailTime cb \<le> now \<and> lastAttempt cb \<le> now
     \<and> (state cb = StateClosed \<longrightarrow> failures cb < MaxFailures (cbconfig cb))
     \<and> (state cb = StateHalfOpen \<longrightarrow> successes cb < 3)
     \<and> (state cb = StateOpen \<longrightarrow> 1 \<le> failures cb)"

lemma NewCircuitBreaker_ok [inv_intros]: "zeroTime \<le> t \<Longrightarrow> cb_ok (NewCircuitBreaker config) t"
  by (simp add: cb_ok_def NewCircuitBreaker_def Let_def duration_units)

lemma beforeRequest_ok [inv_intros]: "cb_ok cb now \<Longrightarrow> cb_ok (snd (beforeRequest now cb)) now"
  by (auto simp: cb_ok_def beforeRequest_def split: CircuitState.splits)

lemma afterRequest_ok [inv_intros]: "cb_ok cb now \<Longrightarrow> cb_ok (afterRequest now err cb) now"
  by (auto simp: cb_ok_def cb_step_defs Let_def split: CircuitState.splits)

lemma Reset_ok [inv_intros]: "cb_ok cb now \<Longrightarrow> cb_ok (Reset cb) now"
  by (auto simp: cb_ok_def Reset_def)

lemma cb_ok_mono: "cb_ok cb s \<Longrightarrow> s \<le> t \<Longrightarrow> cb_ok cb t"
  by (auto simp: cb_ok_def)

lemma cb_step_ok: "cb_step s e t \<Longrightarrow> cb_ok (brk s) (clock s) \<Longrightarrow> cb_ok (brk t) (clock t)"
  using beforeRequest_ok [of "brk s" "clock s"]
  by (elim cb_stepE) (auto intro: cb_ok_mono inv_intros)

lemma cb_step_clock: "cb_step s e t \<Longrightarrow> clock s \<le> clock t"
  by (elim cb_stepE) auto

lemma cb_run_ok: "cb_run s es t \<Longrightarrow> cb_ok (brk s) (clock s) \<Longrightarrow> cb_ok (brk t) (clock t)"
  by (induction rule: cb_run.induct) (auto intro: cb_step_ok)

lemma cb_run_clock: "cb_run s es t \<Longrightarrow> clock s \<le> clock t"
  by (induction rule: cb_run.induct) (auto dest: cb_step_clock)

text \<open>
  Whatever calls overlap, a reachable breaker is consistent: closed means fewer than
  \<open>MaxFailures\<close> failures on record, half-open means fewer than three successes so far, open means
  at least one failure, and neither recorded time lies in the future.
\<close>
theorem cb_reachable_ok:
  assumes "cb_run (cb_init config t0) es s" and "zeroTime \<le> t0"
  shows "cb_ok (brk s) (clock s)"
  using cb_run_ok [OF assms(1)] assms(2) by (simp add: cb_init_def NewCircuitBreaker_ok)

theorem cb_reachable_ok_witness:
  "cb_ok (afterRequest (Time 5) (Some (FnErr ''x''))
     (NewCircuitBreaker (DefaultCircuitBreakerConfig ''db''))) (Time 5)"
proof -
  define cb where "cb = NewCircuitBreaker (DefaultCircuitBreakerConfig ''db'')"
  have b: "beforeRequest (Time 5) cb = (None, cb)"
    by (simp add: cb_def beforeRequest_def NewCircuitBreaker_def DefaultCircuitBreakerConfig_def
        duration_units)
  let ?s0 = "cb_init (DefaultCircuitBreakerConfig ''db'') (Time 5)"
  let ?s1 = "\<lparr>brk = cb, inflight = 1, clock = Time 5\<rparr>"
  have 1: "cb_step ?s0 Admit ?s1"
    using cb_step.admit [of ?s0 cb] b by (simp add: cb_init_def flip: cb_def)
  note 2 = cb_step.finish [of ?s1 "Some (FnErr ''x'')"]
  have "cb_run ?s0 (([] @ [Admit]) @ [Finish (Some (FnErr ''x''))])
      \<lparr>brk = afterRequest (Time 5) (Some (FnErr ''x'')) cb, inflight = 0, clock = Time 5\<rparr>"
    using cb_run.snoc [OF cb_run.snoc [OF cb_run.nil 1] 2] by simp
  from cb_reachable_ok [OF this] show ?thesis by (simp add: cb_def time_order zeroTime_def)
qed

lemma SubT_gt_imp: "0 \<le> d \<Longrightarrow> d < SubT t u \<Longrightarrow> AddT u d < t"
  by (auto simp: time_defs i64_limits)

lemma open_window_step:
  assumes "cb_step s e t" and "e \<noteq> ResetCall" and "cb_ok (brk s) (clock s)"
    and "state (brk s) = StateOpen"
    and "clock t \<le> AddT (lastFailTime (brk s)) (Timeout (cbconfig (brk s)))"
  shows "state (brk t) = StateOpen \<and> e \<noteq> Admit \<and> lastFailTime (brk s) \<le> lastFailTime (brk t)
       \<and> cbconfig (brk t) = cbconfig (brk s)"
proof -
  have late: "\<not> Timeout (cbconfig (brk s)) < SubT (clock s) (lastFailTime (brk s))"
    using SubT_gt_imp [of "Timeout (cbconfig (brk s))" "clock s" "lastFailTime (brk s)"]
      assms(3,5) cb_step_clock [OF assms(1)] by (auto simp: cb_ok_def)
  from assms(1) show ?thesis
    using assms(2-4) late
    by (elim cb_stepE) (auto simp: cb_ok_def cb_step_defs Let_def)
qed

text \<open>
  C15. An open breaker fails fast: until \<open>Timeout\<close> has fully elapsed since the last failure, no
  interleaving of calls, late completions and clock ticks admits a request or closes it; only a
  manual \<open>Reset\<close> does.
\<close>
theorem cb_open_window:
  assumes "cb_run s es t" and "cb_ok (brk s) (clock s)" and "state (brk s) = StateOpen"
    and "ResetCall \<notin> set es"
    and "clock t \<le> AddT (lastFailTime (brk s)) (Timeout (cbconfig (brk s)))"
  shows "State (brk t) = StateOpen \<and> Admit \<notin> set es"
proof -
  have "state (brk t) = StateOpen \<and> Admit \<notin> set es \<and> lastFailTime (brk s) \<le> lastFailTime (brk t)
      \<and> cbconfig (brk t) = cbconfig (brk s)"
    using assms
  proof (induction rule: cb_run.induct)
    case (nil s)
    then show ?case by simp
  next
    case (snoc s es t e u)
    have "clock t \<le> AddT (lastFailTime (brk s)) (Timeout (cbconfig (brk s)))"
      using snoc.prems(4) cb_step_clock [OF snoc.hyps(2)] by simp
    then have IH: "state (brk t) = StateOpen" "Admit \<notin> set es"
      "lastFailTime (brk s) \<le> lastFailTime (brk t)" "cbconfig (brk t) = cbconfig (brk s)"
      using snoc.IH snoc.prems by auto
    have "clock u \<le> AddT (lastFailTime (brk t)) (Timeout (cbconfig (brk t)))"
      using snoc.prems(4) IH(3,4) AddT_mono order_trans by metis
    then show ?case
      using open_window_step [OF snoc.hyps(2) _ cb_run_ok [OF snoc.hyps(1)]] snoc.prems IH by auto
  qed
  then show ?thesis by (simp add: State_def)
qed

theorem cb_open_window_witness:
  "\<exists>s t es. cb_run s es t \<and> length es = 2 \<and> clock s < clock t
     \<and> State (brk t) = StateOpen \<and> Admit \<notin> set es"
proof -
  define cb where "cb = (NewCircuitBreaker (DefaultCircuitBreakerConfig ''db''))
    \<lparr>state := StateOpen, failures := 5, lastFailTime := Time 10\<rparr>"
  have cfg: "cbconfig cb = DefaultCircuitBreakerConfig ''db''" "lastFailTime cb = Time 10"
    "state cb = StateOpen" "cb_ok cb (Time 20)"
    by (simp_all add: cb_def NewCircuitBreaker_def DefaultCircuitBreakerConfig_def duration_units
        cb_ok_def zeroTime_def time_order)
  have b: "beforeRequest (Time 30) cb = (Some ErrCircuitOpen, cb)"
    using cfg by (simp add: beforeRequest_def DefaultCircuitBreakerConfig_def SubT_def duration_units i64_limits)
  let ?s = "\<lparr>brk = cb, inflight = 2, clock = Time 20\<rparr>" and ?t = "\<lparr>brk = cb, inflight = 2, clock = Time 30\<rparr>"
  have 1: "cb_step ?s Tick ?t" using cb_step.tick [of ?s "Time 30"] by (simp add: time_order)
  have 2: "cb_step ?t (Reject ErrCircuitOpen) ?t" using cb_step.reject [of ?t _ cb] b by simp
  have run: "cb_run ?s (([] @ [Tick]) @ [Reject ErrCircuitOpen]) ?t"
    by (rule cb_run.snoc [OF cb_run.snoc [OF cb_run.nil 1] 2])
  have "State (brk ?t) = StateOpen \<and> Admit \<notin> set (([] @ [Tick]) @ [Reject ErrCircuitOpen])"
    by (rule cb_open_window [OF run])
      (use cfg in \<open>simp_all add: time_order DefaultCircuitBreakerConfig_def duration_units\<close>)
  with run show ?thesis
    by (intro exI [of _ ?s] exI [of _ ?t] exI [of _ "([] @ [Tick]) @ [Reject ErrCircuitOpen]"])
      (simp add: time_order)
qed

section \<open>Sequential use\<close>

lemma CircuitBreaker_Execute_same:
  "CircuitBreaker_Execute env fn s = CircuitBreaker_ExecuteWithContext env fn s"
  by (simp add: CircuitBreaker_Execute_def CircuitBreaker_ExecuteWithContext_def)

lemma cb_Execute_admitted:
  "beforeRequest (Now env w) cb = (None, cb') \<Longrightarrow> fn w = (err, w') \<Longrightarrow>
   CircuitBreaker_ExecuteWithContext env fn (cb, w) = (err, (afterRequest (Now env w') err cb', w'))"
  by (simp add: CircuitBreaker_ExecuteWithContext_def)

lemma cb_Execute_rejected:
  "beforeRequest (Now env w) cb = (Some e, cb') \<Longrightarrow>
   CircuitBreaker_ExecuteWithContext env fn (cb, w) = (Some e, (cb', w))"
  by (simp add: CircuitBreaker_ExecuteWithContext_def)

lemma beforeRequest_errors:
  "beforeRequest now cb = (Some e, cb') \<Longrightarrow> e \<in> {ErrCircuitOpen, ErrTooManyRequests} \<and> cb' = cb"
  by (auto simp: beforeRequest_def split: CircuitState.splits if_splits)

interpretation cb_protection: protection
  "CircuitBreaker_ExecuteWithContext env" snd "{ErrCircuitOpen, ErrTooManyRequests}"
proof
  fix fn :: "'a action" and s s'
  assume "CircuitBreaker_ExecuteWithContext env fn s = (None, s')"
  then show "\<exists>w. fn w = (None, snd s')"
    by (auto simp: CircuitBreaker_ExecuteWithContext_def split: prod.splits option.splits)
next
  fix fn :: "'a action" and s e s'
  assume "CircuitBreaker_ExecuteWithContext env fn s = (Some e, s')"
  then show "e \<in> {ErrCircuitOpen, ErrTooManyRequests} \<or> (\<exists>w w'. fn w = (Some e, w'))"
    by (auto simp: CircuitBreaker_ExecuteWithContext_def split: prod.splits option.splits
        dest!: beforeRequest_errors)
qed

lemma closed_failures:
  assumes "\<forall>w. fst (fn w) \<noteq> None" and "state cb = StateClosed"
  shows "let (cb', w') = snd (CircuitBreaker_ExecuteWithContext env fn (cb, w)) in
      failures cb' = failures cb + 1 \<and> cbconfig cb' = cbconfig cb \<and> lastFailTime cb' = Now env w'
      \<and> state cb' = (if MaxFailures (cbconfig cb) \<le> failures cb + 1 then StateOpen else StateClosed)"
proof -
  obtain e w' where "fn w = (Some e, w')" using assms(1) by (cases "fn w") (metis fst_conv option.exhaust)
  moreover have "beforeRequest (Now env w) cb = (None, cb)"
    using assms(2) by (simp add: beforeRequest_def)
  ultimately show ?thesis using assms(2)
    by (simp add: cb_Execute_admitted cb_step_defs Let_def)
qed

lemma closed_failures_iterated:
  assumes "\<forall>w. fst (fn w) \<noteq> None" and "state cb = StateClosed" and "failures cb = 0"
    and "int n \<le> MaxFailures (cbconfig cb)" and "0 < MaxFailures (cbconfig cb)"
  shows "let (cb', w') = ((\<lambda>s. snd (CircuitBreaker_ExecuteWithContext env fn s)) ^^ n) (cb, w) in
      failures cb' = int n \<and> cbconfig cb' = cbconfig cb
      \<and> (0 < n \<longrightarrow> lastFailTime cb' = Now env w')
      \<and> state cb' = (if int n = MaxFailures (cbconfig cb) then StateOpen else StateClosed)"
  using assms(4)
proof (induction n)
  case 0
  then show ?case using assms(2,3,5) by simp
next
  case (Suc n)
  obtain cb' w' where s: "((\<lambda>s. snd (CircuitBreaker_ExecuteWithContext env fn s)) ^^ n) (cb, w) = (cb', w')"
    by fastforce
  with Suc have "failures cb' = int n" "cbconfig cb' = cbconfig cb" "state cb' = StateClosed"
    by auto
  then show ?case
    using closed_failures [OF assms(1), of cb' env w'] Suc.prems by (auto simp: s split: prod.splits)
qed

text \<open>
  C32. A closed breaker trips on exactly the \<open>MaxFailures\<close>-th consecutive failure: after fewer
  failing calls it is still closed, after that many it is open, and the next call within
  \<open>Timeout\<close> returns \<open>ErrCircuitOpen\<close> without running the function.
\<close>
theorem cb_trips_exactly:
  assumes "\<forall>w. fst (fn w) \<noteq> None" and "state cb = StateClosed" and "failures cb = 0"
    and "int n \<le> MaxFailures (cbconfig cb)" and "0 < MaxFailures (cbconfig cb)"
    and "((\<lambda>s. snd (CircuitBreaker_ExecuteWithContext env fn s)) ^^ n) (cb, w) = (cb', w')"
  shows "if int n < MaxFailures (cbconfig cb) then StateName cb' = ''closed'' \<and> Failures cb' = int n
         else StateName cb' = ''open''
            \<and> (\<forall>g v. 0 < Timeout (cbconfig cb) \<longrightarrow> Now env v \<le> AddT (Now env w') (Timeout (cbconfig cb)) \<longrightarrow>
                 CircuitBreaker_ExecuteWithContext env g (cb', v) = (Some ErrCircuitOpen, (cb', v)))"
proof -
  have st: "failures cb' = int n" "cbconfig cb' = cbconfig cb"
      "0 < n \<longrightarrow> lastFailTime cb' = Now env w'"
      "state cb' = (if int n = MaxFailures (cbconfig cb) then StateOpen else StateClosed)"
    using closed_failures_iterated [OF assms(1-5), where env = env and w = w] by (simp_all add: assms(6))
  show ?thesis
  proof (cases "int n < MaxFailures (cbconfig cb)")
    case True
    with st show ?thesis by (simp add: StateName_def State_def Failures_def)
  next
    case False
    then have "state cb' = StateOpen" "lastFailTime cb' = Now env w'"
      using st assms(4,5) by auto
    then have "CircuitBreaker_ExecuteWithContext env g (cb', v) = (Some ErrCircuitOpen, (cb', v))"
      if "0 < Timeout (cbconfig cb)" "Now env v \<le> AddT (Now env w') (Timeout (cbconfig cb))" for g v
      using that st(2) SubT_gt_imp [of "Timeout (cbconfig cb)" "Now env v" "Now env w'"]
      by (intro cb_Execute_rejected) (auto simp: beforeRequest_def)
    with False \<open>state cb' = StateOpen\<close> show ?thesis by (simp add: StateName_def State_def)
  qed
qed

theorem cb_trips_exactly_witness:
  "let env = \<lparr>Now = \<lambda>w :: int. Time w, CtxDone = \<lambda>_. None, Sleep = \<lambda>d w. (Waited, w),
              RandFloat = \<lambda>w. (Fin 0, w)\<rparr>;
       cb = NewCircuitBreaker (DefaultCircuitBreakerConfig ''db'');
       (cb', w') = ((\<lambda>s. snd (CircuitBreaker_ExecuteWithContext env (\<lambda>w. (Some (FnErr ''x''), w + 1)) s)) ^^ 5) (cb, 0)
   in StateName cb' = ''open''"
proof -
  define env where "env = \<lparr>Now = \<lambda>w :: int. Time w, CtxDone = \<lambda>_. None, Sleep = \<lambda>d w. (Waited, w),
              RandFloat = \<lambda>w. (Fin 0, w)\<rparr>"
  define cb where "cb = NewCircuitBreaker (DefaultCircuitBreakerConfig ''db'')"
  obtain cb' w' where r: "((\<lambda>s. snd (CircuitBreaker_ExecuteWithContext env
      (\<lambda>w. (Some (FnErr ''x''), w + 1)) s)) ^^ 5) (cb, 0) = (cb', w')" by fastforce
  have "state cb = StateClosed" "failures cb = 0" "MaxFailures (cbconfig cb) = 5"
    by (simp_all add: cb_def NewCircuitBreaker_def DefaultCircuitBreakerConfig_def duration_units)
  then have "StateName cb' = ''open''"
    using cb_trips_exactly [of "\<lambda>w. (Some (FnErr ''x''), w + 1)" cb 5 env 0 cb' w'] r by simp
  then show ?thesis unfolding Let_def by (simp only: r prod.case flip: env_def cb_def)
qed

text \<open>
  Recovery: from an open breaker whose timeout has elapsed, three successful calls, each at
  least a second after the previous one was admitted, close it with no failure on record; a
  failure in the half-open state reopens it at once.
\<close>
theorem cb_recovers:
  assumes "state cb = StateOpen" and "Timeout (cbconfig cb) < SubT t1 (lastFailTime cb)"
    and "Second \<le> SubT t2 t1" and "Second \<le> SubT t3 t2"
  shows "let (e1, a1) = beforeRequest t1 cb; b1 = afterRequest u1 None a1;
             (e2, a2) = beforeRequest t2 b1; b2 = afterRequest u2 None a2;
             (e3, a3) = beforeRequest t3 b2; b3 = afterRequest u3 None a3
         in e1 = None \<and> e2 = None \<and> e3 = None
          \<and> State b1 = StateHalfOpen \<and> State b2 = StateHalfOpen
          \<and> State b3 = StateClosed \<and> Failures b3 = 0
          \<and> IsOpen (afterRequest u1 (Some e) a1) \<and> IsOpen (afterRequest u2 (Some e) a2)
          \<and> IsOpen (afterRequest u3 (Some e) a3)"
  using assms
  by (simp add: cb_step_defs Let_def State_def Failures_def IsOpen_def)

theorem cb_recovers_witness:
  "State (afterRequest (Time (60 * Second)) (Some (FnErr ''x''))
     (snd (beforeRequest (Time (60 * Second))
        ((NewCircuitBreaker (DefaultCircuitBreakerConfig ''db''))\<lparr>state := StateOpen, failures := 5\<rparr>))))
   = StateOpen"
  using cb_recovers [of "(NewCircuitBreaker (DefaultCircuitBreakerConfig ''db''))\<lparr>state := StateOpen, failures := 5\<rparr>"
      "Time (60 * Second)" "Time (61 * Second)" "Time (62 * Second)" "Time (60 * Second)"
      "Time (61 * Second)" "Time (62 * Second)" "FnErr ''x''"]
  by (auto simp: NewCircuitBreaker_def DefaultCircuitBreakerConfig_def SubT_def duration_units zeroTime_def
      i64_limits Let_def IsOpen_def split: prod.splits)

end
