(* ===== verification/Bulkhead.thy ===== *)
theory Bulkhead
  imports ResilienceCore
begin

text \<open>
  \<open>resilience/bulkhead.go\<close>: the counting semaphore (the buffered channel \<open>sem\<close>, modelled by the
  number of tokens in it), the counters, \<open>acquire\<close>/\<open>release\<close>, and the group of named
  bulkheads. Two views are given: state passing for one caller, and a step relation whose steps are
  the channel operations and the critical sections of any number of concurrent callers.
\<close>

section \<open>Model\<close>

record BulkheadConfig =
  bh_Name :: string
  MaxConcurrent :: int
  MaxWaitDuration :: Duration

record Bulkhead =
  bhconfig :: BulkheadConfig
  sem :: nat
  active :: int
  rejected :: int
  totalCalls :: int
  waitingTime :: Duration

definition DefaultBulkheadConfig :: "string \<Rightarrow> BulkheadConfig" where
  "DefaultBulkheadConfig name = \<lparr>bh_Name = name, MaxConcurrent = 10, MaxWaitDuration = 0\<rparr>"

definition NewBulkhead :: "BulkheadConfig \<Rightarrow> Bulkhead" where
  "NewBulkhead config =
     (let config = (if MaxConcurrent config \<le> 0 then config\<lparr>MaxConcurrent := 10\<rparr> else config)
      in \<lparr>bhconfig = config, sem = 0, active = 0, rejected = 0, totalCalls = 0, waitingTime = 0\<rparr>)"

definition full :: "Bulkhead \<Rightarrow> bool" where
  \<comment> \<open>the channel of capacity \<open>MaxConcurrent\<close> accepts no send\<close>
  "full b \<longleftrightarrow> MaxConcurrent (bhconfig b) \<le> int (sem b)"

datatype slot_outcome = GotSlot | TimedOut | SlotCancelled string
  \<comment> \<open>which case of the three-way \<open>select\<close> in \<open>acquire\<close> is taken\<close>

type_synonym 'w waiting = "Duration \<Rightarrow> Bulkhead \<Rightarrow> 'w \<Rightarrow> slot_outcome \<times> Bulkhead \<times> 'w"
  \<comment> \<open>the time spent in that \<open>select\<close>: what other callers and the clock did meanwhile\<close>

definition bh_acquire ::
  "'w env \<Rightarrow> 'w waiting \<Rightarrow> Bulkhead \<times> 'w \<Rightarrow> rerror option \<times> (Bulkhead \<times> 'w)" where
  "bh_acquire env wait s =
     (let (b, w) = s;
          b = b\<lparr>totalCalls := totalCalls b + 1\<rparr>;
          startWait = Now env w
      in if MaxWaitDuration (bhconfig b) = 0
         then (if \<not> full b then (None, (b\<lparr>sem := sem b + 1, active := active b + 1\<rparr>, w))
               else (Some ErrBulkheadFull, (b\<lparr>rejected := rejected b + 1\<rparr>, w)))
         else (case wait (MaxWaitDuration (bhconfig b)) b w of
                 (GotSlot, b, w) \<Rightarrow>
                   (None, (b\<lparr>sem := sem b + 1, active := active b + 1,
                             waitingTime := waitingTime b + SubT (Now env w) startWait\<rparr>, w))
               | (TimedOut, b, w) \<Rightarrow> (Some ErrBulkheadTimeout, (b\<lparr>rejected := rejected b + 1\<rparr>, w))
               | (SlotCancelled e, b, w) \<Rightarrow> (Some (CtxErr e), (b, w))))"

definition bh_release :: "Bulkhead \<Rightarrow> Bulkhead" where
  "bh_release b = b\<lparr>sem := sem b - 1, active := active b - 1\<rparr>"

definition Bulkhead_ExecuteWithContext ::
  "'w env \<Rightarrow> 'w waiting \<Rightarrow> 'w action \<Rightarrow> Bulkhead \<times> 'w \<Rightarrow> rerror option \<times> (Bulkhead \<times> 'w)" where
  "Bulkhead_ExecuteWithContext env wait fn s =
     (case bh_acquire env wait s of
        (Some err, s') \<Rightarrow> (Some err, s')
      | (None, (b, w)) \<Rightarrow> (let (err, w') = fn w in (err, (bh_release b, w'))))"

definition never_cancelled :: "'w waiting \<Rightarrow> bool" where
  \<comment> \<open>waiting under \<open>context.Background()\<close>\<close>
  "never_cancelled wait \<longleftrightarrow> (\<forall>d b w e. fst (wait d b w) \<noteq> SlotCancelled e)"

definition Bulkhead_Execute ::
  "'w env \<Rightarrow> 'w waiting \<Rightarrow> 'w action \<Rightarrow> Bulkhead \<times> 'w \<Rightarrow> rerror option \<times> (Bulkhead \<times> 'w)" where
  \<comment> \<open>the waiting is that of \<open>context.Background()\<close>\<close>
  "Bulkhead_Execute env wait fn = Bulkhead_ExecuteWithContext env wait fn"

definition ActiveCount :: "Bulkhead \<Rightarrow> int" where
  "ActiveCount b = active b"

definition AvailableSlots :: "Bulkhead \<Rightarrow> int" where
  "AvailableSlots b = MaxConcurrent (bhconfig b) - ActiveCount b"

definition RejectedCount :: "Bulkhead \<Rightarrow> int" where
  "RejectedCount b = rejected b"

definition TotalCalls :: "Bulkhead \<Rightarrow> int" where
  "TotalCalls b = totalCalls b"

record BulkheadStats =
  bs_Name :: string
  bs_MaxConcurrent :: int
  bs_Active :: int
  bs_Available :: int
  bs_TotalCalls :: int
  bs_Rejected :: int

definition Bulkhead_Stats :: "Bulkhead \<Rightarrow> BulkheadStats" where
  "Bulkhead_Stats b =
     \<lparr>bs_Name = bh_Name (bhconfig b), bs_MaxConcurrent = MaxConcurrent (bhconfig b),
      bs_Active = active b, bs_Available = MaxConcurrent (bhconfig b) - active b,
      bs_TotalCalls = totalCalls b, bs_Rejected = rejected b\<rparr>"

type_synonym BulkheadGroup = "string \<rightharpoonup> Bulkhead"

definition NewBulkheadGroup :: BulkheadGroup where
  "NewBulkheadGroup = Map.empty"

definition group_bulkhead :: "string \<Rightarrow> int \<Rightarrow> Bulkhead" where
  "group_bulkhead name maxConcurrent =
     NewBulkhead \<lparr>bh_Name = name, MaxConcurrent = maxConcurrent, MaxWaitDuration = 0\<rparr>"

definition BulkheadGroup_Get :: "string \<Rightarrow> int \<Rightarrow> BulkheadGroup \<Rightarrow> Bulkhead \<times> BulkheadGroup" where
  "BulkheadGroup_Get name maxConcurrent bg =
     (case bg name of
        Some bh \<Rightarrow> (bh, bg)
      | None \<Rightarrow> (let bh = group_bulkhead name maxConcurrent in (bh, bg(name \<mapsto> bh))))"

definition BulkheadGroup_AllStats :: "string list \<Rightarrow> BulkheadGroup \<Rightarrow> BulkheadStats list" where
  \<comment> \<open>\<open>order\<close> is the order in which the range over the Go map visits the keys\<close>
  "BulkheadGroup_AllStats order bg = List.map_filter (\<lambda>k. map_option Bulkhead_Stats (bg k)) order"

interpretation bulkhead_group: registry BulkheadGroup_Get group_bulkhead
  by unfold_locales (simp_all add: BulkheadGroup_Get_def Let_def)

interpretation bh_protection: protection
  "Bulkhead_ExecuteWithContext env wait" snd
  "{ErrBulkheadFull, ErrBulkheadTimeout} \<union> range CtxErr"
proof
  fix fn :: "'a action" and s s'
  assume "Bulkhead_ExecuteWithContext env wait fn s = (None, s')"
  then show "\<exists>w. fn w = (None, snd s')"
    by (auto simp: Bulkhead_ExecuteWithContext_def split: prod.splits option.splits)
next
  fix fn :: "'a action" and s e s'
  assume *: "Bulkhead_ExecuteWithContext env wait fn s = (Some e, s')"
  have "e \<in> {ErrBulkheadFull, ErrBulkheadTimeout} \<union> range CtxErr"
    if "bh_acquire env wait s = (Some e, t)" for t
    using that by (auto simp: bh_acquire_def Let_def split: prod.splits slot_outcome.splits if_splits)
  with * show "e \<in> {ErrBulkheadFull, ErrBulkheadTimeout} \<union> range CtxErr \<or> (\<exists>w w'. fn w = (Some e, w'))"
    by (auto simp: Bulkhead_ExecuteWithContext_def split: prod.splits option.splits)
qed

lemma bulkhead_background:
  assumes "never_cancelled wait"
  shows "protection (Bulkhead_Execute env wait) snd {ErrBulkheadFull, ErrBulkheadTimeout}"
proof
  fix fn :: "'a action" and s s'
  assume "Bulkhead_Execute env wait fn s = (None, s')"
  then show "\<exists>w. fn w = (None, snd s')" unfolding Bulkhead_Execute_def by (rule bh_protection.exec_nil)
next
  fix fn :: "'a action" and s e s'
  assume *: "Bulkhead_Execute env wait fn s = (Some e, s')"
  have c: "wait d b w \<noteq> (SlotCancelled x, p)" for d b w x p using assms by (metis fst_conv never_cancelled_def)
  have "e \<in> {ErrBulkheadFull, ErrBulkheadTimeout}" if "bh_acquire env wait s = (Some e, t)" for t
    using that c by (auto simp: bh_acquire_def Let_def split: prod.splits slot_outcome.splits if_splits)
  with * show "e \<in> {ErrBulkheadFull, ErrBulkheadTimeout} \<or> (\<exists>w w'. fn w = (Some e, w'))"
    by (auto simp: Bulkhead_Execute_def Bulkhead_ExecuteWithContext_def split: prod.splits option.splits)
qed

section \<open>Concurrent callers\<close>

text \<open>
  The numbers of callers at each program point: \<open>counted\<close> (after \<open>totalCalls++\<close>, at the
  \<open>select\<close>), \<open>acquired\<close> (token in the channel, before \<open>active++\<close>), \<open>running\<close> (inside the
  function), \<open>releasing\<close> (token taken back, before \<open>active--\<close>), \<open>refused\<close> (before
  \<open>rejected++\<close>); \<open>finished\<close> and \<open>cancelled\<close> count the calls that returned.
\<close>

record bh_sys =
  bh :: Bulkhead
  counted :: nat
  acquired :: nat
  running :: nat
  releasing :: nat
  refused :: nat
  finished :: nat
  cancelled :: nat

inductive bh_step :: "bh_sys \<Rightarrow> bh_sys \<Rightarrow> bool" where
  call: "bh_step s (s\<lparr>bh := (bh s)\<lparr>totalCalls := totalCalls (bh s) + 1\<rparr>, counted := counted s + 1\<rparr>)"
| send: "0 < counted s \<Longrightarrow> \<not> full (bh s) \<Longrightarrow>
    bh_step s (s\<lparr>bh := (bh s)\<lparr>sem := sem (bh s) + 1\<rparr>, counted := counted s - 1, acquired := acquired s + 1\<rparr>)"
| refuse: "0 < counted s \<Longrightarrow> MaxWaitDuration (bhconfig (bh s)) \<noteq> 0 \<or> full (bh s) \<Longrightarrow>
    bh_step s (s\<lparr>counted := counted s - 1, refused := refused s + 1\<rparr>)"
| reject: "0 < refused s \<Longrightarrow>
    bh_step s (s\<lparr>bh := (bh s)\<lparr>rejected := rejected (bh s) + 1\<rparr>, refused := refused s - 1\<rparr>)"
| cancel: "0 < counted s \<Longrightarrow> MaxWaitDuration (bhconfig (bh s)) \<noteq> 0 \<Longrightarrow>
    bh_step s (s\<lparr>counted := counted s - 1, cancelled := cancelled s + 1\<rparr>)"
| enter: "0 < acquired s \<Longrightarrow>
    bh_step s (s\<lparr>bh := (bh s)\<lparr>active := active (bh s) + 1, waitingTime := waitingTime (bh s) + d\<rparr>,
                 acquired := acquired s - 1, running := running s + 1\<rparr>)"
| receive: "0 < running s \<Longrightarrow> 0 < sem (bh s) \<Longrightarrow>
    bh_step s (s\<lparr>bh := (bh s)\<lparr>sem := sem (bh s) - 1\<rparr>, running := running s - 1, releasing := releasing s + 1\<rparr>)"
| leave: "0 < releasing s \<Longrightarrow>
    bh_step s (s\<lparr>bh := (bh s)\<lparr>active := active (bh s) - 1\<rparr>,
                 releasing := releasing s - 1, finished := finished s + 1\<rparr>)"

inductive_cases bh_stepE: "bh_step s t"

definition bh_init :: "BulkheadConfig \<Rightarrow> bh_sys" where
  "bh_init config = \<lparr>bh = NewBulkhead config, counted = 0, acquired = 0, running = 0, releasing = 0,
     refused = 0, finished = 0, cancelled = 0\<rparr>"

inductive bh_reachable :: "BulkheadConfig \<Rightarrow> bh_sys \<Rightarrow> bool" where
  init: "bh_reachable config (bh_init config)"
| step: "bh_reachable config s \<Longrightarrow> bh_step s t \<Longrightarrow> bh_reachable config t"

definition bh_inv :: "bh_sys \<Rightarrow> bool" where
  "bh_inv s \<longleftrightarrow>
     sem (bh s) = acquired s + running s
     \<and> int (sem (bh s)) \<le> MaxConcurrent (bhconfig (bh s))
     \<and> active (bh s) = int (running s + releasing s)
     \<and> totalCalls (bh s) = int (counted s + acquired s + running s + releasing s + refused s
                                 + finished s + cancelled s) + rejected (bh s)
     \<and> 0 \<le> rejected (bh s)"

lemma bh_step_inv: "bh_step s t \<Longrightarrow> bh_inv s \<Longrightarrow> bh_inv t"
  by (elim bh_stepE) (auto simp: bh_inv_def full_def)

lemma bh_init_inv: "bh_inv (bh_init config)"
  by (simp add: bh_inv_def bh_init_def NewBulkhead_def Let_def)

lemma bh_reachable_inv: "bh_reachable config s \<Longrightarrow> bh_inv s"
  by (induction rule: bh_reachable.induct) (auto intro: bh_init_inv bh_step_inv)

lemma bh_step_config: "bh_step s t \<Longrightarrow> bhconfig (bh t) = bhconfig (bh s)"
  by (elim bh_stepE) auto

lemma bh_reachable_config: "bh_reachable config s \<Longrightarrow> bhconfig (bh s) = bhconfig (NewBulkhead config)"
  by (induction rule: bh_reachable.induct) (auto simp: bh_init_def bh_step_config)

definition one_slot :: BulkheadConfig where
  \<comment> \<open>an example configuration\<close>
  "one_slot = \<lparr>bh_Name = ''db'', MaxConcurrent = 1, MaxWaitDuration = 0\<rparr>"

definition one_slot_state :: "nat \<Rightarrow> int \<Rightarrow> int \<Rightarrow> nat \<Rightarrow> nat \<Rightarrow> nat \<Rightarrow> nat \<Rightarrow> bh_sys" where
  "one_slot_state n act tot c a r l =
     \<lparr>bh = \<lparr>bhconfig = one_slot, sem = n, active = act, rejected = 0, totalCalls = tot, waitingTime = 0\<rparr>,
      counted = c, acquired = a, running = r, releasing = l, refused = 0, finished = 0, cancelled = 0\<rparr>"

lemma one_slot_overlap: "bh_reachable one_slot (one_slot_state 1 2 2 0 0 1 1)"
proof -
  note d = one_slot_state_def one_slot_def full_def
  have "bh_init one_slot = one_slot_state 0 0 0 0 0 0 0"
    by (simp add: bh_init_def NewBulkhead_def d)
  then have 0: "bh_reachable one_slot (one_slot_state 0 0 0 0 0 0 0)" by (metis bh_reachable.init)
  have 1: "bh_step (one_slot_state 0 0 0 0 0 0 0) (one_slot_state 0 0 1 1 0 0 0)"
    using bh_step.call [of "one_slot_state 0 0 0 0 0 0 0"] by (simp add: d)
  have 2: "bh_step (one_slot_state 0 0 1 1 0 0 0) (one_slot_state 1 0 1 0 1 0 0)"
    using bh_step.send [of "one_slot_state 0 0 1 1 0 0 0"] by (simp add: d)
  have 3: "bh_step (one_slot_state 1 0 1 0 1 0 0) (one_slot_state 1 1 1 0 0 1 0)"
    using bh_step.enter [of "one_slot_state 1 0 1 0 1 0 0" 0] by (simp add: d)
  have 4: "bh_step (one_slot_state 1 1 1 0 0 1 0) (one_slot_state 0 1 1 0 0 0 1)"
    using bh_step.receive [of "one_slot_state 1 1 1 0 0 1 0"] by (simp add: d)
  have 5: "bh_step (one_slot_state 0 1 1 0 0 0 1) (one_slot_state 0 1 2 1 0 0 1)"
    using bh_step.call [of "one_slot_state 0 1 1 0 0 0 1"] by (simp add: d)
  have 6: "bh_step (one_slot_state 0 1 2 1 0 0 1) (one_slot_state 1 1 2 0 1 0 1)"
    using bh_step.send [of "one_slot_state 0 1 2 1 0 0 1"] by (simp add: d)
  have 7: "bh_step (one_slot_state 1 1 2 0 1 0 1) (one_slot_state 1 2 2 0 0 1 1)"
    using bh_step.enter [of "one_slot_state 1 1 2 0 1 0 1" 0] by (simp add: d)
  note r = bh_reachable.step
  show ?thesis by (rule r [OF r [OF r [OF r [OF r [OF r [OF r [OF 0 1] 2] 3] 4] 5] 6] 7])
qed

text \<open>
  C29. Isolation: however the callers interleave, never more than \<open>MaxConcurrent\<close> of them are
  inside the protected function, and a caller that leaves it never blocks on giving its slot back.
\<close>
theorem bulkhead_isolation:
  assumes "bh_reachable config s"
  shows "int (running s) \<le> (if MaxConcurrent config \<le> 0 then 10 else MaxConcurrent config)
       \<and> (0 < running s \<longrightarrow> 0 < sem (bh s))"
proof -
  have "bh_inv s" by (rule bh_reachable_inv [OF assms])
  moreover have "MaxConcurrent (bhconfig (bh s)) = (if MaxConcurrent config \<le> 0 then 10 else MaxConcurrent config)"
    by (simp add: bh_reachable_config [OF assms] NewBulkhead_def Let_def)
  ultimately show ?thesis by (auto simp: bh_inv_def)
qed

theorem bulkhead_isolation_witness:
  "int (running (one_slot_state 1 2 2 0 0 1 1)) \<le> 1 \<and> 0 < sem (bh (one_slot_state 1 2 2 0 0 1 1))"
  using bulkhead_isolation [OF one_slot_overlap] by (simp add: one_slot_def one_slot_state_def)

text \<open>
  Accounting: every call is counted once as running, rejected, cancelled or finished, and once
  no call is in progress every slot is free again and no execution is on record as active.
\<close>
theorem bulkhead_accounting:
  assumes "bh_reachable config s"
  shows "TotalCalls (bh s) = int (counted s + acquired s + running s + releasing s + refused s
           + finished s + cancelled s) + RejectedCount (bh s)
       \<and> (counted s = 0 \<and> acquired s = 0 \<and> running s = 0 \<and> releasing s = 0 \<longrightarrow>
            sem (bh s) = 0 \<and> ActiveCount (bh s) = 0 \<and> AvailableSlots (bh s) = MaxConcurrent (bhconfig (bh s)))"
  using bh_reachable_inv [OF assms]
  by (simp add: bh_inv_def TotalCalls_def RejectedCount_def ActiveCount_def AvailableSlots_def)

theorem bulkhead_accounting_witness:
  "TotalCalls (bh (one_slot_state 1 2 2 0 0 1 1)) = 2"
  using bulkhead_accounting [OF one_slot_overlap] by (simp add: one_slot_state_def RejectedCount_def)

text \<open>
  \<open>release\<close> frees the slot before it lowers \<open>active\<close>, so a new caller can enter in between:
  \<open>ActiveCount\<close> is the number of callers inside plus those still releasing, and with one slot it
  reaches two while \<open>AvailableSlots\<close> is negative.
\<close>
theorem bulkhead_active_overshoots:
  "\<exists>s. bh_reachable \<lparr>bh_Name = ''db'', MaxConcurrent = 1, MaxWaitDuration = 0\<rparr> s
     \<and> running s = 1 \<and> ActiveCount (bh s) = 2 \<and> AvailableSlots (bh s) = - 1"
  using one_slot_overlap
  by (intro exI [of _ "one_slot_state 1 2 2 0 0 1 1"])
    (simp add: one_slot_state_def one_slot_def ActiveCount_def AvailableSlots_def)

text \<open>
  A bulkhead group hands out one bulkhead per name: whatever other names are requested in
  between and whatever size is asked for later, the bulkhead created first is returned.
\<close>
theorem BulkheadGroup_Get_stable:
  "fst (BulkheadGroup_Get name n' (bulkhead_group.gets rs (snd (BulkheadGroup_Get name n bg))))
     = fst (BulkheadGroup_Get name n bg)"
  by (rule bulkhead_group.get_stable)

end
