(* ===== verification/Retry.thy ===== *)
theory Retry
  imports ResilienceCore
begin

text \<open>
  \<open>resilience/retry.go\<close>: the attempt loop with its context checks and sleeps, and the delay of
  the exponential backoff in \<open>float64\<close>. \<open>pow\<close> stands for \<open>math.Pow\<close> and \<open>conv\<close> for the
  implementation-dependent conversion of a float outside the int64 range.
\<close>

section \<open>Model\<close>

record RetryConfig =
  MaxAttempts :: int
  InitialDelay :: Duration
  MaxDelay :: Duration
  Multiplier :: float64
  JitterFactor :: float64
  RetryableErrors :: "rerror list"

definition DefaultRetryConfig :: RetryConfig where
  "DefaultRetryConfig =
     \<lparr>MaxAttempts = 3, InitialDelay = 100 * Millisecond, MaxDelay = 10 * Second,
      Multiplier = Fin 2, JitterFactor = round64 (1 / 10), RetryableErrors = []\<rparr>"

definition NewRetry :: "RetryConfig \<Rightarrow> RetryConfig" where
  "NewRetry config =
     (let config = (if MaxAttempts config \<le> 0 then config\<lparr>MaxAttempts := 3\<rparr> else config);
          config = (if InitialDelay config \<le> 0 then config\<lparr>InitialDelay := 100 * Millisecond\<rparr> else config);
          config = (if MaxDelay config \<le> 0 then config\<lparr>MaxDelay := 10 * Second\<rparr> else config);
          config = (if fle (Multiplier config) (Fin 0) then config\<lparr>Multiplier := Fin 2\<rparr> else config);
          config = (if fless (JitterFactor config) (Fin 0) \<or> fless (Fin 1) (JitterFactor config)
                    then config\<lparr>JitterFactor := round64 (1 / 10)\<rparr> else config)
      in config)"

definition isRetryable :: "RetryConfig \<Rightarrow> rerror \<Rightarrow> bool" where
  "isRetryable r err =
     (if RetryableErrors r = [] then True else list_ex (\<lambda>e. err = e) (RetryableErrors r))"

definition calculateDelay ::
  "(float64 \<Rightarrow> float64 \<Rightarrow> float64) \<Rightarrow> (float64 \<Rightarrow> i64) \<Rightarrow> float64 \<Rightarrow> RetryConfig \<Rightarrow> int \<Rightarrow> Duration" where
  \<comment> \<open>\<open>rnd\<close> is the value \<open>rand.Float64()\<close> returned\<close>
  "calculateDelay pow conv rnd r attempt =
     (let delay = fmul (float_of_int (InitialDelay r)) (pow (Multiplier r) (float_of_int (attempt - 1)));
          jitter = fmul (fsub (fmul rnd (Fin 2)) (Fin 1)) (JitterFactor r);
          delay = fmul delay (fadd (Fin 1) jitter);
          delay = (if fless (float_of_int (MaxDelay r)) delay then float_of_int (MaxDelay r) else delay)
      in sint (to_int64 conv delay))"

function retry_loop ::
  "(float64 \<Rightarrow> float64 \<Rightarrow> float64) \<Rightarrow> (float64 \<Rightarrow> i64) \<Rightarrow> 'w env \<Rightarrow> RetryConfig \<Rightarrow> 'w action
     \<Rightarrow> int \<Rightarrow> rerror option \<Rightarrow> 'w \<Rightarrow> rerror option \<times> 'w" where
  "retry_loop pow conv env r fn attempt lastErr w =
     (if attempt \<le> MaxAttempts r then
        (case CtxDone env w of
           Some e \<Rightarrow> (Some (CtxErr e), w)
         | None \<Rightarrow>
             (case fn w of
                (None, w) \<Rightarrow> (None, w)
              | (Some err, w) \<Rightarrow>
                  if \<not> isRetryable r err then (Some err, w)
                  else if attempt = MaxAttempts r then (Some err, w)
                  else
                    (let (rnd, w) = RandFloat env w
                     in case Sleep env (calculateDelay pow conv rnd r attempt) w of
                          (Cancelled e, w) \<Rightarrow> (Some (CtxErr e), w)
                        | (Waited, w) \<Rightarrow> retry_loop pow conv env r fn (attempt + 1) (Some err) w)))
      else (lastErr, w))"
  by pat_completeness auto
termination
  by (relation "measure (\<lambda>(pow, conv, env, r, fn, attempt, lastErr, w). nat (MaxAttempts r + 1 - attempt))")
    auto

declare retry_loop.simps [simp del]

definition Retry_ExecuteWithContext ::
  "(float64 \<Rightarrow> float64 \<Rightarrow> float64) \<Rightarrow> (float64 \<Rightarrow> i64) \<Rightarrow> 'w env \<Rightarrow> RetryConfig \<Rightarrow> 'w action
     \<Rightarrow> 'w \<Rightarrow> rerror option \<times> 'w" where
  "Retry_ExecuteWithContext pow conv env r fn w = retry_loop pow conv env r fn 1 None w"

definition Retry_Execute ::
  "(float64 \<Rightarrow> float64 \<Rightarrow> float64) \<Rightarrow> (float64 \<Rightarrow> i64) \<Rightarrow> 'w env \<Rightarrow> RetryConfig \<Rightarrow> 'w action
     \<Rightarrow> 'w \<Rightarrow> rerror option \<times> 'w" where
  \<comment> \<open>the environment is that of \<open>context.Background()\<close>\<close>
  "Retry_Execute pow conv env r fn = Retry_ExecuteWithContext pow conv env r fn"

definition RetryWithBackoff ::
  "(float64 \<Rightarrow> float64 \<Rightarrow> float64) \<Rightarrow> (float64 \<Rightarrow> i64) \<Rightarrow> 'w env \<Rightarrow> int \<Rightarrow> 'w action
     \<Rightarrow> 'w \<Rightarrow> rerror option \<times> 'w" where
  "RetryWithBackoff pow conv env maxAttempts fn w =
     Retry_ExecuteWithContext pow conv env
       (NewRetry (DefaultRetryConfig\<lparr>MaxAttempts := maxAttempts\<rparr>)) fn w"

section \<open>The loop\<close>

lemma NewRetry_attempts: "1 \<le> MaxAttempts (NewRetry config)"
  by (simp add: NewRetry_def Let_def)

lemma default_attempts:
  "MaxAttempts (NewRetry DefaultRetryConfig) = 3" "RetryableErrors (NewRetry DefaultRetryConfig) = []"
  by (simp_all add: NewRetry_def DefaultRetryConfig_def Let_def)

lemma retry_loop_nil:
  "retry_loop pow conv env r fn a le w = (None, w') \<Longrightarrow> a \<le> MaxAttempts r \<Longrightarrow> \<exists>v. fn v = (None, w')"
proof (induction pow conv env r fn a le w rule: retry_loop.induct)
  case (1 pow conv env r fn a le w)
  show ?case
    using "1.prems"
    by (subst (asm) retry_loop.simps)
      (auto split: if_splits option.splits prod.splits wait_outcome.splits intro: "1.IH")
qed

lemma retry_loop_error:
  "retry_loop pow conv env r fn a le w = (Some e, w') \<Longrightarrow>
   e \<in> range CtxErr \<or> le = Some e \<or> (\<exists>v v'. fn v = (Some e, v'))"
proof (induction pow conv env r fn a le w rule: retry_loop.induct)
  case (1 pow conv env r fn a le w)
  show ?case
    using "1.prems"
    by (subst (asm) retry_loop.simps)
      (auto split: if_splits option.splits prod.splits wait_outcome.splits dest!: "1.IH")
qed

lemma retry_loop_background:
  "retry_loop pow conv env r fn a le w = (Some e, w') \<Longrightarrow> never_done env \<Longrightarrow>
   le = Some e \<or> (\<exists>v v'. fn v = (Some e, v'))"
proof (induction pow conv env r fn a le w rule: retry_loop.induct)
  case (1 pow conv env r fn a le w)
  have s: "Sleep env d v \<noteq> (Cancelled x, u)" for d v x u
    using "1.prems"(2) unfolding never_done_def by (metis fst_conv wait_outcome.distinct(1))
  have c: "CtxDone env w = None" using "1.prems"(2) by (simp add: never_done_def)
  show ?case
    using "1.prems" s c
    by (subst (asm) retry_loop.simps)
      (auto split: if_splits option.splits prod.splits wait_outcome.splits dest!: "1.IH")
qed

lemma retry_background: "never_done env \<Longrightarrow> protection (Retry_Execute pow conv env (NewRetry config)) (\<lambda>w. w) {}"
proof
  fix fn :: "'a action" and s s'
  assume "Retry_Execute pow conv env (NewRetry config) fn s = (None, s')"
  then show "\<exists>w. fn w = (None, s')"
    unfolding Retry_Execute_def Retry_ExecuteWithContext_def by (rule retry_loop_nil) (rule NewRetry_attempts)
next
  fix fn :: "'a action" and s e s'
  assume "never_done env" and "Retry_Execute pow conv env (NewRetry config) fn s = (Some e, s')"
  then show "e \<in> {} \<or> (\<exists>w w'. fn w = (Some e, w'))"
    unfolding Retry_Execute_def Retry_ExecuteWithContext_def by (auto dest: retry_loop_background)
qed

interpretation retry_protection: protection
  "Retry_ExecuteWithContext pow conv env (NewRetry config)" "\<lambda>w. w" "range CtxErr"
proof
  fix fn :: "'a action" and s s'
  assume "Retry_ExecuteWithContext pow conv env (NewRetry config) fn s = (None, s')"
  then show "\<exists>w. fn w = (None, s')"
    unfolding Retry_ExecuteWithContext_def by (rule retry_loop_nil) (rule NewRetry_attempts)
next
  fix fn :: "'a action" and s e s'
  assume "Retry_ExecuteWithContext pow conv env (NewRetry config) fn s = (Some e, s')"
  then show "e \<in> range CtxErr \<or> (\<exists>w w'. fn w = (Some e, w'))"
    unfolding Retry_ExecuteWithContext_def by (auto dest: retry_loop_error)
qed

lemma retry_loop_bound:
  fixes cnt :: "'w \<Rightarrow> int"
  assumes "\<And>v. cnt (snd (fn v)) = cnt v + 1" and "\<And>v. cnt (snd (RandFloat env v)) = cnt v"
    and "\<And>d v. cnt (snd (Sleep env d v)) = cnt v"
  shows "a \<le> MaxAttempts r + 1 \<Longrightarrow>
    cnt (snd (retry_loop pow conv env r fn a le w)) \<le> cnt w + (MaxAttempts r + 1 - a)"
proof (induction "nat (MaxAttempts r + 1 - a)" arbitrary: a le w rule: less_induct)
  case less
  show ?case
  proof (cases "a \<le> MaxAttempts r \<and> CtxDone env w = None")
    case False
    then show ?thesis using less.prems
      by (subst retry_loop.simps) (auto split: option.splits)
  next
    case True
    obtain res w1 where w1: "fn w = (res, w1)" by fastforce
    obtain rnd w2 where w2: "RandFloat env w1 = (rnd, w2)" by fastforce
    obtain out w3 where w3: "Sleep env (calculateDelay pow conv rnd r a) w2 = (out, w3)" by fastforce
    have c: "cnt w1 = cnt w + 1" "cnt w2 = cnt w1" "cnt w3 = cnt w2"
      using assms(1) [of w] assms(2) [of w1] assms(3) [of "calculateDelay pow conv rnd r a" w2]
      by (simp_all add: w1 w2 w3)
    have after: "cnt (snd (retry_loop pow conv env r fn (a + 1) l w3)) \<le> cnt w + (MaxAttempts r + 1 - a)" for l
      using less.hyps [of "a + 1" l w3] True c by auto
    show ?thesis using True c after
      by (subst retry_loop.simps)
        (auto simp: w1 w2 w3 split: option.splits wait_outcome.splits)
  qed
qed

text \<open>
  \<open>Execute\<close> calls the function at most \<open>MaxAttempts\<close> times, whatever the context and the
  timers do: any quantity that each call raises by one, and that clock and random generator leave
  alone, rises by at most that much.
\<close>
theorem retry_at_most_MaxAttempts:
  fixes cnt :: "'w \<Rightarrow> int"
  assumes "\<And>v. cnt (snd (fn v)) = cnt v + 1" and "\<And>v. cnt (snd (RandFloat env v)) = cnt v"
    and "\<And>d v. cnt (snd (Sleep env d v)) = cnt v"
  shows "cnt (snd (Retry_ExecuteWithContext pow conv env (NewRetry config) fn w))
           \<le> cnt w + MaxAttempts (NewRetry config)"
  using retry_loop_bound [of cnt fn env 1 "NewRetry config", OF assms] NewRetry_attempts [of config]
  by (simp add: Retry_ExecuteWithContext_def)

theorem retry_at_most_MaxAttempts_witness:
  "snd (Retry_ExecuteWithContext (\<lambda>x y. Fin 1) (\<lambda>_. 0)
     \<lparr>Now = \<lambda>_. zeroTime, CtxDone = \<lambda>_. None, Sleep = \<lambda>d w. (Waited, w), RandFloat = \<lambda>w. (Fin 0, w)\<rparr>
     (NewRetry DefaultRetryConfig) (\<lambda>w. (Some (FnErr ''x''), w + 1)) (0 :: int)) \<le> 3"
  using retry_at_most_MaxAttempts [of "\<lambda>w :: int. w" "\<lambda>w. (Some (FnErr ''x''), w + 1)"
      "\<lparr>Now = \<lambda>_. zeroTime, CtxDone = \<lambda>_. None, Sleep = \<lambda>d w. (Waited, w), RandFloat = \<lambda>w. (Fin 0, w)\<rparr>"
      "\<lambda>x y. Fin 1" "\<lambda>_. 0" DefaultRetryConfig 0]
  by (simp add: default_attempts)

lemma retry_loop_exhausts:
  fixes cnt :: "'w \<Rightarrow> int"
  assumes "\<And>v. \<exists>e. fst (fn v) = Some e \<and> isRetryable r e"
    and "\<And>v. CtxDone env v = None" and "\<And>d v. fst (Sleep env d v) = Waited"
    and "\<And>v. cnt (snd (fn v)) = cnt v + 1" and "\<And>v. cnt (snd (RandFloat env v)) = cnt v"
    and "\<And>d v. cnt (snd (Sleep env d v)) = cnt v"
  shows "a \<le> MaxAttempts r \<Longrightarrow>
    (\<exists>v. fn v = retry_loop pow conv env r fn a le w)
    \<and> cnt (snd (retry_loop pow conv env r fn a le w)) = cnt w + (MaxAttempts r + 1 - a)"
proof (induction "nat (MaxAttempts r - a)" arbitrary: a le w rule: less_induct)
  case less
  obtain err w1 where w1: "fn w = (Some err, w1)" and retry: "isRetryable r err"
    using assms(1) [of w] by (metis prod.collapse)
  obtain rnd w2 where w2: "RandFloat env w1 = (rnd, w2)" by fastforce
  obtain w3 where w3: "Sleep env (calculateDelay pow conv rnd r a) w2 = (Waited, w3)"
    using assms(3) by (metis prod.collapse)
  have c: "cnt w1 = cnt w + 1" "cnt w2 = cnt w1" "cnt w3 = cnt w2"
    using assms(4) [of w] assms(5) [of w1] assms(6) [of "calculateDelay pow conv rnd r a" w2]
    by (simp_all add: w1 w2 w3)
  show ?case
  proof (cases "a = MaxAttempts r")
    case True
    then have "retry_loop pow conv env r fn a le w = fn w"
      by (subst retry_loop.simps) (simp add: assms(2) w1)
    moreover have "\<exists>v. fn v = (Some err, w1)" using w1 by blast
    ultimately show ?thesis using True c by (simp add: w1)
  next
    case False
    then have "retry_loop pow conv env r fn a le w = retry_loop pow conv env r fn (a + 1) (Some err) w3"
      using less.prems by (subst retry_loop.simps) (simp add: assms(2) w1 w2 w3 retry)
    with False less.hyps [of "a + 1" "Some err" w3] less.prems c show ?thesis by auto
  qed
qed

text \<open>
  C31. When every attempt fails with a retryable error and the context stays alive, the function is
  called exactly \<open>MaxAttempts\<close> times and the result, error and state, is that of its last call.
\<close>
theorem retry_exhausts_attempts:
  fixes cnt :: "'w \<Rightarrow> int"
  assumes "\<And>v. \<exists>e. fst (fn v) = Some e \<and> isRetryable (NewRetry config) e"
    and "\<And>v. CtxDone env v = None" and "\<And>d v. fst (Sleep env d v) = Waited"
    and "\<And>v. cnt (snd (fn v)) = cnt v + 1" and "\<And>v. cnt (snd (RandFloat env v)) = cnt v"
    and "\<And>d v. cnt (snd (Sleep env d v)) = cnt v"
  shows "let out = Retry_ExecuteWithContext pow conv env (NewRetry config) fn w in
      (\<exists>v. fn v = out) \<and> fst out \<noteq> None
      \<and> cnt (snd out) = cnt w + MaxAttempts (NewRetry config)"
proof -
  have "(\<exists>v. fn v = retry_loop pow conv env (NewRetry config) fn 1 None w)
      \<and> cnt (snd (retry_loop pow conv env (NewRetry config) fn 1 None w))
          = cnt w + (MaxAttempts (NewRetry config) + 1 - 1)"
    by (rule retry_loop_exhausts) (use assms NewRetry_attempts in auto)
  then show ?thesis
    using assms(1) unfolding Retry_ExecuteWithContext_def Let_def
    by (metis add_diff_cancel_right' option.distinct(1))
qed

theorem retry_exhausts_attempts_witness:
  "snd (Retry_ExecuteWithContext (\<lambda>x y. Fin 1) (\<lambda>_. 0)
     \<lparr>Now = \<lambda>_. zeroTime, CtxDone = \<lambda>_. None, Sleep = \<lambda>d w. (Waited, w), RandFloat = \<lambda>w. (Fin 0, w)\<rparr>
     (NewRetry DefaultRetryConfig) (\<lambda>w. (Some (FnErr ''x''), w + 1)) (0 :: int)) = 3"
  using retry_exhausts_attempts [of "\<lambda>w. (Some (FnErr ''x''), w + 1)" DefaultRetryConfig
      "\<lparr>Now = \<lambda>_. zeroTime, CtxDone = \<lambda>_. None, Sleep = \<lambda>d w. (Waited, w), RandFloat = \<lambda>w. (Fin 0, w)\<rparr>"
      "\<lambda>w :: int. w" "\<lambda>x y. Fin 1" "\<lambda>_. 0" 0]
  by (simp add: default_attempts isRetryable_def Let_def)

section \<open>The delay\<close>

lemma pow2_0 [simp]: "pow2 0 = 1" and pow2_1 [simp]: "pow2 1 = 2"
  by (simp_all add: pow2_def)




end
