(* ===== verification/Executor.thy ===== *)
theory Executor
  imports CircuitBreaker Bulkhead Retry
begin

text \<open>
  \<open>resilience/executor.go\<close>: the combination of bulkhead, circuit breaker and retry around one
  function, and the registry of executors. The executor's state is a nested pair: its bulkhead and
  breaker (each absent when disabled) around the caller's world.
\<close>

section \<open>Model\<close>

record ExecutorConfig =
  ex_Name :: string
  CircuitBreakerEnabled :: bool
  ex_MaxFailures :: int
  CircuitTimeout :: Duration
  BulkheadEnabled :: bool
  ex_MaxConcurrent :: int
  ex_MaxWaitDuration :: Duration
  RetryEnabled :: bool
  ex_MaxAttempts :: int
  ex_InitialDelay :: Duration
  ex_MaxDelay :: Duration

record Executor =
  exconfig :: ExecutorConfig
  circuitBreaker :: "CircuitBreaker option"
  bulkhead :: "Bulkhead option"
  retry :: "RetryConfig option"

definition DefaultExecutorConfig :: "string \<Rightarrow> ExecutorConfig" where
  "DefaultExecutorConfig name =
     \<lparr>ex_Name = name, CircuitBreakerEnabled = True, ex_MaxFailures = 5, CircuitTimeout = 30 * Second,
      BulkheadEnabled = True, ex_MaxConcurrent = 10, ex_MaxWaitDuration = 0, RetryEnabled = True,
      ex_MaxAttempts = 3, ex_InitialDelay = 100 * Millisecond, ex_MaxDelay = 5 * Second\<rparr>"

definition NewExecutor :: "ExecutorConfig \<Rightarrow> Executor" where
  "NewExecutor config =
     \<lparr>exconfig = config,
      circuitBreaker =
        (if CircuitBreakerEnabled config
         then Some (NewCircuitBreaker
           \<lparr>cb_Name = ex_Name config @ ''-cb'', MaxFailures = ex_MaxFailures config,
            Timeout = CircuitTimeout config, ResetTimeout = 10 * Second\<rparr>)
         else None),
      bulkhead =
        (if BulkheadEnabled config
         then Some (NewBulkhead
           \<lparr>bh_Name = ex_Name config @ ''-bh'', MaxConcurrent = ex_MaxConcurrent config,
            MaxWaitDuration = ex_MaxWaitDuration config\<rparr>)
         else None),
      retry =
        (if RetryEnabled config
         then Some (NewRetry
           \<lparr>MaxAttempts = ex_MaxAttempts config, InitialDelay = ex_InitialDelay config,
            MaxDelay = ex_MaxDelay config, Multiplier = Fin 2, JitterFactor = round64 (1 / 10),
            RetryableErrors = []\<rparr>)
         else None)\<rparr>"

type_synonym 'w exstate = "Bulkhead option \<times> CircuitBreaker option \<times> 'w"

definition with_retry ::
  "(float64 \<Rightarrow> float64 \<Rightarrow> float64) \<Rightarrow> (float64 \<Rightarrow> i64) \<Rightarrow> 'w env \<Rightarrow> RetryConfig option
     \<Rightarrow> 'w action \<Rightarrow> 'w action" where
  "with_retry pow conv env r innerFn =
     (case r of None \<Rightarrow> innerFn | Some r \<Rightarrow> Retry_ExecuteWithContext pow conv env r innerFn)"

definition with_circuitBreaker ::
  "'w env \<Rightarrow> 'w action \<Rightarrow> CircuitBreaker option \<times> 'w \<Rightarrow> rerror option \<times> (CircuitBreaker option \<times> 'w)" where
  "with_circuitBreaker env innerFn s =
     (case s of
        (None, w) \<Rightarrow> (let (err, w') = innerFn w in (err, (None, w')))
      | (Some cb, w) \<Rightarrow>
          (let (err, (cb', w')) = CircuitBreaker_ExecuteWithContext env innerFn (cb, w)
           in (err, (Some cb', w'))))"

definition with_bulkhead ::
  "'v env \<Rightarrow> 'v waiting \<Rightarrow> 'v action \<Rightarrow> Bulkhead option \<times> 'v \<Rightarrow> rerror option \<times> (Bulkhead option \<times> 'v)" where
  "with_bulkhead env wait innerFn s =
     (case s of
        (None, w) \<Rightarrow> (let (err, w') = innerFn w in (err, (None, w')))
      | (Some b, w) \<Rightarrow>
          (let (err, (b', w')) = Bulkhead_ExecuteWithContext env wait innerFn (b, w)
           in (err, (Some b', w'))))"

definition cb_env :: "'w env \<Rightarrow> ('c \<times> 'w) env" where
  \<comment> \<open>the clock, context and generator as seen from inside the bulkhead\<close>
  "cb_env env =
     \<lparr>Now = \<lambda>(c, w). Now env w, CtxDone = \<lambda>(c, w). CtxDone env w,
      Sleep = \<lambda>d (c, w). (let (out, w') = Sleep env d w in (out, (c, w'))),
      RandFloat = \<lambda>(c, w). (let (x, w') = RandFloat env w in (x, (c, w')))\<rparr>"

definition Executor_ExecuteWithContext ::
  "(float64 \<Rightarrow> float64 \<Rightarrow> float64) \<Rightarrow> (float64 \<Rightarrow> i64) \<Rightarrow> 'w env
     \<Rightarrow> (CircuitBreaker option \<times> 'w) waiting \<Rightarrow> RetryConfig option
     \<Rightarrow> 'w action \<Rightarrow> 'w exstate \<Rightarrow> rerror option \<times> 'w exstate" where
  "Executor_ExecuteWithContext pow conv env wait r fn s =
     (let execution = with_retry pow conv env r fn;
          execution = with_circuitBreaker env execution;
          execution = with_bulkhead (cb_env env) wait execution
      in execution s)"

record ExecutorStats =
  es_Name :: string
  es_CircuitBreakerState :: string
  es_CircuitBreakerFailures :: int
  es_BulkheadActive :: int
  es_BulkheadAvailable :: int
  es_BulkheadRejected :: int

definition Executor_Stats :: "Executor \<Rightarrow> ExecutorStats" where
  "Executor_Stats e =
     (let stats = \<lparr>es_Name = ex_Name (exconfig e), es_CircuitBreakerState = '''', es_CircuitBreakerFailures = 0,
                   es_BulkheadActive = 0, es_BulkheadAvailable = 0, es_BulkheadRejected = 0\<rparr>;
          stats = (case circuitBreaker e of None \<Rightarrow> stats
                   | Some cb \<Rightarrow> stats\<lparr>es_CircuitBreakerState := StateName cb,
                                     es_CircuitBreakerFailures := Failures cb\<rparr>)
      in case bulkhead e of None \<Rightarrow> stats
         | Some b \<Rightarrow> (let bhStats = Bulkhead_Stats b
                     in stats\<lparr>es_BulkheadActive := bs_Active bhStats,
                              es_BulkheadAvailable := bs_Available bhStats,
                              es_BulkheadRejected := bs_Rejected bhStats\<rparr>))"

type_synonym ExecutorGroup = "string \<rightharpoonup> Executor"

definition NewExecutorGroup :: ExecutorGroup where
  "NewExecutorGroup = Map.empty"

definition ExecutorGroup_GetOrCreate ::
  "string \<Rightarrow> ExecutorConfig \<Rightarrow> ExecutorGroup \<Rightarrow> Executor \<times> ExecutorGroup" where
  "ExecutorGroup_GetOrCreate name config eg =
     (case eg name of
        Some exec \<Rightarrow> (exec, eg)
      | None \<Rightarrow> (let exec = NewExecutor config in (exec, eg(name \<mapsto> exec))))"

definition ExecutorGroup_Get :: "string \<Rightarrow> ExecutorGroup \<Rightarrow> Executor \<times> ExecutorGroup" where
  "ExecutorGroup_Get name eg =
     (case eg name of
        Some exec \<Rightarrow> (exec, eg)
      | None \<Rightarrow>
          (let config = DefaultExecutorConfig name; exec = NewExecutor config
           in (exec, eg(name \<mapsto> exec))))"

definition ExecutorGroup_AllStats :: "string list \<Rightarrow> ExecutorGroup \<Rightarrow> ExecutorStats list" where
  "ExecutorGroup_AllStats order eg = List.map_filter (\<lambda>k. map_option Executor_Stats (eg k)) order"

interpretation executor_group: registry ExecutorGroup_GetOrCreate "\<lambda>name config. NewExecutor config"
  by unfold_locales (simp_all add: ExecutorGroup_GetOrCreate_def Let_def)

interpretation executor_defaults: registry
  "\<lambda>name (u :: unit). ExecutorGroup_Get name" "\<lambda>name u. NewExecutor (DefaultExecutorConfig name)"
  by unfold_locales (simp_all add: ExecutorGroup_Get_def Let_def)

section \<open>The layers keep the contract\<close>

definition executor_errors :: "rerror set" where
  "executor_errors =
     {ErrCircuitOpen, ErrTooManyRequests, ErrBulkheadFull, ErrBulkheadTimeout} \<union> range CtxErr"

lemma with_retry_of:
  assumes "\<And>config. protection (Retry_ExecuteWithContext pow conv env (NewRetry config)) (\<lambda>w. w) own"
  shows "protection (with_retry pow conv env (map_option NewRetry rc)) (\<lambda>w. w) own"
proof (cases rc)
  case None
  then show ?thesis by unfold_locales (auto simp: with_retry_def)
next
  case (Some config)
  then have "with_retry pow conv env (map_option NewRetry rc) =
      Retry_ExecuteWithContext pow conv env (NewRetry config)"
    by (intro ext) (simp add: with_retry_def)
  then show ?thesis by (simp add: assms)
qed

lemma with_circuitBreaker_protection:
  "protection (with_circuitBreaker env) snd {ErrCircuitOpen, ErrTooManyRequests}"
proof
  fix fn :: "'a action" and s s'
  assume "with_circuitBreaker env fn s = (None, s')"
  then show "\<exists>w. fn w = (None, snd s')"
    using cb_protection.exec_nil [of env fn]
    by (force simp: with_circuitBreaker_def split: option.splits prod.splits)
next
  fix fn :: "'a action" and s e s'
  assume "with_circuitBreaker env fn s = (Some e, s')"
  then show "e \<in> {ErrCircuitOpen, ErrTooManyRequests} \<or> (\<exists>w w'. fn w = (Some e, w'))"
    using cb_protection.exec_error [of env fn]
    by (force simp: with_circuitBreaker_def split: option.splits prod.splits)
qed

lemma with_bulkhead_of:
  assumes "protection (Bulkhead_ExecuteWithContext env wait) snd own"
  shows "protection (with_bulkhead env wait) snd own"
proof
  fix fn :: "'a action" and s s'
  assume "with_bulkhead env wait fn s = (None, s')"
  then show "\<exists>w. fn w = (None, snd s')"
    using protection.exec_nil [OF assms, of fn]
    by (force simp: with_bulkhead_def split: option.splits prod.splits)
next
  fix fn :: "'a action" and s e s'
  assume "with_bulkhead env wait fn s = (Some e, s')"
  then show "e \<in> own \<or> (\<exists>w w'. fn w = (Some e, w'))"
    using protection.exec_error [OF assms, of fn]
    by (force simp: with_bulkhead_def split: option.splits prod.splits)
qed

lemma executor_layers:
  assumes "protection (Bulkhead_ExecuteWithContext (cb_env env) wait) snd outer"
    and "\<And>config. protection (Retry_ExecuteWithContext pow conv env (NewRetry config)) (\<lambda>w. w) inner"
  shows "protection (Executor_ExecuteWithContext pow conv env wait (map_option NewRetry rc)) (\<lambda>s. snd (snd s))
           (outer \<union> ({ErrCircuitOpen, ErrTooManyRequests} \<union> inner))"
proof -
  have "Executor_ExecuteWithContext pow conv env wait (map_option NewRetry rc) =
      (\<lambda>fn. with_bulkhead (cb_env env) wait
          (with_circuitBreaker env (with_retry pow conv env (map_option NewRetry rc) fn)))"
    by (intro ext) (simp add: Executor_ExecuteWithContext_def Let_def)
  then show ?thesis
    using protection_compose [OF with_bulkhead_of [OF assms(1)]
        protection_compose [OF with_circuitBreaker_protection with_retry_of [OF assms(2)]]] by simp
qed

interpretation ex_protection: protection
  "Executor_ExecuteWithContext pow conv env wait (map_option NewRetry rc)" "\<lambda>s. snd (snd s)" executor_errors
  using executor_layers [OF bh_protection.protection_axioms retry_protection.protection_axioms]
  by (simp add: executor_errors_def insert_commute Un_commute)

definition Executor_Execute ::
  "(float64 \<Rightarrow> float64 \<Rightarrow> float64) \<Rightarrow> (float64 \<Rightarrow> i64) \<Rightarrow> 'w env
     \<Rightarrow> (CircuitBreaker option \<times> 'w) waiting \<Rightarrow> RetryConfig option
     \<Rightarrow> 'w action \<Rightarrow> 'w exstate \<Rightarrow> rerror option \<times> 'w exstate" where
  \<comment> \<open>the environment and the waiting are those of \<open>context.Background()\<close>\<close>
  "Executor_Execute pow conv env wait r fn = Executor_ExecuteWithContext pow conv env wait r fn"

lemma executor_background:
  assumes "never_done env" and "never_cancelled wait"
  shows "protection (Executor_Execute pow conv env wait (map_option NewRetry rc)) (\<lambda>s. snd (snd s))
           {ErrCircuitOpen, ErrTooManyRequests, ErrBulkheadFull, ErrBulkheadTimeout}"
proof -
  have "Executor_Execute pow conv env wait (map_option NewRetry rc) =
      Executor_ExecuteWithContext pow conv env wait (map_option NewRetry rc)"
    by (intro ext) (simp add: Executor_Execute_def)
  moreover have "Bulkhead_Execute (cb_env env) wait = Bulkhead_ExecuteWithContext (cb_env env) wait"
    by (intro ext) (simp add: Bulkhead_Execute_def)
  moreover have "Retry_Execute pow conv env (NewRetry c) = Retry_ExecuteWithContext pow conv env (NewRetry c)" for c
    by (intro ext) (simp add: Retry_Execute_def)
  ultimately show ?thesis
    using executor_layers [where env = env and pow = pow and conv = conv and wait = wait and inner = "{}"
        and outer = "{ErrBulkheadFull, ErrBulkheadTimeout}" and rc = rc]
      bulkhead_background [OF assms(2), of "cb_env env"] retry_background [OF assms(1), of pow conv]
    by (simp add: insert_commute)
qed

lemma protected_outcome:
  assumes "protection exec (\<lambda>s. snd (snd s)) own"
  shows "case exec fn s of
      (None, (b, cb, w')) \<Rightarrow> \<exists>w. fn w = (None, w')
    | (Some e, (b, cb, w')) \<Rightarrow> e \<in> own \<or> (\<exists>v v'. fn v = (Some e, v'))"
  using protection.exec_nil [OF assms, of fn s] protection.exec_error [OF assms, of fn s]
  by (force split: prod.splits option.splits)

lemma retry_of_NewExecutor: "\<exists>rc. retry (NewExecutor config) = map_option NewRetry rc"
proof (cases "RetryEnabled config")
  case True
  then show ?thesis by (auto simp: NewExecutor_def intro!: exI [of _ "Some _"])
next
  case False
  then show ?thesis by (auto simp: NewExecutor_def intro!: exI [of _ None])
qed

text \<open>
  C30. The combined executor never turns a failure into a success: a nil result means the last run
  of the function itself returned nil and left the caller's world as it is, and every error is the
  function's own or one of the six the layers define. \<open>Execute\<close>, which runs under a context that is
  never done, adds only the four errors of the breaker and the bulkhead.
\<close>
theorem executor_faithful:
  "(case Executor_ExecuteWithContext pow conv env wait (retry (NewExecutor config)) fn s of
      (None, (b, cb, w')) \<Rightarrow> \<exists>w. fn w = (None, w')
    | (Some e, (b, cb, w')) \<Rightarrow> e \<in> executor_errors \<or> (\<exists>v v'. fn v = (Some e, v')))
   \<and> (never_done env \<and> never_cancelled wait \<longrightarrow>
        (case Executor_Execute pow conv env wait (retry (NewExecutor config)) fn s of
           (None, (b, cb, w')) \<Rightarrow> \<exists>w. fn w = (None, w')
         | (Some e, (b, cb, w')) \<Rightarrow>
             e \<in> {ErrCircuitOpen, ErrTooManyRequests, ErrBulkheadFull, ErrBulkheadTimeout} \<or> (\<exists>v v'. fn v = (Some e, v'))))"
proof -
  obtain rc where rc: "retry (NewExecutor config) = map_option NewRetry rc"
    using retry_of_NewExecutor by blast
  show ?thesis unfolding rc
  proof (intro conjI impI)
    assume "never_done env \<and> never_cancelled wait"
    then show "case Executor_Execute pow conv env wait (map_option NewRetry rc) fn s of
        (None, (b, cb, w')) \<Rightarrow> \<exists>w. fn w = (None, w')
      | (Some e, (b, cb, w')) \<Rightarrow>
          e \<in> {ErrCircuitOpen, ErrTooManyRequests, ErrBulkheadFull, ErrBulkheadTimeout} \<or> (\<exists>v v'. fn v = (Some e, v'))"
      by (intro protected_outcome executor_background) simp_all
  qed (rule protected_outcome [OF ex_protection.protection_axioms])
qed

definition sample_env :: "nat env" where
  "sample_env = \<lparr>Now = \<lambda>_. Time 7, CtxDone = \<lambda>_. None, Sleep = \<lambda>d w. (Waited, w), RandFloat = \<lambda>w. (Fin 0, w)\<rparr>"

theorem executor_faithful_witness:
  "fst (Executor_Execute (\<lambda>x y. Fin 1) (\<lambda>_. 0) sample_env (\<lambda>d b w. (TimedOut, b, w))
      (retry (NewExecutor (DefaultExecutorConfig ''db''))) (\<lambda>w. (Some (FnErr ''down''), w + 1)) (None, None, 0))
   \<in> {Some ErrCircuitOpen, Some ErrTooManyRequests, Some ErrBulkheadFull, Some ErrBulkheadTimeout, Some (FnErr ''down'')}"
proof -
  have "never_done sample_env" "never_cancelled (\<lambda>d b (w :: CircuitBreaker option \<times> nat). (TimedOut, b, w))"
    by (simp_all add: never_done_def never_cancelled_def sample_env_def)
  with executor_faithful [where pow = "\<lambda>x y. Fin 1" and conv = "\<lambda>_. 0" and env = sample_env
      and wait = "\<lambda>d b w. (TimedOut, b, w)" and config = "DefaultExecutorConfig ''db''"
      and fn = "\<lambda>w. (Some (FnErr ''down''), w + 1)" and s = "(None, None, 0)"]
  show ?thesis by (auto split: prod.splits option.splits)
qed

text \<open>
  The bulkhead is outermost and retry innermost: while the breaker is open within its timeout,
  a call with a free slot returns \<open>ErrCircuitOpen\<close> without running the function, the world and
  the breaker are unchanged, and the slot is given back.
\<close>
theorem executor_open_breaker:
  assumes "state cb = StateOpen" and "\<not> Timeout (cbconfig cb) < SubT (Now env w) (lastFailTime cb)"
    and "\<not> full b" and "MaxWaitDuration (bhconfig b) = 0"
  shows "Executor_ExecuteWithContext pow conv env wait r fn (Some b, Some cb, w) =
           (Some ErrCircuitOpen, (Some (b\<lparr>totalCalls := totalCalls b + 1\<rparr>), Some cb, w))"
proof -
  have "beforeRequest (Now env w) cb = (Some ErrCircuitOpen, cb)"
    using assms(1,2) by (simp add: beforeRequest_def)
  moreover have "\<not> full (b\<lparr>totalCalls := totalCalls b + 1\<rparr>)" using assms(3) by (simp add: full_def)
  ultimately show ?thesis
    using assms(4)
    by (simp add: Executor_ExecuteWithContext_def with_bulkhead_def with_circuitBreaker_def
        Bulkhead_ExecuteWithContext_def bh_acquire_def bh_release_def cb_Execute_rejected Let_def)
qed

theorem executor_open_breaker_witness:
  "fst (Executor_ExecuteWithContext (\<lambda>x y. Fin 1) (\<lambda>_. 0)
     \<lparr>Now = \<lambda>_. Time 7, CtxDone = \<lambda>_. None, Sleep = \<lambda>d w. (Waited, w), RandFloat = \<lambda>w. (Fin 0, w)\<rparr>
     (\<lambda>d b w. (TimedOut, b, w)) None (\<lambda>w :: nat. (None, w + 1))
     (Some (NewBulkhead (DefaultBulkheadConfig ''db'')),
      Some ((NewCircuitBreaker (DefaultCircuitBreakerConfig ''db''))\<lparr>state := StateOpen, lastFailTime := Time 5\<rparr>), 0))
   = Some ErrCircuitOpen"
  by (subst executor_open_breaker)
    (simp_all add: NewCircuitBreaker_def DefaultCircuitBreakerConfig_def NewBulkhead_def
      DefaultBulkheadConfig_def full_def SubT_def duration_units i64_limits)

text \<open>
  An executor group creates one executor per name and keeps it, also when later requests pass
  another configuration or use \<open>Get\<close>.
\<close>
theorem ExecutorGroup_stable:
  "fst (ExecutorGroup_GetOrCreate name c' (executor_group.gets rs (snd (ExecutorGroup_GetOrCreate name c eg))))
     = fst (ExecutorGroup_GetOrCreate name c eg)
   \<and> ExecutorGroup_Get name (snd (ExecutorGroup_GetOrCreate name c eg)) = ExecutorGroup_GetOrCreate name c eg"
  using executor_group.get_stable executor_group.get_stored [of name c eg]
  by (simp add: ExecutorGroup_Get_def prod_eq_iff)

end
