(* ===== verification/RedisLock.thy ===== *)
theory RedisLock
  imports ResilienceCore
begin

text \<open>
  \<open>lock/redis_lock.go\<close>: a lock that several processes take through one Redis server. The server
  is a parameter: a record of the commands the code and its Lua scripts issue, over a server state
  of any type, with the documented behaviour of these commands as the predicate \<open>redis_laws\<close>.
  \<open>link\<close> says what the network does to the next request: nothing, a failure before it reached the
  server, or a failure after the server executed it. \<open>uuid\<close> is the text \<open>uuid.New().String()\<close>
  returned.
\<close>

section \<open>The server\<close>

datatype link = Delivered | LostBefore string | LostAfter string

record 'r redis =
  rnow :: "'r \<Rightarrow> Time"
  rlookup :: "'r \<Rightarrow> string \<Rightarrow> (string \<times> Time) option"
    \<comment> \<open>the live keys with their value and the time they expire at\<close>
  rsetnx :: "string \<Rightarrow> string \<Rightarrow> Duration \<Rightarrow> 'r \<Rightarrow> bool \<times> 'r"
  rdel :: "string \<Rightarrow> 'r \<Rightarrow> int \<times> 'r"
  rpexpire :: "string \<Rightarrow> int \<Rightarrow> 'r \<Rightarrow> int \<times> 'r"
  radvance :: "Duration \<Rightarrow> 'r \<Rightarrow> 'r"
    \<comment> \<open>time passes and expired keys disappear\<close>
  rlink :: "'r \<Rightarrow> link"

definition setnx_spec :: "'r redis \<Rightarrow> 'r \<Rightarrow> string \<Rightarrow> string \<Rightarrow> Duration \<Rightarrow> bool" where
  "setnx_spec R r k v ttl \<longleftrightarrow>
     (let (ok, r') = rsetnx R k v ttl r in
      rnow R r' = rnow R r \<and> ok = (rlookup R r k = None)
      \<and> rlookup R r' = (if rlookup R r k = None then (rlookup R r)(k \<mapsto> (v, AddT (rnow R r) ttl))
                        else rlookup R r))"

definition del_spec :: "'r redis \<Rightarrow> 'r \<Rightarrow> string \<Rightarrow> bool" where
  "del_spec R r k \<longleftrightarrow>
     (let (n, r') = rdel R k r in
      rnow R r' = rnow R r \<and> n = (if rlookup R r k = None then 0 else 1)
      \<and> rlookup R r' = (rlookup R r)(k := None))"

definition pexpire_spec :: "'r redis \<Rightarrow> 'r \<Rightarrow> string \<Rightarrow> int \<Rightarrow> bool" where
  "pexpire_spec R r k ms \<longleftrightarrow>
     (let (n, r') = rpexpire R k ms r in
      rnow R r' = rnow R r \<and> n = (if rlookup R r k = None then 0 else 1)
      \<and> rlookup R r' = (case rlookup R r k of
           None \<Rightarrow> rlookup R r
         | Some (v, t) \<Rightarrow> (rlookup R r)
             (k := if 0 < ms then Some (v, AddT (rnow R r) (ms * Millisecond)) else None)))"

definition advance_spec :: "'r redis \<Rightarrow> 'r \<Rightarrow> Duration \<Rightarrow> bool" where
  "advance_spec R r d \<longleftrightarrow>
     rnow R (radvance R d r) = AddT (rnow R r) d
     \<and> rlookup R (radvance R d r) =
         (\<lambda>k. case rlookup R r k of
                Some (v, t) \<Rightarrow> if AddT (rnow R r) d < t then Some (v, t) else None
              | None \<Rightarrow> None)"

definition redis_laws :: "'r redis \<Rightarrow> bool" where
  "redis_laws R \<longleftrightarrow>
     (\<forall>r k v ttl. 0 < ttl \<longrightarrow> setnx_spec R r k v ttl) \<and> (\<forall>r k. del_spec R r k)
     \<and> (\<forall>r k ms. pexpire_spec R r k ms) \<and> (\<forall>r d. 0 \<le> d \<longrightarrow> advance_spec R r d)"

section \<open>Model\<close>

datatype lock_error =
    ErrLockNotAcquired
  | ErrLockNotHeld
  | RedisError string
  | LockCtx string
  | LockFn string

record RedisLock =
  lkey :: string
  lvalue :: string
  lttl :: Duration

definition NewRedisLock :: "string \<Rightarrow> string \<Rightarrow> Duration \<Rightarrow> RedisLock" where
  "NewRedisLock uuid key ttl = \<lparr>lkey = ''lock:'' @ key, lvalue = uuid, lttl = ttl\<rparr>"

definition request :: "'r redis \<Rightarrow> ('r \<Rightarrow> 'a \<times> 'r) \<Rightarrow> 'r \<Rightarrow> (lock_error + 'a) \<times> 'r" where
  \<comment> \<open>a command through the client: its result, or the error wrapped as \<open>redis error\<close>\<close>
  "request R cmd r =
     (case rlink R r of
        Delivered \<Rightarrow> (let (x, r') = cmd r in (Inr x, r'))
      | LostBefore e \<Rightarrow> (Inl (RedisError e), r)
      | LostAfter e \<Rightarrow> (let (x, r') = cmd r in (Inl (RedisError e), r')))"

definition TryAcquire :: "'r redis \<Rightarrow> RedisLock \<Rightarrow> 'r \<Rightarrow> (lock_error + bool) \<times> 'r" where
  "TryAcquire R l r = request R (rsetnx R (lkey l) (lvalue l) (lttl l)) r"

fun AcquireWithRetry ::
  "'r redis \<Rightarrow> ('r \<Rightarrow> wait_outcome \<times> 'r) \<Rightarrow> RedisLock \<Rightarrow> nat \<Rightarrow> 'r \<Rightarrow> lock_error option \<times> 'r" where
  \<comment> \<open>\<open>wait\<close> is the \<open>select\<close> between the context and \<open>time.After(retryDelay)\<close>; other processes
     may use the server meanwhile\<close>
  "AcquireWithRetry R wait l 0 r = (Some ErrLockNotAcquired, r)"
| "AcquireWithRetry R wait l (Suc n) r =
     (case request R (rsetnx R (lkey l) (lvalue l) (lttl l)) r of
        (Inl e, r) \<Rightarrow> (Some e, r)
      | (Inr ok, r) \<Rightarrow>
          if ok then (None, r)
          else (case wait r of
                  (Cancelled e, r) \<Rightarrow> (Some (LockCtx e), r)
                | (Waited, r) \<Rightarrow> AcquireWithRetry R wait l n r))"

definition Acquire ::
  "'r redis \<Rightarrow> ('r \<Rightarrow> wait_outcome \<times> 'r) \<Rightarrow> RedisLock \<Rightarrow> 'r \<Rightarrow> lock_error option \<times> 'r" where
  "Acquire R wait l r = AcquireWithRetry R wait l 10 r"

definition release_script :: "'r redis \<Rightarrow> string \<Rightarrow> string \<Rightarrow> 'r \<Rightarrow> int \<times> 'r" where
  "release_script R k v r =
     (if map_option fst (rlookup R r k) = Some v then rdel R k r else (0, r))"

definition Release :: "'r redis \<Rightarrow> RedisLock \<Rightarrow> 'r \<Rightarrow> lock_error option \<times> 'r" where
  "Release R l r =
     (case request R (release_script R (lkey l) (lvalue l)) r of
        (Inl e, r') \<Rightarrow> (Some e, r')
      | (Inr n, r') \<Rightarrow> if n = 0 then (Some ErrLockNotHeld, r') else (None, r'))"

definition extend_script :: "'r redis \<Rightarrow> string \<Rightarrow> string \<Rightarrow> int \<Rightarrow> 'r \<Rightarrow> int \<times> 'r" where
  "extend_script R k v ms r =
     (if map_option fst (rlookup R r k) = Some v then rpexpire R k ms r else (0, r))"

definition Milliseconds :: "Duration \<Rightarrow> int" where
  "Milliseconds d = trunc_div d Millisecond"

definition Extend :: "'r redis \<Rightarrow> RedisLock \<Rightarrow> Duration \<Rightarrow> 'r \<Rightarrow> lock_error option \<times> 'r" where
  "Extend R l extension r =
     (case request R (extend_script R (lkey l) (lvalue l) (Milliseconds extension)) r of
        (Inl e, r') \<Rightarrow> (Some e, r')
      | (Inr n, r') \<Rightarrow> if n = 0 then (Some ErrLockNotHeld, r') else (None, r'))"

definition WithLockResult ::
  "'r redis \<Rightarrow> ('r \<Rightarrow> wait_outcome \<times> 'r) \<Rightarrow> string \<Rightarrow> string \<Rightarrow> Duration
     \<Rightarrow> 'a \<Rightarrow> ('r \<Rightarrow> ('a \<times> lock_error option) \<times> 'r) \<Rightarrow> 'r \<Rightarrow> ('a \<times> lock_error option) \<times> 'r" where
  "WithLockResult R wait uuid key ttl zero fn r =
     (let l = NewRedisLock uuid key ttl
      in case Acquire R wait l r of
           (Some e, r) \<Rightarrow> ((zero, Some e), r)
         | (None, r) \<Rightarrow> (let (out, r) = fn r; (_, r) = Release R l r in (out, r)))"

definition WithLock ::
  "'r redis \<Rightarrow> ('r \<Rightarrow> wait_outcome \<times> 'r) \<Rightarrow> string \<Rightarrow> string \<Rightarrow> Duration
     \<Rightarrow> ('r \<Rightarrow> lock_error option \<times> 'r) \<Rightarrow> 'r \<Rightarrow> lock_error option \<times> 'r" where
  "WithLock R wait uuid key ttl fn r =
     (let l = NewRedisLock uuid key ttl
      in case Acquire R wait l r of
           (Some e, r) \<Rightarrow> (Some e, r)
         | (None, r) \<Rightarrow> (let (err, r) = fn r; (_, r) = Release R l r in (err, r)))"

definition LockWithTTL ::
  "'r redis \<Rightarrow> ('r \<Rightarrow> wait_outcome \<times> 'r) \<Rightarrow> string \<Rightarrow> string \<Rightarrow> Duration \<Rightarrow> 'r
     \<Rightarrow> (lock_error + RedisLock) \<times> 'r" where
  "LockWithTTL R wait uuid key ttl r =
     (let l = NewRedisLock uuid key ttl
      in case Acquire R wait l r of
           (Some e, r) \<Rightarrow> (Inl e, r)
         | (None, r) \<Rightarrow> (Inr l, r))"

definition Manager_Lock ::
  "'r redis \<Rightarrow> ('r \<Rightarrow> wait_outcome \<times> 'r) \<Rightarrow> Duration \<Rightarrow> string \<Rightarrow> string \<Rightarrow> 'r
     \<Rightarrow> (lock_error + RedisLock) \<times> 'r" where
  "Manager_Lock R wait defaultTTL uuid key r = LockWithTTL R wait uuid key defaultTTL r"

definition TryLock ::
  "'r redis \<Rightarrow> Duration \<Rightarrow> string \<Rightarrow> string \<Rightarrow> 'r \<Rightarrow> (RedisLock option \<times> bool \<times> lock_error option) \<times> 'r" where
  "TryLock R defaultTTL uuid key r =
     (let l = NewRedisLock uuid key defaultTTL
      in case TryAcquire R l r of
           (Inl e, r) \<Rightarrow> ((None, False, Some e), r)
         | (Inr acquired, r) \<Rightarrow>
             if \<not> acquired then ((None, False, None), r) else ((Some l, True, None), r))"

definition Manager_WithLock ::
  "'r redis \<Rightarrow> ('r \<Rightarrow> wait_outcome \<times> 'r) \<Rightarrow> Duration \<Rightarrow> string \<Rightarrow> string
     \<Rightarrow> ('r \<Rightarrow> lock_error option \<times> 'r) \<Rightarrow> 'r \<Rightarrow> lock_error option \<times> 'r" where
  "Manager_WithLock R wait defaultTTL uuid key fn r = WithLock R wait uuid key defaultTTL fn r"

section \<open>What the commands do to the server\<close>

lemma setnx_law:
  assumes "redis_laws R" and "0 < ttl" and "rsetnx R k v ttl r = (ok, r')"
  shows "rnow R r' = rnow R r" and "ok = (rlookup R r k = None)"
    and "rlookup R r' = (if rlookup R r k = None then (rlookup R r)(k \<mapsto> (v, AddT (rnow R r) ttl))
                         else rlookup R r)"
proof -
  have "setnx_spec R r k v ttl" using assms(1,2) by (simp add: redis_laws_def)
  then show "rnow R r' = rnow R r" and "ok = (rlookup R r k = None)"
    and "rlookup R r' = (if rlookup R r k = None then (rlookup R r)(k \<mapsto> (v, AddT (rnow R r) ttl))
                         else rlookup R r)"
    by (simp_all add: setnx_spec_def assms(3))
qed

lemma del_law:
  assumes "redis_laws R" and "rdel R k r = (n, r')"
  shows "rnow R r' = rnow R r" and "n = (if rlookup R r k = None then 0 else 1)"
    and "rlookup R r' = (rlookup R r)(k := None)"
proof -
  have "del_spec R r k" using assms(1) by (simp add: redis_laws_def)
  then show "rnow R r' = rnow R r" and "n = (if rlookup R r k = None then 0 else 1)"
    and "rlookup R r' = (rlookup R r)(k := None)"
    by (simp_all add: del_spec_def assms(2))
qed

lemma pexpire_law:
  assumes "redis_laws R" and "rpexpire R k ms r = (n, r')" and "rlookup R r k = Some (v, t)"
  shows "rnow R r' = rnow R r" and "n = 1"
    and "rlookup R r' =
           (rlookup R r)(k := if 0 < ms then Some (v, AddT (rnow R r) (ms * Millisecond)) else None)"
proof -
  have "pexpire_spec R r k ms" using assms(1) by (simp add: redis_laws_def)
  then show "rnow R r' = rnow R r" and "n = 1"
    and "rlookup R r' =
           (rlookup R r)(k := if 0 < ms then Some (v, AddT (rnow R r) (ms * Millisecond)) else None)"
    by (simp_all add: pexpire_spec_def assms(2,3))
qed

lemma advance_law:
  assumes "redis_laws R" and "0 \<le> d"
  shows "rnow R (radvance R d r) = AddT (rnow R r) d"
    and "rlookup R (radvance R d r) k =
           (case rlookup R r k of
              Some (v, t) \<Rightarrow> if AddT (rnow R r) d < t then Some (v, t) else None
            | None \<Rightarrow> None)"
proof -
  have *: "advance_spec R r d" using assms by (simp add: redis_laws_def)
  then show "rnow R (radvance R d r) = AddT (rnow R r) d" by (simp add: advance_spec_def)
  from * show "rlookup R (radvance R d r) k =
           (case rlookup R r k of
              Some (v, t) \<Rightarrow> if AddT (rnow R r) d < t then Some (v, t) else None
            | None \<Rightarrow> None)" by (simp add: advance_spec_def)
qed

lemma request_Inr: "request R cmd r = (Inr x, r') \<longleftrightarrow> rlink R r = Delivered \<and> cmd r = (x, r')"
  by (auto simp: request_def Let_def split: link.splits prod.splits)

lemma request_state: "request R cmd r = (out, r') \<Longrightarrow> r' = r \<or> r' = snd (cmd r)"
  by (auto simp: request_def Let_def split: link.splits prod.splits)

lemma TryAcquire_ok:
  assumes "redis_laws R" and "0 < lttl l" and "TryAcquire R l r = (Inr True, r')"
  shows "rlookup R r (lkey l) = None" and "rnow R r' = rnow R r"
    and "rlookup R r' = (rlookup R r)(lkey l \<mapsto> (lvalue l, AddT (rnow R r) (lttl l)))"
  using assms setnx_law [OF assms(1,2), of "lkey l" "lvalue l" r True r']
  by (auto simp: TryAcquire_def request_Inr)

lemma release_script_law:
  assumes "redis_laws R" and "release_script R k v r = (n, r')"
  shows "rnow R r' = rnow R r"
    and "rlookup R r' = (if map_option fst (rlookup R r k) = Some v then (rlookup R r)(k := None) else rlookup R r)"
    and "n = (if map_option fst (rlookup R r k) = Some v then 1 else 0)"
proof (atomize (full), cases "map_option fst (rlookup R r k) = Some v")
  case True
  then have "rdel R k r = (n, r')" "rlookup R r k \<noteq> None"
    using assms(2) by (auto simp: release_script_def)
  with del_law [OF assms(1) this(1)] True show "rnow R r' = rnow R r \<and>
      rlookup R r' = (if map_option fst (rlookup R r k) = Some v then (rlookup R r)(k := None) else rlookup R r) \<and>
      n = (if map_option fst (rlookup R r k) = Some v then 1 else 0)" by simp
next
  case False
  then have "n = 0" "r' = r" using assms(2) by (auto simp: release_script_def)
  with False show "rnow R r' = rnow R r \<and>
      rlookup R r' = (if map_option fst (rlookup R r k) = Some v then (rlookup R r)(k := None) else rlookup R r) \<and>
      n = (if map_option fst (rlookup R r k) = Some v then 1 else 0)" by simp
qed

lemma extend_script_law:
  assumes "redis_laws R" and "extend_script R k v ms r = (n, r')"
  shows "rnow R r' = rnow R r"
    and "rlookup R r' = (if map_option fst (rlookup R r k) = Some v
           then (rlookup R r)(k := if 0 < ms then Some (v, AddT (rnow R r) (ms * Millisecond)) else None)
           else rlookup R r)"
    and "n = (if map_option fst (rlookup R r k) = Some v then 1 else 0)"
proof (atomize (full), cases "map_option fst (rlookup R r k) = Some v")
  case True
  then obtain t where t: "rlookup R r k = Some (v, t)" by auto
  with assms(2) have "rpexpire R k ms r = (n, r')" by (simp add: extend_script_def)
  from pexpire_law [OF assms(1) this t] t show "rnow R r' = rnow R r \<and>
      rlookup R r' = (if map_option fst (rlookup R r k) = Some v
           then (rlookup R r)(k := if 0 < ms then Some (v, AddT (rnow R r) (ms * Millisecond)) else None)
           else rlookup R r) \<and> n = (if map_option fst (rlookup R r k) = Some v then 1 else 0)" by simp
next
  case False
  then have "n = 0" "r' = r" using assms(2) by (auto simp: extend_script_def)
  with False show "rnow R r' = rnow R r \<and>
      rlookup R r' = (if map_option fst (rlookup R r k) = Some v
           then (rlookup R r)(k := if 0 < ms then Some (v, AddT (rnow R r) (ms * Millisecond)) else None)
           else rlookup R r) \<and> n = (if map_option fst (rlookup R r k) = Some v then 1 else 0)" by simp
qed

section \<open>Mutual exclusion\<close>

text \<open>
  Any number of lock handles use the server. \<open>lease\<close> is what a handle's owner may rely on: a
  successful acquire or extend gives a lease of the requested length from the server's time,
  a release or a failed extend ends it. Network failures may hit any request, also after the server
  executed it.
\<close>

record 'r lock_sys =
  srv :: 'r
  lease :: "nat \<Rightarrow> Time option"

inductive lock_step :: "'r redis \<Rightarrow> (nat \<Rightarrow> RedisLock) \<Rightarrow> 'r lock_sys \<Rightarrow> 'r lock_sys \<Rightarrow> bool"
  for R :: "'r redis" and L :: "nat \<Rightarrow> RedisLock" where
  acquire: "TryAcquire R (L i) (srv s) = (out, r') \<Longrightarrow>
    lock_step R L s (s\<lparr>srv := r', lease := (if out = Inr True
      then (lease s)(i \<mapsto> AddT (rnow R (srv s)) (lttl (L i))) else lease s)\<rparr>)"
| release: "Release R (L i) (srv s) = (out, r') \<Longrightarrow>
    lock_step R L s (s\<lparr>srv := r', lease := (lease s)(i := None)\<rparr>)"
| extend: "Extend R (L i) ext (srv s) = (out, r') \<Longrightarrow>
    lock_step R L s (s\<lparr>srv := r', lease := (lease s)(i := if out = None
      then Some (AddT (rnow R (srv s)) (Milliseconds ext * Millisecond)) else None)\<rparr>)"
| pass: "0 \<le> d \<Longrightarrow> lock_step R L s (s\<lparr>srv := radvance R d (srv s)\<rparr>)"

inductive lock_reachable :: "'r redis \<Rightarrow> (nat \<Rightarrow> RedisLock) \<Rightarrow> 'r lock_sys \<Rightarrow> bool"
  for R :: "'r redis" and L :: "nat \<Rightarrow> RedisLock" where
  init: "lock_reachable R L \<lparr>srv = r, lease = \<lambda>_. None\<rparr>"
| step: "lock_reachable R L s \<Longrightarrow> lock_step R L s t \<Longrightarrow> lock_reachable R L t"

definition lease_ok :: "'r redis \<Rightarrow> RedisLock \<Rightarrow> 'r \<Rightarrow> Time option \<Rightarrow> bool" where
  "lease_ok R l r le \<longleftrightarrow>
     (\<forall>t. le = Some t \<longrightarrow> rnow R r < t \<longrightarrow> (\<exists>u\<ge>t. rlookup R r (lkey l) = Some (lvalue l, u)))"

lemma lease_ok_None [simp]: "lease_ok R l r None"
  by (simp add: lease_ok_def)

lemma lease_ok_keep:
  assumes "lease_ok R l r le" and "rnow R r' = rnow R r"
    and "\<And>u. rlookup R r (lkey l) = Some (lvalue l, u) \<Longrightarrow> rlookup R r' (lkey l) = Some (lvalue l, u)"
  shows "lease_ok R l r' le"
  using assms unfolding lease_ok_def by metis

lemma TryAcquire_keeps:
  assumes "redis_laws R" and "0 < lttl l" and "TryAcquire R l r = (out, r')"
  shows "rnow R r' = rnow R r" and "rlookup R r k = Some x \<Longrightarrow> rlookup R r' k = Some x"
proof -
  obtain ok r1 where c: "rsetnx R (lkey l) (lvalue l) (lttl l) r = (ok, r1)" by fastforce
  have "r' = r \<or> r' = r1"
    using request_state [of R _ r out r'] assms(3) c unfolding TryAcquire_def by fastforce
  then show "rnow R r' = rnow R r" "rlookup R r k = Some x \<Longrightarrow> rlookup R r' k = Some x"
    using setnx_law [OF assms(1,2) c] by auto
qed

lemma Release_cases:
  assumes "redis_laws R" and "Release R l r = (out, r')"
  shows "rnow R r' = rnow R r" and "rlookup R r k = Some (v, u) \<Longrightarrow> v \<noteq> lvalue l \<Longrightarrow> rlookup R r' k = Some (v, u)"
proof -
  obtain n r1 where c: "release_script R (lkey l) (lvalue l) r = (n, r1)" by fastforce
  have "r' = r \<or> r' = r1"
    using request_state [of R "release_script R (lkey l) (lvalue l)" r _ r'] assms(2) c
    unfolding Release_def by (auto split: prod.splits sum.splits if_splits)
  then show "rnow R r' = rnow R r"
    "rlookup R r k = Some (v, u) \<Longrightarrow> v \<noteq> lvalue l \<Longrightarrow> rlookup R r' k = Some (v, u)"
    using release_script_law [OF assms(1) c] by auto
qed

lemma Extend_cases:
  assumes "redis_laws R" and "Extend R l ext r = (out, r')"
  shows "rnow R r' = rnow R r" and "rlookup R r k = Some (v, u) \<Longrightarrow> v \<noteq> lvalue l \<Longrightarrow> rlookup R r' k = Some (v, u)"
    and "out = None \<Longrightarrow> 0 < Milliseconds ext \<Longrightarrow>
      rlookup R r' (lkey l) = Some (lvalue l, AddT (rnow R r) (Milliseconds ext * Millisecond))"
proof -
  obtain n r1 where c: "extend_script R (lkey l) (lvalue l) (Milliseconds ext) r = (n, r1)" by fastforce
  have "r' = r \<or> r' = r1"
    using request_state [of R "extend_script R (lkey l) (lvalue l) (Milliseconds ext)" r _ r'] assms(2) c
    unfolding Extend_def by (auto split: prod.splits sum.splits if_splits)
  then show "rnow R r' = rnow R r"
    "rlookup R r k = Some (v, u) \<Longrightarrow> v \<noteq> lvalue l \<Longrightarrow> rlookup R r' k = Some (v, u)"
    using extend_script_law [OF assms(1) c] by auto
  assume "out = None" "0 < Milliseconds ext"
  then have "r' = r1" "n \<noteq> 0"
    using assms(2) c unfolding Extend_def by (auto simp: request_Inr split: prod.splits sum.splits if_splits)
  then show "rlookup R r' (lkey l) = Some (lvalue l, AddT (rnow R r) (Milliseconds ext * Millisecond))"
    using extend_script_law [OF assms(1) c] \<open>0 < Milliseconds ext\<close> by (auto split: if_splits)
qed

lemma lease_other:
  assumes "inj (\<lambda>i. lvalue (L i))" and "j \<noteq> i" and "lease_ok R (L j) r le" and "rnow R r' = rnow R r"
    and "\<And>k v u. rlookup R r k = Some (v, u) \<Longrightarrow> v \<noteq> lvalue (L i) \<Longrightarrow> rlookup R r' k = Some (v, u)"
  shows "lease_ok R (L j) r' le"
proof -
  have "lvalue (L j) \<noteq> lvalue (L i)" using assms(1,2) by (auto dest: injD)
  then show ?thesis by (intro lease_ok_keep [OF assms(3,4)]) (rule assms(5))
qed

lemma lock_step_lease:
  assumes "lock_step R L s t" and "redis_laws R" and "inj (\<lambda>i. lvalue (L i))" and "\<forall>i. 0 < lttl (L i)"
    and "\<forall>j. lease_ok R (L j) (srv s) (lease s j)"
  shows "lease_ok R (L j) (srv t) (lease t j)"
  using assms(1)
proof cases
  case (acquire i out r')
  note keep = TryAcquire_keeps [OF assms(2) assms(4) [rule_format] acquire(2)]
  have "lease_ok R (L j) r' (lease s j)"
    by (rule lease_ok_keep [OF assms(5) [rule_format] keep(1)]) (rule keep(2))
  then show ?thesis
    using acquire TryAcquire_ok [OF assms(2) assms(4) [rule_format], of "i" "srv s" r']
    by (cases "out = Inr True \<and> j = i") (auto simp: lease_ok_def)
next
  case (release i out r')
  note keep = Release_cases [OF assms(2) release(2)]
  show ?thesis
    using release(1) lease_other [OF assms(3) _ assms(5) [rule_format] keep] by (cases "j = i") simp_all
next
  case (extend i ext out r')
  note keep = Extend_cases [OF assms(2) extend(2)]
  have "0 < Milliseconds ext" if "rnow R (srv s) < AddT (rnow R (srv s)) (Milliseconds ext * Millisecond)"
    using that by (simp add: time_order Millisecond_def)
  then show ?thesis
    using extend(1) keep(1,3) lease_other [OF assms(3) _ assms(5) [rule_format] keep(1,2)]
    by (cases "j = i") (auto simp: lease_ok_def)
next
  case (pass d)
  have "rnow R (srv s) \<le> AddT (rnow R (srv s)) d" using pass(2) by (simp add: time_order)
  with pass(1) assms(5) [rule_format, of j] advance_law [OF assms(2) pass(2), of "srv s"] show ?thesis
    by (force simp: lease_ok_def)
qed

lemma lock_reachable_lease:
  assumes "lock_reachable R L s" and "redis_laws R" and "inj (\<lambda>i. lvalue (L i))" and "\<forall>i. 0 < lttl (L i)"
  shows "\<forall>j. lease_ok R (L j) (srv s) (lease s j)"
  using assms
proof (induction rule: lock_reachable.induct)
  case (init r)
  then show ?case by simp
next
  case (step s t)
  then show ?case by (blast intro: lock_step_lease)
qed

text \<open>The handles of a key whose lease has not run out.\<close>

definition holders :: "'r redis \<Rightarrow> (nat \<Rightarrow> RedisLock) \<Rightarrow> string \<Rightarrow> 'r lock_sys \<Rightarrow> nat set" where
  "holders R L k s = {i. lkey (L i) = k \<and> (\<exists>t. lease s i = Some t \<and> rnow R (srv s) < t)}"

text \<open>
  C6. Mutual exclusion: two handles of the same key never hold unexpired leases at once, whatever
  the order of acquires, releases, extensions and the passing of time, and although a network
  failure may strike any request. It rests on the handles' values being distinct.
\<close>
theorem lock_mutual_exclusion:
  assumes "redis_laws R" and "inj (\<lambda>i. lvalue (L i))" and "\<forall>i. 0 < lttl (L i)"
    and "lock_reachable R L s" and "i \<in> holders R L k s"
  shows "holders R L k s = {i}"
proof -
  have ok: "\<forall>j. lease_ok R (L j) (srv s) (lease s j)"
    by (rule lock_reachable_lease [OF assms(4,1-3)])
  have row: "\<exists>u. rlookup R (srv s) k = Some (lvalue (L j), u)" if "j \<in> holders R L k s" for j
    using ok that unfolding lease_ok_def holders_def by blast
  have "j = i" if "j \<in> holders R L k s" for j
    using row [OF that] row [OF assms(5)] assms(2) by (auto dest: injD)
  with assms(5) show ?thesis by blast
qed

text \<open>An in-memory server that keeps the laws, on which the hypotheses are met.\<close>

definition mem_redis :: "(Time \<times> (string \<rightharpoonup> string \<times> Time)) redis" where
  "mem_redis =
     \<lparr>rnow = fst, rlookup = snd,
      rsetnx = \<lambda>k v ttl (now, m). if m k = None then (True, (now, m(k \<mapsto> (v, AddT now ttl)))) else (False, (now, m)),
      rdel = \<lambda>k (now, m). (if m k = None then 0 else 1, (now, m(k := None))),
      rpexpire = \<lambda>k ms (now, m). (case m k of None \<Rightarrow> (0, (now, m))
        | Some (v, t) \<Rightarrow> (1, (now, m(k := if 0 < ms then Some (v, AddT now (ms * Millisecond)) else None)))),
      radvance = \<lambda>d (now, m). (AddT now d, \<lambda>k. case m k of
          Some (v, t) \<Rightarrow> if AddT now d < t then Some (v, t) else None | None \<Rightarrow> None),
      rlink = \<lambda>_. Delivered\<rparr>"

lemma mem_redis_laws: "redis_laws mem_redis"
  unfolding redis_laws_def setnx_spec_def del_spec_def pexpire_spec_def advance_spec_def
  by (auto simp: mem_redis_def split: option.splits)

definition mem_locks :: "nat \<Rightarrow> RedisLock" where
  "mem_locks i = NewRedisLock (replicate i CHR ''a'') ''stock'' Second"

lemma mem_locks_ok: "inj (\<lambda>i. lvalue (mem_locks i))" "\<forall>i. 0 < lttl (mem_locks i)"
  by (auto simp: mem_locks_def NewRedisLock_def Second_def inj_def dest: arg_cong [of _ _ length])

theorem lock_mutual_exclusion_witness:
  "holders mem_redis mem_locks ''lock:stock''
     \<lparr>srv = (Time 0, [''lock:stock'' \<mapsto> (''aaa'', Time Second)]), lease = [3 \<mapsto> Time Second]\<rparr> = {3}"
proof (rule lock_mutual_exclusion [OF mem_redis_laws mem_locks_ok])
  let ?free = "\<lparr>srv = (Time 0, Map.empty), lease = \<lambda>_. None\<rparr>"
  let ?held = "\<lparr>srv = (Time 0, [''lock:stock'' \<mapsto> (''aaa'', Time Second)]), lease = [3 \<mapsto> Time Second]\<rparr>"
  have "mem_locks 3 = \<lparr>lkey = ''lock:stock'', lvalue = ''aaa'', lttl = Second\<rparr>"
    unfolding mem_locks_def NewRedisLock_def numeral_3_eq_3 by simp
  then have t: "TryAcquire mem_redis (mem_locks 3) (srv ?free) = (Inr True, srv ?held)"
    by (simp add: TryAcquire_def request_def mem_redis_def AddT_def)
  have "lock_step mem_redis mem_locks ?free ?held"
    using lock_step.acquire [of mem_redis mem_locks 3 ?free, OF t]
    by (simp add: mem_redis_def mem_locks_def NewRedisLock_def AddT_def)
  then show "lock_reachable mem_redis mem_locks ?held"
    by (rule lock_reachable.step [OF lock_reachable.init])
  show "3 \<in> holders mem_redis mem_locks ''lock:stock'' ?held"
    by (simp add: holders_def mem_redis_def mem_locks_def NewRedisLock_def time_order Second_def)
qed

section \<open>Acquire, release, extend\<close>

lemma AcquireWithRetry_nil:
  assumes "redis_laws R" and "0 < lttl l"
  shows "AcquireWithRetry R wait l n r = (None, r') \<Longrightarrow>
    \<exists>r0. rlookup R r0 (lkey l) = None \<and> rnow R r' = rnow R r0
       \<and> rlookup R r' = (rlookup R r0)(lkey l \<mapsto> (lvalue l, AddT (rnow R r0) (lttl l)))"
proof (induction n arbitrary: r)
  case 0
  then show ?case by simp
next
  case (Suc n)
  obtain out r1 where o: "TryAcquire R l r = (out, r1)" by fastforce
  show ?case
  proof (cases "out = Inr True")
    case True
    with Suc.prems o have "r1 = r'" by (simp add: TryAcquire_def)
    with TryAcquire_ok [OF assms, of r r1] o True show ?thesis by blast
  next
    case False
    with Suc.prems o obtain r2 where "AcquireWithRetry R wait l n r2 = (None, r')"
      by (auto simp: TryAcquire_def split: sum.splits prod.splits wait_outcome.splits if_splits)
    then show ?thesis by (rule Suc.IH)
  qed
qed

text \<open>
  \<open>WithLock\<close> runs the function at most once and only while it holds the lock: either the lock
  was not acquired, the error is \<open>Acquire\<close>'s and the function did not run, or the function ran in
  a state in which the key was just taken under this call's value for the full time to live, and its
  error is returned after the release.
\<close>
theorem WithLock_runs_under_lock:
  assumes "redis_laws R" and "0 < ttl"
  shows "let l = NewRedisLock uuid key ttl in
     case Acquire R wait l r of
       (Some e, r1) \<Rightarrow> WithLock R wait uuid key ttl fn r = (Some e, r1)
     | (None, r1) \<Rightarrow>
         rlookup R r1 (''lock:'' @ key) = Some (uuid, AddT (rnow R r1) ttl)
         \<and> WithLock R wait uuid key ttl fn r = (fst (fn r1), snd (Release R l (snd (fn r1))))"
proof -
  obtain out r1 where a: "Acquire R wait (NewRedisLock uuid key ttl) r = (out, r1)" by fastforce
  show ?thesis
  proof (cases out)
    case (Some e)
    with a show ?thesis by (simp add: WithLock_def)
  next
    case None
    with a AcquireWithRetry_nil [OF assms(1), of "NewRedisLock uuid key ttl" wait 10 r r1] assms(2)
    have "rlookup R r1 (''lock:'' @ key) = Some (uuid, AddT (rnow R r1) ttl)"
      unfolding Acquire_def NewRedisLock_def by fastforce
    with a None show ?thesis by (simp add: WithLock_def Let_def split: prod.splits)
  qed
qed

theorem WithLock_runs_under_lock_witness:
  "fst (WithLock mem_redis (\<lambda>r. (Waited, r)) ''u1'' ''stock'' Second (\<lambda>r. (Some (LockFn ''x''), r)) (Time 0, Map.empty))
     = Some (LockFn ''x'')"
proof -
  obtain out r1 where a: "Acquire mem_redis (\<lambda>r. (Waited, r)) (NewRedisLock ''u1'' ''stock'' Second) (Time 0, Map.empty) = (out, r1)"
    by (rule prod.exhaust)
  then have "out = None"
    by (auto simp: Acquire_def numeral_eq_Suc request_def mem_redis_def NewRedisLock_def)
  with a WithLock_runs_under_lock [OF mem_redis_laws, of Second "''u1''" "''stock''" "\<lambda>r. (Waited, r)"
      "\<lambda>r. (Some (LockFn ''x''), r)" "(Time 0, Map.empty)"]
  show ?thesis by (simp add: Second_def)
qed

text \<open>
  \<open>Release\<close> removes the key only while it carries the caller's value: then it returns nil and
  the key is free; otherwise it returns \<open>ErrLockNotHeld\<close> and another owner's lock is untouched.
\<close>
theorem Release_only_own:
  assumes "redis_laws R" and "rlink R r = Delivered"
  shows "case Release R l r of (err, r') \<Rightarrow>
     if map_option fst (rlookup R r (lkey l)) = Some (lvalue l)
     then err = None \<and> rlookup R r' = (rlookup R r)(lkey l := None)
     else err = Some ErrLockNotHeld \<and> rlookup R r' = rlookup R r"
proof -
  obtain n r1 where c: "release_script R (lkey l) (lvalue l) r = (n, r1)" by fastforce
  then have "request R (release_script R (lkey l) (lvalue l)) r = (Inr n, r1)"
    using assms(2) by (simp add: request_Inr)
  then show ?thesis using release_script_law [OF assms(1) c] by (simp add: Release_def)
qed

theorem Release_only_own_witness:
  "case Release mem_redis (NewRedisLock ''u1'' ''stock'' Second) (Time 0, [''lock:stock'' \<mapsto> (''u2'', Time 5)]) of
     (err, r') \<Rightarrow> err = Some ErrLockNotHeld \<and> rlookup mem_redis r' ''lock:stock'' = Some (''u2'', Time 5)"
  using Release_only_own [OF mem_redis_laws, of "(Time 0, [''lock:stock'' \<mapsto> (''u2'', Time 5)])" "NewRedisLock ''u1'' ''stock'' Second"]
  by (auto simp: mem_redis_def NewRedisLock_def split: prod.splits)

text \<open>
  \<open>Extend\<close> with less than a millisecond truncates to zero: the server expires the key at once,
  \<open>Extend\<close> returns nil, and the caller has lost the lock it just "extended".
\<close>
theorem Extend_submillisecond_loses_lock:
  assumes "redis_laws R" and "rlink R r = Delivered" and "0 \<le> ext" and "ext < Millisecond"
    and "map_option fst (rlookup R r (lkey l)) = Some (lvalue l)"
  shows "fst (Extend R l ext r) = None \<and> rlookup R (snd (Extend R l ext r)) (lkey l) = None"
proof -
  obtain n r1 where c: "extend_script R (lkey l) (lvalue l) (Milliseconds ext) r = (n, r1)" by fastforce
  then have q: "request R (extend_script R (lkey l) (lvalue l) (Milliseconds ext)) r = (Inr n, r1)"
    using assms(2) by (simp add: request_Inr)
  have "Milliseconds ext = 0"
    using assms(3,4) by (simp add: Milliseconds_def trunc_div_def Millisecond_def)
  then show ?thesis using extend_script_law [OF assms(1) c] assms(5) q by (simp add: Extend_def)
qed

theorem Extend_submillisecond_loses_lock_witness:
  "rlookup mem_redis (snd (Extend mem_redis (NewRedisLock ''u1'' ''stock'' Second) 500000
     (Time 0, [''lock:stock'' \<mapsto> (''u1'', Time 5)]))) ''lock:stock'' = None"
  using Extend_submillisecond_loses_lock [OF mem_redis_laws, of "(Time 0, [''lock:stock'' \<mapsto> (''u1'', Time 5)])"
      500000 "NewRedisLock ''u1'' ''stock'' Second"]
  by (simp add: mem_redis_def NewRedisLock_def Millisecond_def)

end
