(* ===== verification/Outbox.thy ===== *)
theory Outbox
  imports GoStrings "HOL-Library.Multiset"
begin

text \<open>
  \<open>outbox/outbox.go\<close> and \<open>outbox/processor.go\<close>: the transactional outbox table, the operations on
  it and the processor's batch loop. The table is the list of its rows; a gorm statement is the
  state transformer its SQL denotes. What the database decides is an argument: whether a statement
  or a commit fails, which rows other transactions hold locked, and in which order equal timestamps
  are returned (\<open>ord\<close>). Ids are the texts of their UUIDs.
\<close>

section \<open>The table\<close>

type_synonym uuid = string

definition nilUUID :: uuid where
  "nilUUID = ''00000000-0000-0000-0000-000000000000''"

record OutboxEvent =
  eID :: uuid
  AggregateType :: string
  AggregateID :: uuid
  EventType :: string
  Payload :: string
  CreatedAt :: Time
  ProcessedAt :: "Time option"
  eError :: "string option"
  RetryCount :: int

type_synonym otable = "OutboxEvent list"

definition BeforeCreate :: "uuid \<Rightarrow> Time \<Rightarrow> OutboxEvent \<Rightarrow> OutboxEvent" where
  "BeforeCreate new now e =
     (let e = (if eID e = nilUUID then e\<lparr>eID := new\<rparr> else e)
      in if IsZero (CreatedAt e) then e\<lparr>CreatedAt := now\<rparr> else e)"

definition Outbox_Publish ::
  "string option \<Rightarrow> uuid \<Rightarrow> Time \<Rightarrow> OutboxEvent \<Rightarrow> otable \<Rightarrow> string option \<times> otable" where
  \<comment> \<open>\<open>db.Create(event)\<close> with its hook; the primary key refuses a second row of the same id\<close>
  "Outbox_Publish fault new now event tbl =
     (let e = BeforeCreate new now event
      in case fault of
           Some err \<Rightarrow> (Some err, tbl)
         | None \<Rightarrow> if eID e \<in> eID ` set tbl then (Some ''duplicate key value violates unique constraint'', tbl)
                   else (None, tbl @ [e]))"

definition CreateEvent ::
  "Time \<Rightarrow> string \<Rightarrow> uuid \<Rightarrow> string \<Rightarrow> string + string \<Rightarrow> string + OutboxEvent" where
  \<comment> \<open>the last argument is what \<open>json.Marshal(payload)\<close> returned\<close>
  "CreateEvent now aggregateType aggregateID eventType marshalled =
     (case marshalled of
        Inl err \<Rightarrow> Inl err
      | Inr payload \<Rightarrow>
          Inr \<lparr>eID = nilUUID, AggregateType = aggregateType, AggregateID = aggregateID,
               EventType = eventType, Payload = payload, CreatedAt = now, ProcessedAt = None,
               eError = None, RetryCount = 0\<rparr>)"

definition update_where :: "(OutboxEvent \<Rightarrow> bool) \<Rightarrow> (OutboxEvent \<Rightarrow> OutboxEvent) \<Rightarrow> otable \<Rightarrow> otable" where
  "update_where P f tbl = map (\<lambda>e. if P e then f e else e) tbl"

definition mark_failed :: "uuid \<Rightarrow> string \<Rightarrow> otable \<Rightarrow> otable" where
  "mark_failed i msg tbl =
     update_where (\<lambda>e. eID e = i) (\<lambda>e. e\<lparr>eError := Some msg, RetryCount := RetryCount e + 1\<rparr>) tbl"

definition mark_processed :: "uuid \<Rightarrow> Time \<Rightarrow> otable \<Rightarrow> otable" where
  "mark_processed i now tbl = update_where (\<lambda>e. eID e = i) (\<lambda>e. e\<lparr>ProcessedAt := Some now\<rparr>) tbl"

definition MarkProcessed :: "string option \<Rightarrow> Time \<Rightarrow> uuid \<Rightarrow> otable \<Rightarrow> string option \<times> otable" where
  "MarkProcessed fault now i tbl =
     (case fault of Some err \<Rightarrow> (Some err, tbl) | None \<Rightarrow> (None, mark_processed i now tbl))"

definition MarkFailed :: "string option \<Rightarrow> uuid \<Rightarrow> string \<Rightarrow> otable \<Rightarrow> string option \<times> otable" where
  "MarkFailed fault i msg tbl =
     (case fault of Some err \<Rightarrow> (Some err, tbl) | None \<Rightarrow> (None, mark_failed i msg tbl))"

definition GetUnprocessedEvents ::
  "(otable \<Rightarrow> otable) \<Rightarrow> string option \<Rightarrow> nat \<Rightarrow> otable \<Rightarrow> OutboxEvent list \<times> string option" where
  "GetUnprocessedEvents ord fault limit tbl =
     (case fault of Some err \<Rightarrow> ([], Some err)
      | None \<Rightarrow> (take limit (ord (filter (\<lambda>e. ProcessedAt e = None) tbl)), None))"

definition GetFailedEvents ::
  "(otable \<Rightarrow> otable) \<Rightarrow> string option \<Rightarrow> int \<Rightarrow> nat \<Rightarrow> otable \<Rightarrow> OutboxEvent list \<times> string option" where
  "GetFailedEvents ord fault maxRetries limit tbl =
     (case fault of Some err \<Rightarrow> ([], Some err)
      | None \<Rightarrow>
          (take limit (ord (filter (\<lambda>e. ProcessedAt e = None \<and> eError e \<noteq> None \<and> RetryCount e < maxRetries) tbl)),
           None))"

definition CleanupProcessedEvents ::
  "string option \<Rightarrow> Time \<Rightarrow> Duration \<Rightarrow> otable \<Rightarrow> string option \<times> otable" where
  "CleanupProcessedEvents fault now olderThan tbl =
     (let cutoff = AddT now (- olderThan)
      in case fault of Some err \<Rightarrow> (Some err, tbl)
         | None \<Rightarrow>
             (None, filter (\<lambda>e. \<not> (case ProcessedAt e of None \<Rightarrow> False | Some t \<Rightarrow> t < cutoff)) tbl))"

section \<open>Claiming one row\<close>

record OutboxClaim =
  cEvent :: "OutboxEvent option"
  Claimed :: bool
  PublishErr :: "string option"

record faults =
  select_fault :: "string option"
  update_fault :: "string option"
  commit_fault :: "string option"

definition claimable :: "uuid list \<Rightarrow> int \<Rightarrow> uuid list \<Rightarrow> OutboxEvent \<Rightarrow> bool" where
  "claimable locked maxRetries exclude e \<longleftrightarrow>
     ProcessedAt e = None \<and> RetryCount e < maxRetries \<and> eID e \<notin> set locked
     \<and> (exclude = [] \<or> eID e \<notin> set exclude)"

definition ProcessNext ::
  "(otable \<Rightarrow> otable) \<Rightarrow> faults \<Rightarrow> uuid list \<Rightarrow> Time \<Rightarrow> int \<Rightarrow> uuid list
     \<Rightarrow> (OutboxEvent \<Rightarrow> 'w \<Rightarrow> string option \<times> 'w) \<Rightarrow> otable \<times> 'w
     \<Rightarrow> OutboxClaim \<times> string option \<times> otable \<times> 'w" where
  "ProcessNext ord fault locked now maxRetries exclude publish s =
     (let (tbl, w) = s; none = \<lparr>cEvent = None, Claimed = False, PublishErr = None\<rparr>
      in case select_fault fault of
           Some err \<Rightarrow> (none, Some err, tbl, w)
         | None \<Rightarrow>
             (case take 1 (ord (filter (claimable locked maxRetries exclude) tbl)) of
                [] \<Rightarrow> (none, commit_fault fault, tbl, w)
              | e # _ \<Rightarrow>
                  (let (perr, w) = publish e w;
                       res = \<lparr>cEvent = Some e, Claimed = True, PublishErr = perr\<rparr>;
                       tbl' = (case perr of Some msg \<Rightarrow> mark_failed (eID e) msg tbl
                               | None \<Rightarrow> mark_processed (eID e) now tbl)
                   in case update_fault fault of
                        Some err \<Rightarrow> (res, Some err, tbl, w)
                      | None \<Rightarrow>
                          (case commit_fault fault of
                             Some err \<Rightarrow> (res, Some err, tbl, w)
                           | None \<Rightarrow> (res, None, tbl', w)))))"

section \<open>The processor\<close>

record ProcessorConfig =
  Interval :: Duration
  BatchSize :: int
  MaxRetries :: int

definition DefaultProcessorConfig :: ProcessorConfig where
  "DefaultProcessorConfig = \<lparr>Interval = 5 * Second, BatchSize = 100, MaxRetries = 5\<rparr>"

definition NewProcessor :: "ProcessorConfig \<Rightarrow> ProcessorConfig" where
  "NewProcessor config =
     (let def = DefaultProcessorConfig;
          config = (if BatchSize config \<le> 0 then config\<lparr>BatchSize := BatchSize def\<rparr> else config);
          config = (if MaxRetries config \<le> 0 then config\<lparr>MaxRetries := MaxRetries def\<rparr> else config);
          config = (if Interval config \<le> 0 then config\<lparr>Interval := Interval def\<rparr> else config)
      in config)"

record 'w publisher =
  PublishWithHeaders :: "(string \<Rightarrow> string \<Rightarrow> (string \<times> string) list \<Rightarrow> 'w \<Rightarrow> string option \<times> 'w) option"
    \<comment> \<open>present when the publisher implements \<open>HeaderPublisher\<close>\<close>
  Publish :: "string \<Rightarrow> string \<Rightarrow> 'w \<Rightarrow> string option \<times> 'w"

definition processEvent :: "'w publisher \<Rightarrow> OutboxEvent \<Rightarrow> 'w \<Rightarrow> string option \<times> 'w" where
  "processEvent p event w =
     (let subject = EventType event; headers = [(''Nats-Msg-Id'', eID event)]
      in case PublishWithHeaders p of
           Some pub \<Rightarrow> pub subject (Payload event) headers w
         | None \<Rightarrow> Publish p subject (Payload event) w)"

record 'w dbenv =
  db_ord :: "otable \<Rightarrow> otable"
  db_faults :: "'w \<Rightarrow> faults"
  db_locked :: "'w \<Rightarrow> uuid list"
  db_now :: "'w \<Rightarrow> Time"
  db_others :: "otable \<times> 'w \<Rightarrow> otable \<times> 'w"
    \<comment> \<open>what other transactions commit before the next claim\<close>

function batch_loop ::
  "'w dbenv \<Rightarrow> ProcessorConfig \<Rightarrow> (OutboxEvent \<Rightarrow> 'w \<Rightarrow> string option \<times> 'w) \<Rightarrow> uuid list \<Rightarrow> int
     \<Rightarrow> otable \<times> 'w \<Rightarrow> uuid list \<times> int \<times> otable \<times> 'w" where
  "batch_loop env p publish tried published s =
     (if int (length tried) < BatchSize p then
        (let (tbl, w) = db_others env s
         in case ProcessNext (db_ord env) (db_faults env w) (db_locked env w) (db_now env w) (MaxRetries p)
                   tried publish (tbl, w) of
              (res, Some err, tbl', w') \<Rightarrow> (tried, published, tbl', w')
            | (res, None, tbl', w') \<Rightarrow>
                (case cEvent res of
                   None \<Rightarrow> (tried, published, tbl', w')
                 | Some e \<Rightarrow>
                     batch_loop env p publish (tried @ [eID e])
                       (if PublishErr res = None then published + 1 else published) (tbl', w')))
      else (tried, published, s))"
  by pat_completeness auto
termination
  by (relation "measure (\<lambda>(env, p, publish, tried, published, s). nat (BatchSize p - int (length tried)))") auto

declare batch_loop.simps [simp del]

definition processBatch ::
  "'w dbenv \<Rightarrow> ProcessorConfig \<Rightarrow> 'w publisher \<Rightarrow> otable \<times> 'w \<Rightarrow> uuid list \<times> int \<times> otable \<times> 'w" where
  \<comment> \<open>with the rows tried and the number published, which the code only logs\<close>
  "processBatch env p pub s = batch_loop env p (processEvent pub) [] 0 s"

definition ProcessNow ::
  "'w dbenv \<Rightarrow> ProcessorConfig \<Rightarrow> 'w publisher \<Rightarrow> otable \<times> 'w \<Rightarrow> otable \<times> 'w" where
  "ProcessNow env p pub s = (let (tried, published, s') = processBatch env p pub s in s')"

section \<open>Properties of one claim\<close>

definition order_ok :: "(otable \<Rightarrow> otable) \<Rightarrow> bool" where
  \<comment> \<open>\<open>ORDER BY created_at ASC\<close>: the same rows, oldest first\<close>
  "order_ok ord \<longleftrightarrow> (\<forall>xs. mset (ord xs) = mset xs \<and> sorted (map CreatedAt (ord xs)))"

lemma order_ok_set: "order_ok ord \<Longrightarrow> set (ord xs) = set xs"
  unfolding order_ok_def by (metis set_mset_mset)

lemma order_ok_head:
  assumes "order_ok ord" and "ord xs = e # es"
  shows "e \<in> set xs" and "\<And>x. x \<in> set xs \<Longrightarrow> CreatedAt e \<le> CreatedAt x"
proof -
  have s: "set xs = set (e # es)" using order_ok_set [OF assms(1), of xs] assms(2) by simp
  then show "e \<in> set xs" by simp
  have "sorted (map CreatedAt (e # es))" using assms unfolding order_ok_def by metis
  then show "CreatedAt e \<le> CreatedAt x" if "x \<in> set xs" for x using that s by auto
qed

lemma update_where_ids [simp]:
  "(\<And>e. eID (f e) = eID e) \<Longrightarrow> map eID (update_where P f tbl) = map eID tbl"
  by (simp add: update_where_def)

lemma mark_ids [simp]:
  "map eID (mark_failed i m tbl) = map eID tbl" "map eID (mark_processed i now tbl) = map eID tbl"
  by (simp_all add: mark_failed_def mark_processed_def)


definition sample_event :: "uuid \<Rightarrow> int \<Rightarrow> int \<Rightarrow> OutboxEvent" where
  "sample_event i t n =
     \<lparr>eID = i, AggregateType = ''order'', AggregateID = ''o1'', EventType = ''events.order.created'',
      Payload = ''{}'', CreatedAt = Time t, ProcessedAt = None, eError = None, RetryCount = n\<rparr>"

lemma sort_order_ok: "order_ok (sort_key CreatedAt)"
  by (simp add: order_ok_def)


section \<open>One tick of the processor\<close>

lemma ProcessNext_cases:
  assumes "order_ok ord"
    and "ProcessNext ord fault locked now maxRetries exclude publish (tbl, w) = (res, err, tbl', w')"
  shows "(cEvent res = None \<and> w' = w) \<or>
    (\<exists>e. cEvent res = Some e \<and> e \<in> set tbl \<and> claimable locked maxRetries exclude e \<and> w' = snd (publish e w))"
proof (cases "select_fault fault = None")
  case True
  show ?thesis
  proof (cases "ord (filter (claimable locked maxRetries exclude) tbl)")
    case Nil
    then show ?thesis using True assms(2) by (auto simp: ProcessNext_def Let_def)
  next
    case (Cons e es)
    with order_ok_head [OF assms(1) Cons] True assms(2) show ?thesis
      by (auto simp: ProcessNext_def Let_def split: prod.splits option.splits)
  qed
next
  case False
  then show ?thesis using assms(2) by (auto simp: ProcessNext_def Let_def)
qed

lemma claimable_not_excluded: "claimable locked m exclude e \<Longrightarrow> eID e \<notin> set exclude"
  by (auto simp: claimable_def)

lemma batch_loop_log:
  fixes log :: "'w \<Rightarrow> uuid list"
  assumes "order_ok (db_ord env)" and "\<And>e w. log (snd (publish e w)) = log w @ [eID e]"
    and "\<And>s. log (snd (db_others env s)) = log (snd s)"
  shows "distinct tried \<Longrightarrow> int (length tried) \<le> BatchSize p \<Longrightarrow>
    batch_loop env p publish tried n s = (tried', n', tbl', w') \<Longrightarrow>
    \<exists>l. log w' = log (snd s) @ l \<and> distinct (tried @ l) \<and> int (length (tried @ l)) \<le> BatchSize p"
proof (induction "nat (BatchSize p - int (length tried))" arbitrary: tried n s rule: less_induct)
  case less
  show ?case
  proof (cases "int (length tried) < BatchSize p")
    case False
    with less.prems show ?thesis by (subst (asm) batch_loop.simps) auto
  next
    case True
    obtain tbl w where o: "db_others env s = (tbl, w)" by fastforce
    then have lw: "log w = log (snd s)" using assms(3) [of s] by simp
    obtain res err tbl1 w1 where r: "ProcessNext (db_ord env) (db_faults env w) (db_locked env w) (db_now env w)
        (MaxRetries p) tried publish (tbl, w) = (res, err, tbl1, w1)" by (metis prod.exhaust)
    from ProcessNext_cases [OF assms(1) r] show ?thesis
    proof (elim disjE exE conjE)
      assume "cEvent res = None" "w1 = w"
      then have "w' = w" using less.prems(3) True r o by (subst (asm) batch_loop.simps) (auto split: option.splits)
      with lw less.prems True show ?thesis by (intro exI [of _ "[]"]) auto
    next
      fix e
      assume e: "cEvent res = Some e" "claimable (db_locked env w) (MaxRetries p) tried e"
        and w1: "w1 = snd (publish e w)"
      have new: "distinct (tried @ [eID e])" "int (length (tried @ [eID e])) \<le> BatchSize p"
        using less.prems(1) True claimable_not_excluded [OF e(2)] by auto
      have l1: "log w1 = log (snd s) @ [eID e]" using w1 assms(2) lw by simp
      show ?thesis
      proof (cases err)
        case (Some x)
        then have "w' = w1" using less.prems(3) True r o by (subst (asm) batch_loop.simps) auto
        with l1 new show ?thesis by (intro exI [of _ "[eID e]"]) auto
      next
        case None
        then have "batch_loop env p publish (tried @ [eID e]) (if PublishErr res = None then n + 1 else n) (tbl1, w1)
            = (tried', n', tbl', w')"
          using less.prems(3) True r o e(1) by (subst (asm) batch_loop.simps) auto
        from less.hyps [OF _ new this] True obtain l
          where "log w' = log w1 @ l" "distinct ((tried @ [eID e]) @ l)" "int (length ((tried @ [eID e]) @ l)) \<le> BatchSize p"
          by auto
        with l1 show ?thesis by (intro exI [of _ "eID e # l"]) auto
      qed
    qed
  qed
qed

text \<open>
  C14. One tick publishes at most \<open>BatchSize\<close> rows and no row twice, whatever statements or commits
  fail, whichever rows other processors lock, and whatever they commit in between.
\<close>
theorem processBatch_no_duplicates:
  fixes log :: "'w \<Rightarrow> uuid list"
  assumes "order_ok (db_ord env)" and "\<And>e w. log (snd (processEvent pub e w)) = log w @ [eID e]"
    and "\<And>s. log (snd (db_others env s)) = log (snd s)"
    and "processBatch env (NewProcessor config) pub (tbl, w) = (tried, n, tbl', w')"
  shows "\<exists>l. log w' = log w @ l \<and> distinct l \<and> int (length l) \<le> BatchSize (NewProcessor config)"
proof -
  have b: "0 \<le> BatchSize (NewProcessor config)"
    by (simp add: NewProcessor_def DefaultProcessorConfig_def Let_def)
  show ?thesis
    using batch_loop_log [OF assms(1-3), of "[]" "NewProcessor config" 0 "(tbl, w)" tried n tbl' w'] assms(4) b
    by (auto simp: processBatch_def)
qed

theorem processBatch_no_duplicates_witness:
  "\<exists>l. snd (snd (snd (processBatch
       \<lparr>db_ord = sort_key CreatedAt,
        db_faults = \<lambda>_. \<lparr>select_fault = None, update_fault = None, commit_fault = None\<rparr>,
        db_locked = \<lambda>_. [], db_now = \<lambda>_. Time 9, db_others = \<lambda>s. s\<rparr>
       (NewProcessor DefaultProcessorConfig)
       \<lparr>PublishWithHeaders = Some (\<lambda>subj data hs w. (Some ''down'', w @ map snd hs)), Publish = \<lambda>subj data w. (None, w)\<rparr>
       ([sample_event ''a'' 1 0, sample_event ''b'' 2 0], [])))) = l \<and> distinct l \<and> length l \<le> 100"
proof -
  let ?env = "\<lparr>db_ord = sort_key CreatedAt,
        db_faults = \<lambda>_. \<lparr>select_fault = None, update_fault = None, commit_fault = None\<rparr>,
        db_locked = \<lambda>_. [], db_now = \<lambda>_. Time 9, db_others = \<lambda>s :: otable \<times> uuid list. s\<rparr>"
  let ?pub = "\<lparr>PublishWithHeaders = Some (\<lambda>subj data hs w. (Some ''down'', w @ map snd hs)), Publish = \<lambda>subj data w. (None, w)\<rparr>"
  obtain tried n tbl' w' where r: "processBatch ?env (NewProcessor DefaultProcessorConfig) ?pub
      ([sample_event ''a'' 1 0, sample_event ''b'' 2 0], []) = (tried, n, tbl', w')" by (metis prod.exhaust)
  have "\<exists>l. w' = [] @ l \<and> distinct l \<and> int (length l) \<le> BatchSize (NewProcessor DefaultProcessorConfig)"
    by (rule processBatch_no_duplicates [of ?env "\<lambda>w. w", OF _ _ _ r])
      (simp_all add: sort_order_ok processEvent_def Let_def)
  with r show ?thesis by (auto simp: NewProcessor_def DefaultProcessorConfig_def Let_def duration_units)
qed

section \<open>Several processors\<close>

text \<open>
  Any number of processors drain one table. The transaction of \<open>ProcessNext\<close> is cut at the points
  where it can be interrupted: the locking select, the publish, and the update with its commit; a
  crash or a failed statement rolls it back at any point. \<open>delivered\<close> lists the ids the broker
  received, in order; \<open>excused\<close> lists the incidents that make a repeat unavoidable: a rollback
  after a delivery, or a publish that reached the broker and still returned an error.
\<close>

datatype otxn = Holding OutboxEvent | Sent OutboxEvent "string option"

fun held :: "otxn \<Rightarrow> uuid" where
  "held (Holding e) = eID e"
| "held (Sent e perr) = eID e"

record osys =
  rows :: otable
  txns :: "nat \<rightharpoonup> otxn"
  delivered :: "uuid list"
  excused :: "uuid list"

inductive ostep :: "(otable \<Rightarrow> otable) \<Rightarrow> osys \<Rightarrow> osys \<Rightarrow> bool" for ord :: "otable \<Rightarrow> otable" where
  insert: "eID e \<notin> eID ` set (rows s) \<Longrightarrow> eID e \<notin> set (delivered s) \<Longrightarrow> ProcessedAt e = None \<Longrightarrow>
    ostep ord s (s\<lparr>rows := rows s @ [e]\<rparr>)"
| claim: "txns s p = None \<Longrightarrow> set locked = held ` ran (txns s) \<Longrightarrow>
    take 1 (ord (filter (claimable locked maxRetries exclude) (rows s))) = [e] \<Longrightarrow>
    ostep ord s (s\<lparr>txns := (txns s)(p \<mapsto> Holding e)\<rparr>)"
| publish: "txns s p = Some (Holding e) \<Longrightarrow> (perr = None \<Longrightarrow> arrived) \<Longrightarrow>
    ostep ord s (s\<lparr>txns := (txns s)(p \<mapsto> Sent e perr),
      delivered := (if arrived then delivered s @ [eID e] else delivered s),
      excused := (if arrived \<and> perr \<noteq> None then excused s @ [eID e] else excused s)\<rparr>)"
| commit: "txns s p = Some (Sent e perr) \<Longrightarrow>
    ostep ord s (s\<lparr>txns := (txns s)(p := None),
      rows := (case perr of Some msg \<Rightarrow> mark_failed (eID e) msg (rows s)
               | None \<Rightarrow> mark_processed (eID e) now (rows s))\<rparr>)"
| rollback: "txns s p = Some x \<Longrightarrow>
    ostep ord s (s\<lparr>txns := (txns s)(p := None),
      excused := (case x of Sent e None \<Rightarrow> excused s @ [eID e] | _ \<Rightarrow> excused s)\<rparr>)"
| cleanup: "CleanupProcessedEvents None now d (rows s) = (None, tbl') \<Longrightarrow> ostep ord s (s\<lparr>rows := tbl'\<rparr>)"

inductive oreachable :: "(otable \<Rightarrow> otable) \<Rightarrow> osys \<Rightarrow> bool" for ord :: "otable \<Rightarrow> otable" where
  init: "oreachable ord \<lparr>rows = [], txns = Map.empty, delivered = [], excused = []\<rparr>"
| step: "oreachable ord s \<Longrightarrow> ostep ord s t \<Longrightarrow> oreachable ord t"

definition pending :: "osys \<Rightarrow> uuid \<Rightarrow> bool" where
  \<comment> \<open>the row is there and unprocessed, and no transaction has delivered it and is about to mark it\<close>
  "pending s i \<longleftrightarrow>
     (\<exists>e\<in>set (rows s). eID e = i \<and> ProcessedAt e = None) \<and> (\<forall>p e. txns s p = Some (Sent e None) \<longrightarrow> eID e \<noteq> i)"

definition oinv :: "osys \<Rightarrow> bool" where
  "oinv s \<longleftrightarrow>
     distinct (map eID (rows s))
     \<and> (\<forall>p x. txns s p = Some x \<longrightarrow> (\<exists>e\<in>set (rows s). eID e = held x \<and> ProcessedAt e = None))
     \<and> (\<forall>p q x y. txns s p = Some x \<longrightarrow> txns s q = Some y \<longrightarrow> held x = held y \<longrightarrow> p = q)
     \<and> (\<forall>i. count_list (delivered s) i \<le> count_list (excused s) i + (if pending s i then 0 else 1))
     \<and> (\<forall>e\<in>set (rows s). ProcessedAt e \<noteq> None \<longrightarrow> eID e \<in> set (delivered s))
     \<and> (\<forall>p e. txns s p = Some (Sent e None) \<longrightarrow> eID e \<in> set (delivered s))"

lemma pending_cong:
  assumes "rows t = rows s"
    and "\<And>q e. txns t q = Some (Sent e None) \<and> eID e = i \<longleftrightarrow> txns s q = Some (Sent e None) \<and> eID e = i"
  shows "pending t i = pending s i"
  unfolding pending_def assms(1) using assms(2) by metis

lemma if_mono01: "(b \<Longrightarrow> a) \<Longrightarrow> (if a then 0 else 1) \<le> (if b then 0 else 1 :: nat)"
  by auto

lemma oinv_init: "oinv \<lparr>rows = [], txns = Map.empty, delivered = [], excused = []\<rparr>"
  by (simp add: oinv_def)

lemma distinct_row: "distinct (map eID tbl) \<Longrightarrow> a \<in> set tbl \<Longrightarrow> b \<in> set tbl \<Longrightarrow> eID a = eID b \<Longrightarrow> a = b"
  by (metis distinct_map inj_on_def)

lemma oinv_insert:
  assumes "oinv s" and "eID e \<notin> eID ` set (rows s)" and "eID e \<notin> set (delivered s)" and "ProcessedAt e = None"
  shows "oinv (s\<lparr>rows := rows s @ [e]\<rparr>)"
proof -
  have "pending (s\<lparr>rows := rows s @ [e]\<rparr>) i \<Longrightarrow> i \<noteq> eID e \<Longrightarrow> pending s i" for i
    by (auto simp: pending_def)
  moreover have "count_list (delivered s) (eID e) = 0" using assms(3) by (simp add: count_list_0_iff)
  moreover have "count_list (delivered s) i \<le> count_list (excused s) i + (if pending s i then 0 else 1)" for i
    using assms(1) by (simp add: oinv_def)
  ultimately have "count_list (delivered s) i
      \<le> count_list (excused s) i + (if pending (s\<lparr>rows := rows s @ [e]\<rparr>) i then 0 else 1)" for i
    using assms(1) by (cases "i = eID e") (simp, meson order_trans add_left_mono if_mono01)
  then show ?thesis using assms by (auto simp: oinv_def)
qed


lemma oinv_claim:
  assumes "oinv s" and "txns s p = None" and "e \<in> set (rows s)" and "ProcessedAt e = None"
    and "eID e \<notin> held ` ran (txns s)"
  shows "oinv (s\<lparr>txns := (txns s)(p \<mapsto> Holding e)\<rparr>)"
proof -
  have free: "held x \<noteq> eID e" "eID e \<noteq> held x" if "txns s q = Some x" for q x
    using assms(5) ranI [of "txns s" q x, OF that] by force+
  have "pending (s\<lparr>txns := (txns s)(p \<mapsto> Holding e)\<rparr>) i = pending s i" for i
    by (rule pending_cong) (use assms(2) in auto)
  then show ?thesis using assms(1,3,4) free unfolding oinv_def by (auto split: if_splits)
qed

lemma oinv_publish:
  assumes "oinv s" and "txns s p = Some (Holding e)" and "perr = None \<Longrightarrow> arrived"
  shows "oinv (s\<lparr>txns := (txns s)(p \<mapsto> Sent e perr),
      delivered := (if arrived then delivered s @ [eID e] else delivered s),
      excused := (if arrived \<and> perr \<noteq> None then excused s @ [eID e] else excused s)\<rparr>)" (is "oinv ?t")
proof -
  have row: "\<exists>r\<in>set (rows s). eID r = eID e \<and> ProcessedAt r = None"
    and alone: "\<And>q x. txns s q = Some x \<Longrightarrow> held x = eID e \<Longrightarrow> q = p"
    and cnt: "\<And>i. count_list (delivered s) i \<le> count_list (excused s) i + (if pending s i then 0 else 1)"
    using assms(1,2) unfolding oinv_def by (metis held.simps(1))+
  have "pending s (eID e)"
    using row alone assms(2) unfolding pending_def by (metis held.simps(2) option.inject otxn.distinct(1))
  with cnt [of "eID e"] have c: "count_list (delivered s) (eID e) \<le> count_list (excused s) (eID e)" by simp
  have "count_list (delivered ?t) i \<le> count_list (excused ?t) i + (if pending ?t i then 0 else 1)" for i
  proof (cases "i = eID e")
    case True
    show ?thesis
    proof (cases perr)
      case None
      then have "\<not> pending ?t (eID e)" by (auto simp: pending_def)
      with True None c assms(3) show ?thesis by simp
    next
      case (Some m)
      with True c show ?thesis by simp
    qed
  next
    case False
    then have "pending ?t i = pending s i"
      by (intro pending_cong) (use assms(2) in auto)
    with cnt [of i] False show ?thesis by (cases "pending s i") auto
  qed
  moreover have "distinct (map eID (rows ?t))" using assms(1) by (simp add: oinv_def)
  moreover have "\<forall>q x. txns ?t q = Some x \<longrightarrow> (\<exists>e\<in>set (rows ?t). eID e = held x \<and> ProcessedAt e = None)"
    using assms(1) row by (auto simp: oinv_def split: if_splits)
  moreover have "\<forall>q r x y. txns ?t q = Some x \<longrightarrow> txns ?t r = Some y \<longrightarrow> held x = held y \<longrightarrow> q = r"
    using assms(1) alone by (auto simp: oinv_def split: if_splits)
  moreover have "\<forall>e\<in>set (rows ?t). ProcessedAt e \<noteq> None \<longrightarrow> eID e \<in> set (delivered ?t)"
    using assms(1) by (auto simp: oinv_def)
  moreover have "\<forall>q e. txns ?t q = Some (Sent e None) \<longrightarrow> eID e \<in> set (delivered ?t)"
    using assms(1,3) by (auto simp: oinv_def split: if_splits)
  ultimately show ?thesis unfolding oinv_def by blast
qed

lemma oinv_drop:
  \<comment> \<open>a transaction ends without a mark and without a delivery of its own still to be accounted for\<close>
  assumes "oinv s" and "txns s p = Some x"
    and "exc = (case x of Sent e None \<Rightarrow> excused s @ [eID e] | _ \<Rightarrow> excused s)"
  shows "oinv (s\<lparr>txns := (txns s)(p := None), excused := exc\<rparr>)" (is "oinv ?t")
proof -
  have cnt: "count_list (delivered s) i \<le> count_list (excused s) i + (if pending s i then 0 else 1)" for i
    using assms(1) by (simp add: oinv_def)
  have "count_list (delivered ?t) i \<le> count_list exc i + (if pending ?t i then 0 else 1)" for i
  proof (cases "\<exists>e. x = Sent e None \<and> eID e = i")
    case True
    then have "count_list exc i = count_list (excused s) i + 1" by (auto simp: assms(3))
    with cnt [of i] show ?thesis by (auto split: if_splits)
  next
    case False
    then have "pending ?t i = pending s i" by (intro pending_cong) (use assms(2) in auto)
    moreover have "count_list (excused s) i \<le> count_list exc i"
      by (auto simp: assms(3) split: otxn.splits option.splits)
    ultimately show ?thesis using cnt [of i] by (auto split: if_splits)
  qed
  then show ?thesis using assms(1) unfolding oinv_def by (auto split: if_splits)
qed

lemma mark_failed_processed:
  "e' \<in> set (mark_failed i m tbl) \<Longrightarrow> \<exists>e\<in>set tbl. eID e = eID e' \<and> ProcessedAt e = ProcessedAt e'"
  by (auto simp: mark_failed_def update_where_def)

lemma mark_failed_keeps:
  "e \<in> set tbl \<Longrightarrow> \<exists>e'\<in>set (mark_failed i m tbl). eID e' = eID e \<and> ProcessedAt e' = ProcessedAt e"
  by (rule bexI [of _ "if eID e = i then e\<lparr>eError := Some m, RetryCount := RetryCount e + 1\<rparr> else e"])
    (auto simp: mark_failed_def update_where_def)

lemma oinv_rows:
  \<comment> \<open>the invariant reads only ids and processed marks of the rows\<close>
  assumes "oinv s" and "map eID tbl = map eID (rows s)"
    and "\<And>e'. e' \<in> set tbl \<Longrightarrow> \<exists>e\<in>set (rows s). eID e = eID e' \<and> ProcessedAt e = ProcessedAt e'"
    and "\<And>e. e \<in> set (rows s) \<Longrightarrow> \<exists>e'\<in>set tbl. eID e' = eID e \<and> ProcessedAt e' = ProcessedAt e"
  shows "oinv (s\<lparr>rows := tbl\<rparr>)"
proof -
  have open_iff: "(\<exists>e\<in>set tbl. eID e = i \<and> ProcessedAt e = None) \<longleftrightarrow> (\<exists>e\<in>set (rows s). eID e = i \<and> ProcessedAt e = None)" for i
    using assms(3,4) by metis
  have "\<forall>e\<in>set tbl. ProcessedAt e \<noteq> None \<longrightarrow> eID e \<in> set (delivered s)"
    using assms(1,3) unfolding oinv_def by metis
  moreover have "pending (s\<lparr>rows := tbl\<rparr>) = pending s"
    by (rule ext) (simp add: pending_def open_iff)
  ultimately show ?thesis using assms(1,2) unfolding oinv_def by (simp add: open_iff)
qed

lemma mark_processed_cases:
  assumes "r \<in> set (mark_processed i now tbl)"
  obtains x where "x \<in> set tbl" and "eID x = i" and "r = x\<lparr>ProcessedAt := Some now\<rparr>"
  | "r \<in> set tbl" and "eID r \<noteq> i"
proof -
  obtain x where "x \<in> set tbl" "r = (if eID x = i then x\<lparr>ProcessedAt := Some now\<rparr> else x)"
    using assms unfolding mark_processed_def update_where_def by auto
  then show thesis using that by (cases "eID x = i") simp_all
qed

lemma mark_processed_closed:
  "r \<in> set (mark_processed i now tbl) \<Longrightarrow> eID r = i \<Longrightarrow> ProcessedAt r = Some now"
  by (erule mark_processed_cases) simp_all

lemma mark_processed_open:
  "r \<in> set (mark_processed i now tbl) \<Longrightarrow> ProcessedAt r = None \<Longrightarrow> r \<in> set tbl"
  by (erule mark_processed_cases) simp_all

lemma oinv_commit_processed:
  assumes "oinv s" and "txns s p = Some (Sent e None)"
  shows "oinv (s\<lparr>txns := (txns s)(p := None), rows := mark_processed (eID e) now (rows s)\<rparr>)" (is "oinv ?t")
proof -
  have alone: "\<And>q x. txns s q = Some x \<Longrightarrow> held x = eID e \<Longrightarrow> q = p"
    and del: "eID e \<in> set (delivered s)"
    and cnt: "\<And>i. count_list (delivered s) i \<le> count_list (excused s) i + (if pending s i then 0 else 1)"
    using assms(1,2) unfolding oinv_def by (metis held.simps(2))+
  have row: "r' \<in> set (mark_processed (eID e) now (rows s)) \<longleftrightarrow>
      (\<exists>r\<in>set (rows s). r' = (if eID r = eID e then r\<lparr>ProcessedAt := Some now\<rparr> else r))" for r'
    by (auto simp: mark_processed_def update_where_def)
  have "count_list (delivered ?t) i \<le> count_list (excused ?t) i + (if pending ?t i then 0 else 1)" for i
  proof (cases "i = eID e")
    case True
    have "\<not> pending ?t (eID e)" by (auto simp: pending_def dest: mark_processed_closed)
    with True cnt [of i] show ?thesis by (auto split: if_splits)
  next
    case False
    have "pending s i" if t: "pending ?t i"
      unfolding pending_def
    proof (intro conjI allI impI)
      show "\<exists>r\<in>set (rows s). eID r = i \<and> ProcessedAt r = None"
        using t unfolding pending_def by (auto dest: mark_processed_open)
      have others: "\<forall>q x. txns ?t q = Some (Sent x None) \<longrightarrow> eID x \<noteq> i" using t by (simp add: pending_def)
      show "eID x \<noteq> i" if x: "txns s q = Some (Sent x None)" for q x
      proof (cases "q = p")
        case True
        then show ?thesis using x False assms(2) by simp
      next
        case q: False
        then show ?thesis using x others by (metis fun_upd_other osys.select_convs(2) osys.surjective osys.update_convs(1,2))
      qed
    qed
    with cnt [of i] show ?thesis by (auto split: if_splits)
  qed
  moreover have "\<exists>r\<in>set (rows ?t). eID r = held x \<and> ProcessedAt r = None" if x: "txns ?t q = Some x" for q x
  proof -
    have q: "q \<noteq> p" "txns s q = Some x" using x by (auto split: if_splits)
    then obtain r where "r \<in> set (rows s)" "eID r = held x" "ProcessedAt r = None"
      using assms(1) unfolding oinv_def by blast
    moreover have "held x \<noteq> eID e" using alone [OF q(2)] q(1) by blast
    ultimately show ?thesis by (auto simp: row intro!: bexI [of _ r])
  qed
  moreover have "\<forall>r\<in>set (rows ?t). ProcessedAt r \<noteq> None \<longrightarrow> eID r \<in> set (delivered ?t)"
    using assms(1) del by (auto simp: oinv_def row split: if_splits)
  ultimately show ?thesis using assms(1) unfolding oinv_def by (auto split: if_splits)
qed

lemma oinv_commit_failed:
  assumes "oinv s" and "txns s p = Some (Sent e (Some msg))"
  shows "oinv (s\<lparr>txns := (txns s)(p := None), rows := mark_failed (eID e) msg (rows s)\<rparr>)"
proof -
  have "oinv (s\<lparr>rows := mark_failed (eID e) msg (rows s)\<rparr>)"
    by (rule oinv_rows [OF assms(1)]) (simp_all add: mark_failed_processed mark_failed_keeps)
  from oinv_drop [OF this, of p "Sent e (Some msg)" "excused s"]
  have "oinv (s\<lparr>rows := mark_failed (eID e) msg (rows s), txns := (txns s)(p := None)\<rparr>)"
    using assms(2) by simp
  then show ?thesis by (cases s) simp
qed

lemma oinv_cleanup:
  assumes "oinv s" and "CleanupProcessedEvents None now d (rows s) = (None, tbl)"
  shows "oinv (s\<lparr>rows := tbl\<rparr>)"
proof -
  have tbl: "tbl = filter (\<lambda>e. \<not> (case ProcessedAt e of None \<Rightarrow> False | Some t \<Rightarrow> t < AddT now (- d))) (rows s)"
    using assms(2) by (simp add: CleanupProcessedEvents_def Let_def)
  have open_iff: "(\<exists>e\<in>set tbl. eID e = i \<and> ProcessedAt e = None) \<longleftrightarrow> (\<exists>e\<in>set (rows s). eID e = i \<and> ProcessedAt e = None)" for i
    by (auto simp: tbl)
  have "pending (s\<lparr>rows := tbl\<rparr>) = pending s" by (rule ext) (simp add: pending_def open_iff)
  moreover have "distinct (map eID tbl)" using assms(1) by (simp add: oinv_def tbl distinct_map_filter)
  moreover have "\<forall>e\<in>set tbl. ProcessedAt e \<noteq> None \<longrightarrow> eID e \<in> set (delivered s)"
    using assms(1) by (auto simp: oinv_def tbl)
  ultimately show ?thesis using assms(1) unfolding oinv_def by (simp add: open_iff)
qed

lemma ostep_inv: "ostep ord s t \<Longrightarrow> order_ok ord \<Longrightarrow> oinv s \<Longrightarrow> oinv t"
proof (induction rule: ostep.induct)
  case (claim s p locked maxRetries exclude e)
  have "ord (filter (claimable locked maxRetries exclude) (rows s)) =
      e # tl (ord (filter (claimable locked maxRetries exclude) (rows s)))"
    using claim.hyps(3) by (cases "ord (filter (claimable locked maxRetries exclude) (rows s))") auto
  from order_ok_head(1) [OF claim.prems(1) this]
  have "e \<in> set (rows s)" "ProcessedAt e = None" "eID e \<notin> held ` ran (txns s)"
    using claim.hyps(2) by (auto simp: claimable_def)
  with claim show ?case by (auto intro: oinv_claim)
next
  case (commit s p e perr now)
  then show ?case by (cases perr) (auto intro: oinv_commit_processed oinv_commit_failed)
next
  case (rollback s p x)
  then show ?case by (auto intro: oinv_drop)
next
  case (publish s p e perr arrived)
  then show ?case by (intro oinv_publish) auto
qed (auto intro: oinv_insert oinv_cleanup)

lemma oreachable_inv: "oreachable ord s \<Longrightarrow> order_ok ord \<Longrightarrow> oinv s"
  by (induction rule: oreachable.induct) (auto intro: oinv_init ostep_inv)


text \<open>
  C3. At least once: a row that is marked processed has been delivered, whatever crashed in between.
\<close>
theorem outbox_at_least_once:
  assumes "oreachable ord s" and "order_ok ord" and "e \<in> set (rows s)" and "ProcessedAt e \<noteq> None"
  shows "eID e \<in> set (delivered s)"
  using oreachable_inv [OF assms(1,2)] assms(3,4) unfolding oinv_def by blast

text \<open>A run in which a processor crashes after its publish and another one repeats the event.\<close>

lemma crash_and_repeat:
  "oreachable (sort_key CreatedAt)
     \<lparr>rows = [(sample_event ''a'' 1 0)\<lparr>ProcessedAt := Some (Time 7)\<rparr>], txns = Map.empty,
      delivered = [''a'', ''a''], excused = [''a'']\<rparr>"
proof -
  let ?e = "sample_event ''a'' 1 0"
  let ?s = "\<lambda>r t d x. \<lparr>rows = r, txns = t, delivered = d, excused = x\<rparr>"
  let ?step = "ostep (sort_key CreatedAt)"
  have f: "filter (claimable [] 5 []) [?e] = [?e]" "eID ?e = ''a''" "ProcessedAt ?e = None"
    by (simp_all add: claimable_def sample_event_def)
  have 1: "?step (?s [] Map.empty [] []) (?s [?e] Map.empty [] [])"
    using ostep.insert [of ?e "?s [] Map.empty [] []"] f by simp
  have 2: "?step (?s [?e] Map.empty d x) (?s [?e] [p \<mapsto> Holding ?e] d x)" for p d x
    using ostep.claim [of "?s [?e] Map.empty d x" p "[]" "sort_key CreatedAt" 5 "[]" ?e] f by simp
  have 3: "?step (?s [?e] [p \<mapsto> Holding ?e] d x) (?s [?e] [p \<mapsto> Sent ?e None] (d @ [''a'']) x)" for p d x
    using ostep.publish [of "?s [?e] [p \<mapsto> Holding ?e] d x" p ?e None True] f by simp
  have 4: "?step (?s [?e] [0 \<mapsto> Sent ?e None] [''a''] []) (?s [?e] Map.empty [''a''] [''a''])"
    using ostep.rollback [of "?s [?e] [0 \<mapsto> Sent ?e None] [''a''] []" 0 "Sent ?e None"] f by simp
  have 5: "?step (?s [?e] [1 \<mapsto> Sent ?e None] [''a'', ''a''] [''a''])
      (?s [?e\<lparr>ProcessedAt := Some (Time 7)\<rparr>] Map.empty [''a'', ''a''] [''a''])"
    using ostep.commit [of "?s [?e] [1 \<mapsto> Sent ?e None] [''a'', ''a''] [''a'']" 1 ?e None _ "Time 7"] f
    by (simp add: mark_processed_def update_where_def)
  have 30: "?step (?s [?e] [0 \<mapsto> Holding ?e] [] []) (?s [?e] [0 \<mapsto> Sent ?e None] [''a''] [])"
    using 3 [of 0 "[]" "[]"] by simp
  have 31: "?step (?s [?e] [1 \<mapsto> Holding ?e] [''a''] [''a'']) (?s [?e] [1 \<mapsto> Sent ?e None] [''a'', ''a''] [''a''])"
    using 3 [of 1 "[''a'']" "[''a'']"] by simp
  note r = oreachable.step
  show ?thesis
    by (rule r [OF r [OF r [OF r [OF r [OF r [OF r [OF oreachable.init 1] 2] 30] 4] 2] 31] 5])
qed


theorem outbox_at_least_once_witness:
  "eID ((sample_event ''a'' 1 0)\<lparr>ProcessedAt := Some (Time 7)\<rparr>) \<in> set [''a'', ''a'']"
  using outbox_at_least_once [OF crash_and_repeat sort_order_ok] by simp

text \<open>
  A failed database statement or commit rolls the claim back: the table is unchanged, also when the
  row was already published.
\<close>
lemma ProcessNext_rollback:
  "ProcessNext ord fault locked now maxRetries exclude publish (tbl, w) = (res, Some err, tbl', w') \<Longrightarrow> tbl' = tbl"
  by (auto simp: ProcessNext_def Let_def split: option.splits list.splits prod.splits)

end
