(* ===== verification/OutboxRun.thy ===== *)
theory OutboxRun
  imports Outbox
begin

text \<open>
  The processor's life (\<open>outbox/processor.go\<close>: \<open>Start\<close>, \<open>run\<close>, \<open>Stop\<close>) and what it reaches: \<open>run\<close> is
  driven by the list of the wake-ups its \<open>select\<close> receives, so a finite list is a prefix of a run that
  is still waiting. The liveness lemmas measure a table by the attempts its rows have left.
\<close>

section \<open>The loop\<close>

datatype wakeup = Tick | CtxDone | Stopped

fun run_loop :: "'w dbenv \<Rightarrow> ProcessorConfig \<Rightarrow> 'w publisher \<Rightarrow> wakeup list \<Rightarrow> otable \<times> 'w \<Rightarrow> bool \<times> otable \<times> 'w" where
  \<comment> \<open>the flag says whether the goroutine has returned\<close>
  "run_loop env p pub [] s = (False, s)"
| "run_loop env p pub (Tick # ws) s = (let (tried, n, s') = processBatch env p pub s in run_loop env p pub ws s')"
| "run_loop env p pub (CtxDone # ws) s = (True, s)"
| "run_loop env p pub (Stopped # ws) s = (True, s)"

definition run :: "'w dbenv \<Rightarrow> ProcessorConfig \<Rightarrow> 'w publisher \<Rightarrow> wakeup list \<Rightarrow> otable \<times> 'w \<Rightarrow> bool \<times> otable \<times> 'w" where
  "run env p pub ws s = (let (tried, n, s') = processBatch env p pub s in run_loop env p pub ws s')"

definition Processor_Start :: "'w dbenv \<Rightarrow> ProcessorConfig \<Rightarrow> 'w publisher \<Rightarrow> wakeup list \<Rightarrow> otable \<times> 'w \<Rightarrow> bool \<times> otable \<times> 'w" where
  \<comment> \<open>the goroutine it starts\<close>
  "Processor_Start env p pub ws s = run env p pub ws s"

definition Processor_Stop :: "bool \<Rightarrow> bool go" where
  \<comment> \<open>\<open>close(p.done)\<close>, given whether the channel is closed already\<close>
  "Processor_Stop was_closed = (if was_closed then Panic ''close of closed channel'' else Ret True)"

section \<open>Attempts left\<close>

definition credit :: "int \<Rightarrow> OutboxEvent \<Rightarrow> nat" where
  "credit maxRetries e = (if ProcessedAt e = None then nat (maxRetries - RetryCount e) else 0)"

definition potential :: "int \<Rightarrow> otable \<Rightarrow> nat" where
  "potential maxRetries tbl = sum_list (map (credit maxRetries) tbl)"

definition quiet :: "'w dbenv \<Rightarrow> bool" where
  \<comment> \<open>the database answers, and nobody else is at work on the table\<close>
  "quiet env \<longleftrightarrow>
     order_ok (db_ord env) \<and> (\<forall>w. db_locked env w = []) \<and> (\<forall>s. db_others env s = s)
     \<and> (\<forall>w. db_faults env w = \<lparr>select_fault = None, update_fault = None, commit_fault = None\<rparr>)"

lemma credit_pos: "0 < credit m e \<longleftrightarrow> claimable [] m [] e"
  by (auto simp: credit_def claimable_def)

lemma potential_0: "potential m tbl = 0 \<longleftrightarrow> (\<forall>e\<in>set tbl. \<not> claimable [] m [] e)"
  by (auto simp: potential_def simp flip: credit_pos)

lemma update_where_potential:
  assumes "\<And>e. P e \<Longrightarrow> credit m (f e) \<le> credit m e"
  shows "potential m (update_where P f tbl) \<le> potential m tbl"
  unfolding potential_def update_where_def map_map by (rule sum_list_mono) (simp add: assms)

lemma update_where_potential_less:
  assumes "\<And>e. P e \<Longrightarrow> credit m (f e) \<le> credit m e" and "x \<in> set tbl" and "P x" and "credit m (f x) < credit m x"
  shows "potential m (update_where P f tbl) < potential m tbl"
  using assms(2)
proof (induction tbl)
  case (Cons y ys)
  have le: "potential m (update_where P f ys) \<le> potential m ys" by (rule update_where_potential [OF assms(1)])
  have "credit m (if P y then f y else y) \<le> credit m y" by (simp add: assms(1))
  moreover have "y = x \<Longrightarrow> credit m (if P y then f y else y) < credit m y" using assms(3,4) by simp
  ultimately show ?case
    using Cons le by (cases "y = x") (auto simp: potential_def update_where_def)
qed simp

lemma mark_potential:
  "potential m (mark_failed i msg tbl) \<le> potential m tbl" "potential m (mark_processed i now tbl) \<le> potential m tbl"
  unfolding mark_failed_def mark_processed_def
  by (intro update_where_potential; force simp: credit_def intro!: nat_mono)+

lemma mark_potential_less:
  assumes "e \<in> set tbl" and "claimable locked m exclude e"
  shows "potential m (mark_failed (eID e) msg tbl) < potential m tbl"
    and "potential m (mark_processed (eID e) now tbl) < potential m tbl"
  unfolding mark_failed_def mark_processed_def
  using assms
  by (intro update_where_potential_less [of _ _ _ e]; force simp: credit_def claimable_def intro!: nat_mono)+

lemma ProcessNext_quiet:
  assumes "order_ok ord" and "fault = \<lparr>select_fault = None, update_fault = None, commit_fault = None\<rparr>"
    and "ProcessNext ord fault locked now m exclude publish (tbl, w) = (res, err, tbl', w')"
  shows "err = None \<and> map eID tbl' = map eID tbl
    \<and> (case cEvent res of
         None \<Rightarrow> tbl' = tbl \<and> w' = w \<and> (\<forall>x\<in>set tbl. \<not> claimable locked m exclude x)
       | Some e \<Rightarrow> e \<in> set tbl \<and> claimable locked m exclude e \<and> potential m tbl' < potential m tbl
           \<and> publish e w = (PublishErr res, w')
           \<and> tbl' = (case PublishErr res of None \<Rightarrow> mark_processed (eID e) now tbl | Some msg \<Rightarrow> mark_failed (eID e) msg tbl))"
proof (cases "ord (filter (claimable locked m exclude) tbl)")
  case Nil
  then have "filter (claimable locked m exclude) tbl = []"
    using order_ok_set [OF assms(1)] by (metis set_empty)
  with Nil assms(2,3) show ?thesis by (auto simp: ProcessNext_def Let_def filter_empty_conv)
next
  case (Cons e es)
  note h = order_ok_head(1) [OF assms(1) Cons]
  obtain perr v where p: "publish e w = (perr, v)" by fastforce
  have "res = \<lparr>cEvent = Some e, Claimed = True, PublishErr = perr\<rparr>" "err = None" "w' = v"
    "tbl' = (case perr of Some msg \<Rightarrow> mark_failed (eID e) msg tbl | None \<Rightarrow> mark_processed (eID e) now tbl)"
    using assms(2,3) by (auto simp: ProcessNext_def Cons p Let_def)
  with h p show ?thesis by (auto intro: mark_potential_less split: option.splits)
qed

section \<open>A tick as a sequence of claims\<close>

inductive qstep :: "int \<Rightarrow> (OutboxEvent \<Rightarrow> 'w \<Rightarrow> string option \<times> 'w) \<Rightarrow> otable \<times> 'w \<Rightarrow> otable \<times> 'w \<Rightarrow> bool"
  for m :: int and publish :: "OutboxEvent \<Rightarrow> 'w \<Rightarrow> string option \<times> 'w" where
  processed: "e \<in> set tbl \<Longrightarrow> claimable [] m [] e \<Longrightarrow> publish e w = (None, w') \<Longrightarrow>
    qstep m publish (tbl, w) (mark_processed (eID e) now tbl, w')"
| failed: "e \<in> set tbl \<Longrightarrow> claimable [] m [] e \<Longrightarrow> publish e w = (Some msg, w') \<Longrightarrow>
    qstep m publish (tbl, w) (mark_failed (eID e) msg tbl, w')"

lemma qstep_potential: "qstep m publish s t \<Longrightarrow> potential m (fst t) < potential m (fst s)"
  by (induction rule: qstep.induct) (auto intro: mark_potential_less)

lemma qsteps_potential: "(qstep m publish)\<^sup>*\<^sup>* s t \<Longrightarrow> potential m (fst t) \<le> potential m (fst s)"
  by (induction rule: rtranclp_induct) (auto dest: qstep_potential)

lemma qsteps_ids: "(qstep m publish)\<^sup>*\<^sup>* s t \<Longrightarrow> map eID (fst t) = map eID (fst s)"
  by (induction rule: rtranclp_induct) (auto elim: qstep.cases)

lemma claimable_weaken: "claimable locked m exclude e \<Longrightarrow> claimable [] m [] e"
  by (simp add: claimable_def)

lemma batch_loop_quiet:
  assumes "quiet env"
  shows "(qstep (MaxRetries p) publish)\<^sup>*\<^sup>* s (snd (snd (batch_loop env p publish tried n s)))
    \<and> (tried = [] \<and> 0 < BatchSize p \<and> 0 < potential (MaxRetries p) (fst s) \<longrightarrow>
        (qstep (MaxRetries p) publish)\<^sup>+\<^sup>+ s (snd (snd (batch_loop env p publish tried n s))))"
proof (induction "nat (BatchSize p - int (length tried))" arbitrary: tried n s rule: less_induct)
  case less
  show ?case
  proof (cases "int (length tried) < BatchSize p")
    case False
    then show ?thesis by (subst batch_loop.simps, subst (2) batch_loop.simps) auto
  next
    case True
    obtain tbl w where s: "s = (tbl, w)" by fastforce
    obtain res err tbl1 w1 where r: "ProcessNext (db_ord env) (db_faults env w) (db_locked env w) (db_now env w)
        (MaxRetries p) tried publish (tbl, w) = (res, err, tbl1, w1)" by (metis prod.exhaust)
    have o: "db_others env (tbl, w) = (tbl, w)" "order_ok (db_ord env)" "db_locked env w = []"
      "db_faults env w = \<lparr>select_fault = None, update_fault = None, commit_fault = None\<rparr>"
      using assms by (auto simp: quiet_def)
    note q = ProcessNext_quiet [OF o(2,4) r]
    then have err: "err = None" by blast
    show ?thesis
    proof (cases "cEvent res")
      case None
      with True r err o(1) have b: "snd (snd (batch_loop env p publish tried n s)) = (tbl1, w1)"
        unfolding s by (subst batch_loop.simps) simp
      from None q have "(tbl1, w1) = s" "tried = [] \<Longrightarrow> potential (MaxRetries p) tbl = 0"
        by (auto simp: s potential_0 o(3))
      then show ?thesis unfolding b by (auto simp: s)
    next
      case (Some e)
      let ?n = "if PublishErr res = None then n + 1 else n"
      from Some True r err o(1) have b: "batch_loop env p publish tried n s =
          batch_loop env p publish (tried @ [eID e]) ?n (tbl1, w1)"
        unfolding s by (subst batch_loop.simps) simp
      from Some q have st: "qstep (MaxRetries p) publish s (tbl1, w1)"
        unfolding s by (cases "PublishErr res") (auto intro: qstep.intros dest: claimable_weaken)
      have "nat (BatchSize p - int (length (tried @ [eID e]))) < nat (BatchSize p - int (length tried))"
        using True by simp
      from less.hyps [OF this, of "(tbl1, w1)" ?n] st
      have "(qstep (MaxRetries p) publish)\<^sup>+\<^sup>+ s (snd (snd (batch_loop env p publish tried n s)))"
        unfolding b by (meson rtranclp_into_tranclp2)
      then show ?thesis by (auto dest: tranclp_into_rtranclp)
    qed
  qed
qed

lemma tranclp_potential: "(qstep m publish)\<^sup>+\<^sup>+ s t \<Longrightarrow> potential m (fst t) < potential m (fst s)"
  by (induction rule: tranclp_induct) (auto dest: qstep_potential)

lemma processBatch_quiet:
  assumes "quiet env" and "processBatch env p pub s = (tried, n, s')"
  shows "(qstep (MaxRetries p) (processEvent pub))\<^sup>*\<^sup>* s s'"
    and "0 < BatchSize p \<Longrightarrow> potential (MaxRetries p) (fst s') \<le> potential (MaxRetries p) (fst s) - 1"
  using batch_loop_quiet [OF assms(1), of p "processEvent pub" s "[]" 0] assms(2)
    tranclp_potential [of "MaxRetries p" "processEvent pub" s s']
    qsteps_potential [of "MaxRetries p" "processEvent pub" s s']
  unfolding processBatch_def by auto

lemma run_loop_quiet:
  assumes "quiet env"
  shows "(qstep (MaxRetries p) (processEvent pub))\<^sup>*\<^sup>* s (snd (run_loop env p pub ws s))"
proof (induction ws arbitrary: s)
  case (Cons x ws)
  show ?case
  proof (cases x)
    case Tick
    obtain tried n s' where b: "processBatch env p pub s = (tried, n, s')" by (metis prod.exhaust)
    from processBatch_quiet(1) [OF assms b] Cons [of s'] show ?thesis
      unfolding Tick by (simp add: b)
  qed auto
qed simp

lemma run_loop_ticks:
  assumes "quiet env" and "0 < BatchSize p"
  shows "potential (MaxRetries p) (fst (snd (run_loop env p pub (replicate k Tick) s)))
    \<le> potential (MaxRetries p) (fst s) - k"
proof (induction k arbitrary: s)
  case (Suc k)
  obtain tried n s' where b: "processBatch env p pub s = (tried, n, s')" by (metis prod.exhaust)
  have "potential (MaxRetries p) (fst (snd (run_loop env p pub (replicate k Tick) s'))) \<le> potential (MaxRetries p) (fst s') - k"
    by (rule Suc)
  also have "\<dots> \<le> potential (MaxRetries p) (fst s) - 1 - k"
    using processBatch_quiet(2) [OF assms(1) b assms(2)] by (rule diff_le_mono)
  finally show ?case by (simp add: b)
qed simp

section \<open>Liveness\<close>

lemma NewProcessor_pos: "0 < BatchSize (NewProcessor config)" "0 < MaxRetries (NewProcessor config)"
  by (simp_all add: NewProcessor_def DefaultProcessorConfig_def Let_def)

lemma run_loop_stop:
  "run_loop env p pub (replicate k Tick @ [Stopped]) s = (True, snd (run_loop env p pub (replicate k Tick) s))"
  by (induction k arbitrary: s) (simp_all add: Let_def split: prod.splits)

lemma run_quiet:
  assumes "quiet env" and "potential (MaxRetries p) tbl \<le> Suc k" and "0 < BatchSize p"
    and "run env p pub (replicate k Tick @ [Stopped]) (tbl, w) = (returned, tbl', w')"
  shows "returned" and "(qstep (MaxRetries p) (processEvent pub))\<^sup>*\<^sup>* (tbl, w) (tbl', w')"
    and "potential (MaxRetries p) tbl' = 0"
proof -
  obtain tried n s' where b: "processBatch env p pub (tbl, w) = (tried, n, s')" by (metis prod.exhaust)
  with assms(4) have r: "returned" "(tbl', w') = snd (run_loop env p pub (replicate k Tick) s')"
    by (auto simp: run_def run_loop_stop)
  then show "returned" by simp
  show "(qstep (MaxRetries p) (processEvent pub))\<^sup>*\<^sup>* (tbl, w) (tbl', w')"
    unfolding r(2) by (rule rtranclp_trans [OF processBatch_quiet(1) [OF assms(1) b] run_loop_quiet [OF assms(1)]])
  have "potential (MaxRetries p) tbl' \<le> potential (MaxRetries p) (fst s') - k"
    using run_loop_ticks [OF assms(1,3), of pub k s'] r(2) by (metis fst_conv)
  also have "\<dots> \<le> potential (MaxRetries p) tbl - 1 - k"
    using processBatch_quiet(2) [OF assms(1) b assms(3)] by (simp add: diff_le_mono)
  finally show "potential (MaxRetries p) tbl' = 0" using assms(2) by simp
qed

lemma qsteps_accepting:
  assumes "(qstep m publish)\<^sup>*\<^sup>* s t" and "\<And>e w. fst (publish e w) = None"
  shows "e \<in> set (fst t) \<Longrightarrow> ProcessedAt e = None \<Longrightarrow> e \<in> set (fst s)"
  using assms(1)
proof (induction arbitrary: e rule: rtranclp_induct)
  case (step t u)
  from step.hyps(2) show ?case
  proof cases
    case (processed e' tbl w w' now)
    with step.prems have "e \<in> set (fst t)" by (auto simp: mark_processed_def update_where_def split: if_splits)
    with step show ?thesis by blast
  next
    case (failed e' tbl w msg w')
    with assms(2) [of e' w] show ?thesis by simp
  qed
qed simp

text \<open>
  C4. The processor settles every row: while nobody else works on the table and the database answers,
  a run that ticks once for each attempt the rows have left, and is then stopped, returns, and leaves
  every row either processed or failed \<open>MaxRetries\<close> times, whatever the publisher answered. It drops
  and adds no row; and with a publisher that accepts everything, the only unprocessed rows are those
  that had used up their attempts before.
\<close>
theorem outbox_settles:
  assumes "quiet env" and "potential (MaxRetries (NewProcessor config)) tbl \<le> Suc k"
    and "run env (NewProcessor config) pub (replicate k Tick @ [Stopped]) (tbl, w) = (returned, tbl', w')"
  shows "returned \<and> map eID tbl' = map eID tbl
    \<and> (\<forall>e\<in>set tbl'. ProcessedAt e \<noteq> None \<or> MaxRetries (NewProcessor config) \<le> RetryCount e)
    \<and> ((\<forall>e w. fst (processEvent pub e w) = None) \<longrightarrow>
        (\<forall>e\<in>set tbl'. ProcessedAt e = None \<longrightarrow> e \<in> set tbl \<and> MaxRetries (NewProcessor config) \<le> RetryCount e))"
proof -
  note r = run_quiet [OF assms(1,2) NewProcessor_pos(1) assms(3)]
  have "\<forall>e\<in>set tbl'. ProcessedAt e \<noteq> None \<or> MaxRetries (NewProcessor config) \<le> RetryCount e"
    using r(3) by (auto simp: potential_0 claimable_def)
  with r(1) qsteps_ids [OF r(2)] qsteps_accepting [OF r(2)] show ?thesis by fastforce
qed

definition sample_env :: "uuid list dbenv" where
  "sample_env =
     \<lparr>db_ord = sort_key CreatedAt,
      db_faults = \<lambda>_. \<lparr>select_fault = None, update_fault = None, commit_fault = None\<rparr>,
      db_locked = \<lambda>_. [], db_now = \<lambda>_. Time 9, db_others = \<lambda>s. s\<rparr>"

lemma sample_env_quiet: "quiet sample_env"
  by (simp add: quiet_def sample_env_def sort_order_ok)

definition refusing :: "uuid list publisher" where
  \<comment> \<open>refuses the row \<open>a\<close> and takes every other one\<close>
  "refusing =
     \<lparr>PublishWithHeaders = Some (\<lambda>subj data hs w. if map snd hs = [''a''] then (Some ''no stream'', w) else (None, w @ map snd hs)),
      Publish = \<lambda>subj data w. (None, w)\<rparr>"

theorem outbox_settles_witness:
  "\<exists>tbl' w'. run sample_env (NewProcessor \<lparr>Interval = 0, BatchSize = 3, MaxRetries = 2\<rparr>) refusing
       (replicate 3 Tick @ [Stopped]) ([sample_event ''a'' 1 0, sample_event ''b'' 2 0], []) = (True, tbl', w')
     \<and> map eID tbl' = [''a'', ''b'']
     \<and> list_all (\<lambda>e. ProcessedAt e \<noteq> None \<or> 2 \<le> RetryCount e) tbl'"
proof -
  let ?cfg = "\<lparr>Interval = 0, BatchSize = 3, MaxRetries = 2\<rparr>"
  let ?tbl = "[sample_event ''a'' 1 0, sample_event ''b'' 2 0]"
  obtain r tbl' w' where run: "run sample_env (NewProcessor ?cfg) refusing (replicate 3 Tick @ [Stopped]) (?tbl, []) = (r, tbl', w')"
    by (metis prod.exhaust)
  have "potential (MaxRetries (NewProcessor ?cfg)) ?tbl \<le> Suc 3"
    by (simp add: NewProcessor_def potential_def credit_def sample_event_def)
  from outbox_settles [OF sample_env_quiet this run] run show ?thesis
    by (simp add: list_all_iff NewProcessor_def sample_event_def)
qed

lemma qsteps_refused:
  assumes "(qstep m publish)\<^sup>*\<^sup>* s t" and "distinct (map eID (fst s))"
    and "e \<in> set (fst s)" and "ProcessedAt e = None" and "RetryCount e \<le> m"
    and "\<And>e' w. EventType e' = EventType e \<Longrightarrow> fst (publish e' w) \<noteq> None"
  shows "\<exists>y\<in>set (fst t). eID y = eID e \<and> EventType y = EventType e \<and> Payload y = Payload e \<and> ProcessedAt y = None
    \<and> RetryCount y \<le> m \<and> (RetryCount y = RetryCount e \<or> eError y \<noteq> None)"
  using assms(1)
proof (induction rule: rtranclp_induct)
  case base
  with assms(3-5) show ?case by blast
next
  case (step t u)
  then obtain y where y: "y \<in> set (fst t)" "eID y = eID e" "EventType y = EventType e" "Payload y = Payload e"
    "ProcessedAt y = None" "RetryCount y \<le> m" "RetryCount y = RetryCount e \<or> eError y \<noteq> None" by blast
  have d: "distinct (map eID (fst t))" using qsteps_ids [OF step.hyps(1)] assms(2) by simp
  from step.hyps(2) show ?case
  proof cases
    case (processed e' tbl w w' now)
    with assms(6) [of e' w] have "EventType e' \<noteq> EventType e" by auto
    then have "eID y \<noteq> eID e'" using distinct_row [OF d y(1), of e'] processed y(3) by auto
    then have "y \<in> set (fst u)" using y(1) processed by (auto simp: mark_processed_def update_where_def image_iff)
    with y show ?thesis by blast
  next
    case (failed e' tbl w msg w')
    show ?thesis
    proof (cases "eID y = eID e'")
      case True
      then have "y = e'" using distinct_row [OF d y(1), of e'] failed by auto
      with failed have "RetryCount y < m" "y\<lparr>eError := Some msg, RetryCount := RetryCount y + 1\<rparr> \<in> set (fst u)"
        by (auto simp: claimable_def mark_failed_def update_where_def image_iff intro!: bexI [of _ e'])
      with y show ?thesis by (intro bexI [of _ "y\<lparr>eError := Some msg, RetryCount := RetryCount y + 1\<rparr>"]) auto
    next
      case False
      then have "y \<in> set (fst u)" using y(1) failed by (auto simp: mark_failed_def update_where_def image_iff)
      with y show ?thesis by blast
    qed
  qed
qed

end
