(* ===== verification/EventCatalog.thy ===== *)
theory EventCatalog
  imports GoJson
begin



section \<open>Subjects\<close>

definition SubjectUserRegistered :: string where "SubjectUserRegistered = ''events.user.registered''"
definition SubjectUserPasswordResetRequested :: string where "SubjectUserPasswordResetRequested = ''events.user.password_reset_requested''"
definition SubjectOrderCreated :: string where "SubjectOrderCreated = ''events.order.created''"
definition SubjectOrderConfirmed :: string where "SubjectOrderConfirmed = ''events.order.confirmed''"
definition SubjectOrderCancelled :: string where "SubjectOrderCancelled = ''events.order.cancelled''"
definition SubjectOrderStatusChanged :: string where "SubjectOrderStatusChanged = ''events.order.status_changed''"
definition SubjectPaymentReceived :: string where "SubjectPaymentReceived = ''events.order.payment.received''"
definition SubjectPaymentVerified :: string where "SubjectPaymentVerified = ''events.order.payment.verified''"
definition SubjectPaymentRejected :: string where "SubjectPaymentRejected = ''events.order.payment.rejected''"
definition SubjectPaymentRefunded :: string where "SubjectPaymentRefunded = ''events.order.payment.refunded''"
definition SubjectInventoryStockUpdated :: string where "SubjectInventoryStockUpdated = ''events.inventory.stock.updated''"
definition SubjectInventoryProductRestocked :: string where "SubjectInventoryProductRestocked = ''events.inventory.product.restocked''"
definition SubjectCatalogProductCreated :: string where "SubjectCatalogProductCreated = ''events.catalog.product.created''"
definition SubjectCatalogProductUpdated :: string where "SubjectCatalogProductUpdated = ''events.catalog.product.updated''"
definition SubjectCatalogProductDeleted :: string where "SubjectCatalogProductDeleted = ''events.catalog.product.deleted''"
definition SubjectCatalogFlashSaleActivated :: string where "SubjectCatalogFlashSaleActivated = ''events.catalog.flash_sale.activated''"
definition SubjectCatalogFlashSaleDeactivated :: string where "SubjectCatalogFlashSaleDeactivated = ''events.catalog.flash_sale.deactivated''"
definition SubjectSupportTicketCreated :: string where "SubjectSupportTicketCreated = ''events.support.ticket.created''"
definition SubjectSupportTicketReplied :: string where "SubjectSupportTicketReplied = ''events.support.ticket.replied''"
definition SubjectSupportTicketResolved :: string where "SubjectSupportTicketResolved = ''events.support.ticket.resolved''"
definition SubjectMarketplaceSyncCompleted :: string where "SubjectMarketplaceSyncCompleted = ''events.marketplace.sync.completed''"
definition SubjectMarketplaceSyncFailed :: string where "SubjectMarketplaceSyncFailed = ''events.marketplace.sync.failed''"
definition SubjectMarketplaceSupplierHandoff :: string where "SubjectMarketplaceSupplierHandoff = ''events.marketplace.order.supplier_handoff''"
definition SubjectCustomerBackInStock :: string where "SubjectCustomerBackInStock = ''events.customer.back_in_stock''"
definition SubjectCustomerCreated :: string where "SubjectCustomerCreated = ''events.customer.created''"
definition SubjectAgentCommissionPaid :: string where "SubjectAgentCommissionPaid = ''events.agent.commission.paid''"

lemmas subject_defs =
  SubjectUserRegistered_def SubjectUserPasswordResetRequested_def SubjectOrderCreated_def
  SubjectOrderConfirmed_def SubjectOrderCancelled_def SubjectOrderStatusChanged_def
  SubjectPaymentReceived_def SubjectPaymentVerified_def SubjectPaymentRejected_def
  SubjectPaymentRefunded_def SubjectInventoryStockUpdated_def SubjectInventoryProductRestocked_def
  SubjectCatalogProductCreated_def SubjectCatalogProductUpdated_def SubjectCatalogProductDeleted_def
  SubjectCatalogFlashSaleActivated_def SubjectCatalogFlashSaleDeactivated_def SubjectSupportTicketCreated_def
  SubjectSupportTicketReplied_def SubjectSupportTicketResolved_def SubjectMarketplaceSyncCompleted_def
  SubjectMarketplaceSyncFailed_def SubjectMarketplaceSupplierHandoff_def SubjectCustomerBackInStock_def
  SubjectCustomerCreated_def SubjectAgentCommissionPaid_def

definition SubjectDomains :: "(string \<times> string) list" where
  \<comment> \<open>the map literal, as the list of its entries\<close>
  "SubjectDomains =
    [(SubjectUserRegistered, ''user''),
     (SubjectUserPasswordResetRequested, ''user''),
     (SubjectOrderCreated, ''order''),
     (SubjectOrderConfirmed, ''order''),
     (SubjectOrderCancelled, ''order''),
     (SubjectOrderStatusChanged, ''order''),
     (SubjectPaymentReceived, ''order''),
     (SubjectPaymentVerified, ''order''),
     (SubjectPaymentRejected, ''order''),
     (SubjectPaymentRefunded, ''order''),
     (SubjectInventoryStockUpdated, ''inventory''),
     (SubjectInventoryProductRestocked, ''inventory''),
     (SubjectCatalogProductCreated, ''catalog''),
     (SubjectCatalogProductUpdated, ''catalog''),
     (SubjectCatalogProductDeleted, ''catalog''),
     (SubjectCatalogFlashSaleActivated, ''catalog''),
     (SubjectCatalogFlashSaleDeactivated, ''catalog''),
     (SubjectSupportTicketCreated, ''support''),
     (SubjectSupportTicketReplied, ''support''),
     (SubjectSupportTicketResolved, ''support''),
     (SubjectMarketplaceSyncCompleted, ''marketplace''),
     (SubjectMarketplaceSyncFailed, ''marketplace''),
     (SubjectMarketplaceSupplierHandoff, ''marketplace''),
     (SubjectCustomerBackInStock, ''customer''),
     (SubjectCustomerCreated, ''customer''),
     (SubjectAgentCommissionPaid, ''agent'')]"

section \<open>Payloads\<close>

record UserRegisteredPayload =
  UserID :: string
  Email :: string
  Name :: string

definition zero_UserRegisteredPayload :: UserRegisteredPayload where
  "zero_UserRegisteredPayload =
     \<lparr>UserRegisteredPayload.UserID = '''',
      UserRegisteredPayload.Email = '''',
      UserRegisteredPayload.Name = ''''\<rparr>"

definition UserRegisteredPayload_tags :: "UserRegisteredPayload jfield list" where
  "UserRegisteredPayload_tags =
    [strf ''user_id'' False UserRegisteredPayload.UserID UserRegisteredPayload.UserID_update,
     strf ''email'' True UserRegisteredPayload.Email UserRegisteredPayload.Email_update,
     strf ''name'' True UserRegisteredPayload.Name UserRegisteredPayload.Name_update]"

record OrderEventPayload =
  OrderID :: string
  CustomerID :: string
  Status :: string

definition zero_OrderEventPayload :: OrderEventPayload where
  "zero_OrderEventPayload =
     \<lparr>OrderEventPayload.OrderID = '''',
      OrderEventPayload.CustomerID = '''',
      OrderEventPayload.Status = ''''\<rparr>"

definition OrderEventPayload_tags :: "OrderEventPayload jfield list" where
  "OrderEventPayload_tags =
    [strf ''order_id'' False OrderEventPayload.OrderID OrderEventPayload.OrderID_update,
     strf ''customer_id'' True OrderEventPayload.CustomerID OrderEventPayload.CustomerID_update,
     strf ''status'' True OrderEventPayload.Status OrderEventPayload.Status_update]"

record PaymentEventPayload =
  PaymentID :: string
  OrderID :: string
  Provider :: string
  Amount :: string

definition zero_PaymentEventPayload :: PaymentEventPayload where
  "zero_PaymentEventPayload =
     \<lparr>PaymentEventPayload.PaymentID = '''',
      PaymentEventPayload.OrderID = '''',
      PaymentEventPayload.Provider = '''',
      PaymentEventPayload.Amount = ''''\<rparr>"

definition PaymentEventPayload_tags :: "PaymentEventPayload jfield list" where
  "PaymentEventPayload_tags =
    [strf ''payment_id'' True PaymentEventPayload.PaymentID PaymentEventPayload.PaymentID_update,
     strf ''order_id'' False PaymentEventPayload.OrderID PaymentEventPayload.OrderID_update,
     strf ''provider'' True PaymentEventPayload.Provider PaymentEventPayload.Provider_update,
     strf ''amount'' True PaymentEventPayload.Amount PaymentEventPayload.Amount_update]"

record InventoryStockUpdatedPayload =
  ProductID :: string
  SKU :: string
  Quantity :: i64

definition zero_InventoryStockUpdatedPayload :: InventoryStockUpdatedPayload where
  "zero_InventoryStockUpdatedPayload =
     \<lparr>InventoryStockUpdatedPayload.ProductID = '''',
      InventoryStockUpdatedPayload.SKU = '''',
      InventoryStockUpdatedPayload.Quantity = 0\<rparr>"

definition InventoryStockUpdatedPayload_tags :: "InventoryStockUpdatedPayload jfield list" where
  "InventoryStockUpdatedPayload_tags =
    [strf ''product_id'' False InventoryStockUpdatedPayload.ProductID InventoryStockUpdatedPayload.ProductID_update,
     strf ''sku'' True InventoryStockUpdatedPayload.SKU InventoryStockUpdatedPayload.SKU_update,
     intf ''quantity'' InventoryStockUpdatedPayload.Quantity InventoryStockUpdatedPayload.Quantity_update]"

record CatalogProductPayload =
  ProductID :: string
  ProductType :: string
  Name :: string

definition zero_CatalogProductPayload :: CatalogProductPayload where
  "zero_CatalogProductPayload =
     \<lparr>CatalogProductPayload.ProductID = '''',
      CatalogProductPayload.ProductType = '''',
      CatalogProductPayload.Name = ''''\<rparr>"

definition CatalogProductPayload_tags :: "CatalogProductPayload jfield list" where
  "CatalogProductPayload_tags =
    [strf ''product_id'' False CatalogProductPayload.ProductID CatalogProductPayload.ProductID_update,
     strf ''product_type'' True CatalogProductPayload.ProductType CatalogProductPayload.ProductType_update,
     strf ''name'' True CatalogProductPayload.Name CatalogProductPayload.Name_update]"

record SupportTicketPayload =
  TicketID :: string
  CustomerID :: string
  Status :: string

definition zero_SupportTicketPayload :: SupportTicketPayload where
  "zero_SupportTicketPayload =
     \<lparr>SupportTicketPayload.TicketID = '''',
      SupportTicketPayload.CustomerID = '''',
      SupportTicketPayload.Status = ''''\<rparr>"

definition SupportTicketPayload_tags :: "SupportTicketPayload jfield list" where
  "SupportTicketPayload_tags =
    [strf ''ticket_id'' False SupportTicketPayload.TicketID SupportTicketPayload.TicketID_update,
     strf ''customer_id'' True SupportTicketPayload.CustomerID SupportTicketPayload.CustomerID_update,
     strf ''status'' True SupportTicketPayload.Status SupportTicketPayload.Status_update]"

record CustomerBackInStockPayload =
  SubscriptionID :: string
  CustomerID :: string
  CustomerEmail :: string
  CustomerName :: string
  ProductID :: string
  ProductName :: string
  ProductSlug :: string
  ProductImage :: string
  ProductURL :: string
  VariantID :: string
  VariantSKU :: string
  VariantName :: string
  StockQuantity :: i64



record MarketplaceSyncPayload =
  Marketplace :: string
  SyncID :: string
  Status :: string
  Error :: string

definition zero_MarketplaceSyncPayload :: MarketplaceSyncPayload where
  "zero_MarketplaceSyncPayload =
     \<lparr>MarketplaceSyncPayload.Marketplace = '''',
      MarketplaceSyncPayload.SyncID = '''',
      MarketplaceSyncPayload.Status = '''',
      MarketplaceSyncPayload.Error = ''''\<rparr>"

definition MarketplaceSyncPayload_tags :: "MarketplaceSyncPayload jfield list" where
  "MarketplaceSyncPayload_tags =
    [strf ''marketplace'' False MarketplaceSyncPayload.Marketplace MarketplaceSyncPayload.Marketplace_update,
     strf ''sync_id'' True MarketplaceSyncPayload.SyncID MarketplaceSyncPayload.SyncID_update,
     strf ''status'' False MarketplaceSyncPayload.Status MarketplaceSyncPayload.Status_update,
     strf ''error'' True MarketplaceSyncPayload.Error MarketplaceSyncPayload.Error_update]"

record OrderShippingAddress =
  Name :: string
  Phone :: string
  Email :: string
  Address :: string
  Address2 :: string
  City :: string
  Postcode :: string
  State :: string
  Country :: string



record OrderEventItem =
  ProductID :: string
  VariantID :: string
  ProductName :: string
  VariantName :: string
  SKU :: string
  Quantity :: i64
  UnitPrice :: float64



record OrderCreatedPayload =
  SchemaVersion :: i64
  OrderID :: string
  OrderNumber :: string
  CustomerID :: string
  CustomerName :: string
  CustomerEmail :: string
  CustomerPhone :: string
  Items :: "OrderEventItem list option"
  Total :: float64
  ShippingAddress :: OrderShippingAddress



record OrderStatusChangedPayload =
  SchemaVersion :: i64
  OrderID :: string
  OrderNumber :: string
  CustomerName :: string
  CustomerEmail :: string
  CustomerPhone :: string
  OldStatus :: string
  NewStatus :: string
  TrackingNumber :: string
  TrackingURL :: string
  Notes :: string



record SupplierHandoffLine =
  SKU :: string
  Name :: string
  VariantName :: string
  Quantity :: i64



record SupplierHandoffPayload =
  HandoffID :: string
  MarketplaceOrderID :: string
  Platform :: string
  PlatformOrderSN :: string
  ShipBy :: "Time option"
  SupplierID :: string
  SupplierName :: string
  SupplierEmail :: string
  LabelObjectKey :: string
  LabelFilename :: string
  Lines :: "SupplierHandoffLine list option"


section \<open>Methods of the payloads\<close>

definition OneLine :: "OrderShippingAddress \<Rightarrow> string" where
  "OneLine a =
     (let parts = [OrderShippingAddress.Address a, Address2 a, City a, Postcode a, State a, Country a];
          kept = filter (\<lambda>p. p \<noteq> '''') (map TrimSpace parts)
      in Join kept '', '')"

definition OrderStatusChanged_DeliverableTo :: "OrderStatusChangedPayload \<Rightarrow> bool" where
  "OrderStatusChanged_DeliverableTo p \<longleftrightarrow> OrderStatusChangedPayload.CustomerEmail p \<noteq> ''''"

definition OrderCreated_DeliverableTo :: "OrderCreatedPayload \<Rightarrow> bool" where
  "OrderCreated_DeliverableTo p \<longleftrightarrow> OrderCreatedPayload.CustomerEmail p \<noteq> ''''"

definition Deliverable :: "SupplierHandoffPayload \<Rightarrow> bool" where
  "Deliverable p \<longleftrightarrow>
     HandoffID p \<noteq> '''' \<and> SupplierEmail p \<noteq> '''' \<and> LabelObjectKey p \<noteq> ''''
     \<and> (case Lines p of None \<Rightarrow> 0 | Some ls \<Rightarrow> length ls) > 0"

section \<open>What a publisher writes, a consumer reads\<close>

lemma UserRegisteredPayload_reads_back:
  "reads_back (Marshal UserRegisteredPayload_tags) (Unmarshal UserRegisteredPayload_tags) zero_UserRegisteredPayload p"
  by (intro trip_Marshal, cases p)
    (simp add: UserRegisteredPayload_tags_def zero_UserRegisteredPayload_def field_for_next)


lemma OrderEventPayload_reads_back:
  "reads_back (Marshal OrderEventPayload_tags) (Unmarshal OrderEventPayload_tags) zero_OrderEventPayload p"
  by (intro trip_Marshal, cases p)
    (simp add: OrderEventPayload_tags_def zero_OrderEventPayload_def field_for_next)

lemma PaymentEventPayload_reads_back:
  "reads_back (Marshal PaymentEventPayload_tags) (Unmarshal PaymentEventPayload_tags) zero_PaymentEventPayload p"
  by (intro trip_Marshal, cases p)
    (simp add: PaymentEventPayload_tags_def zero_PaymentEventPayload_def field_for_next)

lemma InventoryStockUpdatedPayload_reads_back:
  "reads_back (Marshal InventoryStockUpdatedPayload_tags) (Unmarshal InventoryStockUpdatedPayload_tags)
     zero_InventoryStockUpdatedPayload p"
  by (intro trip_Marshal, cases p)
    (simp add: InventoryStockUpdatedPayload_tags_def zero_InventoryStockUpdatedPayload_def field_for_next)

lemma CatalogProductPayload_reads_back:
  "reads_back (Marshal CatalogProductPayload_tags) (Unmarshal CatalogProductPayload_tags) zero_CatalogProductPayload p"
  by (intro trip_Marshal, cases p)
    (simp add: CatalogProductPayload_tags_def zero_CatalogProductPayload_def field_for_next)

lemma SupportTicketPayload_reads_back:
  "reads_back (Marshal SupportTicketPayload_tags) (Unmarshal SupportTicketPayload_tags) zero_SupportTicketPayload p"
  by (intro trip_Marshal, cases p)
    (simp add: SupportTicketPayload_tags_def zero_SupportTicketPayload_def field_for_next)

lemma MarketplaceSyncPayload_reads_back:
  "reads_back (Marshal MarketplaceSyncPayload_tags) (Unmarshal MarketplaceSyncPayload_tags) zero_MarketplaceSyncPayload p"
  by (intro trip_Marshal, cases p)
    (simp add: MarketplaceSyncPayload_tags_def zero_MarketplaceSyncPayload_def field_for_next)
























text \<open>
  The one-line address joins the non-blank parts, trimmed, and never shows an empty part: it is
  empty exactly when every part is blank.
\<close>
lemma OneLine_empty:
  "OneLine a = '''' \<longleftrightarrow>
     list_all (\<lambda>p. TrimSpace p = '''') [OrderShippingAddress.Address a, Address2 a, City a, Postcode a, State a, Country a]"
proof -
  have j: "Join xs '', '' = '''' \<longleftrightarrow> xs = []" if "list_all (\<lambda>p. p \<noteq> '''') xs" for xs
    using that by (cases "(xs, '', '')" rule: Join.cases) auto
  have "OneLine a = '''' \<longleftrightarrow>
      filter (\<lambda>p. p \<noteq> '''') (map TrimSpace [OrderShippingAddress.Address a, Address2 a, City a, Postcode a, State a, Country a]) = []"
    unfolding OneLine_def Let_def by (rule j) (simp only: list_all_iff set_filter, blast)
  then show ?thesis by (simp only: filter_empty_conv list_all_iff set_map ball_simps) auto
qed

end
