(* ===== verification/Streams.thy ===== *)
theory Streams
  imports OutboxRun EventCatalog
begin

text \<open>
  \<open>nats/jetstream.go\<close>: the JetStream client, the default streams and the adapter that gives the
  client to the outbox processor. The NATS connection and the JetStream server are the record
  \<open>JetStream\<close> of the calls the code makes, on a world \<open>'w\<close>; \<open>matches\<close> is the server's subject
  matching, of which only the documented meaning of a trailing \<open>>\<close> is used (\<open>tail_wildcard\<close>).
\<close>

section \<open>Configurations\<close>

record StreamConfig =
  scName :: string
  scDescription :: string
  scSubjects :: "string list"
  scMaxAge :: Duration
  scMaxMsgs :: i64
  scMaxBytes :: i64
  scReplicas :: i64

record ConsumerConfig =
  ccName :: string
  ccStream :: string
  ccFilterSubject :: string
  ccAckWait :: Duration
  ccMaxDeliver :: i64
  ccMaxAckPending :: i64

datatype storage = FileStorage | MemoryStorage
datatype retention = LimitsPolicy | InterestPolicy | WorkQueuePolicy
datatype discard = DiscardOld | DiscardNew
datatype ack_policy = AckExplicitPolicy | AckAllPolicy | AckNonePolicy
datatype deliver_policy = DeliverAllPolicy | DeliverNewPolicy

record jsStreamConfig = StreamConfig +
  Storage :: storage
  Retention :: retention
  Discard :: discard

record jsConsumerConfig =
  jcName :: string
  jcDurable :: string
  jcFilterSubject :: string
  jcAckPolicy :: ack_policy
  jcAckWait :: Duration
  jcMaxDeliver :: i64
  jcMaxAckPending :: i64
  jcDeliverPolicy :: deliver_policy

definition day :: Duration where
  "day = 24 * Hour"

definition default_stream :: "string \<Rightarrow> string \<Rightarrow> string \<Rightarrow> int \<Rightarrow> i64 \<Rightarrow> i64 \<Rightarrow> StreamConfig" where
  "default_stream name description subject days msgs megabytes =
     \<lparr>scName = name, scDescription = description, scSubjects = [subject], scMaxAge = days * day,
      scMaxMsgs = msgs, scMaxBytes = megabytes * 1024 * 1024, scReplicas = 1\<rparr>"

definition DefaultStreams :: "StreamConfig list" where
  "DefaultStreams =
    [default_stream ''EVENTS_USER'' ''User account and authentication events'' ''events.user.>'' 30 50000 50,
     default_stream ''EVENTS_ORDER'' ''Order and payment lifecycle events'' ''events.order.>'' 30 100000 200,
     default_stream ''EVENTS_INVENTORY'' ''Inventory and stock events'' ''events.inventory.>'' 14 100000 150,
     default_stream ''EVENTS_CATALOG'' ''Catalog product and promotion events'' ''events.catalog.>'' 7 50000 100,
     default_stream ''EVENTS_SUPPORT'' ''Support ticket events'' ''events.support.>'' 7 50000 50,
     default_stream ''EVENTS_MARKETPLACE'' ''Marketplace synchronization events'' ''events.marketplace.>'' 3 50000 50,
     default_stream ''EVENTS_CUSTOMER''
       (''Customer lifecycle events '' @ [CHR 0xE2, CHR 0x80, CHR 0x94] @ '' back-in-stock notifications, and whatever follows'')
       ''events.customer.>'' 30 50000 50]"

section \<open>The client\<close>

record Msg =
  mSubject :: string
  mData :: string
  mHeader :: "(string \<rightharpoonup> string list) option"

record 'w JetStream =
  CreateOrUpdateStream :: "jsStreamConfig \<Rightarrow> 'w \<Rightarrow> string option \<times> 'w"
  LookupStream :: "string \<Rightarrow> 'w \<Rightarrow> string option \<times> 'w"
  CreateOrUpdateConsumer :: "string \<Rightarrow> jsConsumerConfig \<Rightarrow> 'w \<Rightarrow> string option \<times> 'w"
  PublishMsg :: "Msg \<Rightarrow> 'w \<Rightarrow> string option \<times> 'w"
  js_PublishAsync :: "string \<Rightarrow> string \<Rightarrow> 'w \<Rightarrow> string option \<times> 'w"
  AccountInfo :: "'w \<Rightarrow> string option \<times> 'w"
  IsConnected :: "'w \<Rightarrow> bool"
  Drain :: "'w \<Rightarrow> 'w"
  CloseConn :: "'w \<Rightarrow> 'w"

function connect_loop :: "(nat \<Rightarrow> string + 'c) \<Rightarrow> nat \<Rightarrow> (string + 'c) \<Rightarrow> nat \<Rightarrow> (string + 'c) \<times> nat" where
  \<comment> \<open>\<open>connect i\<close> is what the i-th call of \<open>nats.Connect\<close> returns; the second result counts the sleeps\<close>
  "connect_loop connect i prev sleeps =
     (if i < 10 then
        (case connect i of
           Inr nc \<Rightarrow> (Inr nc, sleeps)
         | Inl err \<Rightarrow> connect_loop connect (i + 1) (Inl err) (sleeps + 1))
      else (prev, sleeps))"
  by pat_completeness auto
termination
  by (relation "measure (\<lambda>(connect, i, prev, sleeps). 10 - i)") auto

declare connect_loop.simps [simp del]

datatype 'c connected =
    Client 'c
  | ConnectFailed string
  | ContextFailed string 'c
    \<comment> \<open>\<open>jetstream.New\<close> failed and the connection was closed\<close>

definition NewJetStreamClient ::
  "(nat \<Rightarrow> string + 'c) \<Rightarrow> ('c \<Rightarrow> string option) \<Rightarrow> 'c connected \<times> Duration" where
  \<comment> \<open>with the time spent sleeping; \<open>New nc\<close> is the error of \<open>jetstream.New(nc)\<close>\<close>
  "NewJetStreamClient connect New =
     (let (r, sleeps) = connect_loop connect 0 (Inl '''') 0; slept = int sleeps * (2 * Second)
      in case r of
           Inl err \<Rightarrow> (ConnectFailed (''failed to connect to NATS after retries: '' @ err), slept)
         | Inr nc \<Rightarrow>
             (case New nc of
                Some err \<Rightarrow> (ContextFailed (''failed to create JetStream context: '' @ err) nc, slept)
              | None \<Rightarrow> (Client nc, slept)))"

definition EnsureStream :: "'w JetStream \<Rightarrow> StreamConfig \<Rightarrow> 'w \<Rightarrow> string option \<times> 'w" where
  "EnsureStream js cfg w =
     (let streamCfg = \<lparr>scName = scName cfg, scDescription = scDescription cfg, scSubjects = scSubjects cfg,
            scMaxAge = scMaxAge cfg, scMaxMsgs = scMaxMsgs cfg, scMaxBytes = scMaxBytes cfg,
            scReplicas = scReplicas cfg, Storage = FileStorage, Retention = LimitsPolicy, Discard = DiscardOld\<rparr>
      in case CreateOrUpdateStream js streamCfg w of
           (Some err, w') \<Rightarrow> (Some (''failed to create/update stream '' @ scName cfg @ '': '' @ err), w')
         | (None, w') \<Rightarrow> (None, w'))"

fun ensure_streams :: "'w JetStream \<Rightarrow> StreamConfig list \<Rightarrow> 'w \<Rightarrow> string option \<times> 'w" where
  "ensure_streams js [] w = (None, w)"
| "ensure_streams js (cfg # cfgs) w =
     (case EnsureStream js cfg w of
        (Some err, w') \<Rightarrow> (Some err, w')
      | (None, w') \<Rightarrow> ensure_streams js cfgs w')"

definition EnsureDefaultStreams :: "'w JetStream \<Rightarrow> 'w \<Rightarrow> string option \<times> 'w" where
  "EnsureDefaultStreams js w = ensure_streams js DefaultStreams w"

definition CreateDurableConsumer :: "'w JetStream \<Rightarrow> ConsumerConfig \<Rightarrow> 'w \<Rightarrow> string option \<times> 'w" where
  "CreateDurableConsumer js cfg w =
     (case LookupStream js (ccStream cfg) w of
        (Some err, w') \<Rightarrow> (Some (''stream '' @ ccStream cfg @ '' not found: '' @ err), w')
      | (None, w') \<Rightarrow>
          (let consumerCfg = \<lparr>jcName = ccName cfg, jcDurable = ccName cfg, jcFilterSubject = ccFilterSubject cfg,
                 jcAckPolicy = AckExplicitPolicy, jcAckWait = ccAckWait cfg, jcMaxDeliver = ccMaxDeliver cfg,
                 jcMaxAckPending = ccMaxAckPending cfg, jcDeliverPolicy = DeliverNewPolicy\<rparr>
           in case CreateOrUpdateConsumer js (ccStream cfg) consumerCfg w' of
                (Some err, w'') \<Rightarrow> (Some (''failed to create consumer '' @ ccName cfg @ '': '' @ err), w'')
              | (None, w'') \<Rightarrow> (None, w'')))"

definition js_publish :: "'w JetStream \<Rightarrow> string \<Rightarrow> string \<Rightarrow> (string \<times> string) list \<Rightarrow> 'w \<Rightarrow> string option \<times> 'w" where
  \<comment> \<open>the headers are the entries of a Go map, so their keys are distinct; an empty or nil map sets none\<close>
  "js_publish js subject data headers w =
     (let msg = \<lparr>mSubject = subject, mData = data,
            mHeader = (if 0 < length headers then Some (map_of (map (\<lambda>(k, v). (k, [v])) headers)) else None)\<rparr>
      in PublishMsg js msg w)"

definition js_Publish :: "'w JetStream \<Rightarrow> string \<Rightarrow> string \<Rightarrow> 'w \<Rightarrow> string option \<times> 'w" where
  "js_Publish js subject data w = js_publish js subject data [] w"

definition js_PublishWithHeaders ::
  "'w JetStream \<Rightarrow> string \<Rightarrow> string \<Rightarrow> (string \<times> string) list \<Rightarrow> 'w \<Rightarrow> string option \<times> 'w" where
  "js_PublishWithHeaders js subject data headers w = js_publish js subject data headers w"

definition PublishAsync :: "'w JetStream \<Rightarrow> string \<Rightarrow> string \<Rightarrow> 'w \<Rightarrow> string option \<times> 'w" where
  "PublishAsync js subject data w = js_PublishAsync js subject data w"

definition js_Subscribe ::
  "(string \<Rightarrow> ('m \<Rightarrow> 'w \<Rightarrow> 'w) \<Rightarrow> 'w \<Rightarrow> string option \<times> 'w) \<Rightarrow> string \<Rightarrow> ('m \<Rightarrow> 'w \<Rightarrow> 'w) \<Rightarrow> 'w \<Rightarrow> string option \<times> 'w" where
  \<comment> \<open>the first argument is \<open>Subscribe\<close> of the connection\<close>
  "js_Subscribe subscribe subject handler w = subscribe subject handler w"

definition ConsumeMessages ::
  "(('m \<Rightarrow> 'w \<Rightarrow> 'w) \<Rightarrow> 'w \<Rightarrow> string option \<times> 'w) \<Rightarrow> ('m \<Rightarrow> 'w \<Rightarrow> 'w) \<Rightarrow> 'w \<Rightarrow> string option \<times> 'w" where
  \<comment> \<open>the first argument is \<open>Consume\<close> of the consumer\<close>
  "ConsumeMessages consume handler w = consume (\<lambda>msg. handler msg) w"

definition NewOutboxPublisher :: "'w JetStream \<Rightarrow> 'w publisher" where
  \<comment> \<open>\<open>OutboxPublisher\<close> implements \<open>Publisher\<close> and \<open>HeaderPublisher\<close>\<close>
  "NewOutboxPublisher js =
     \<lparr>PublishWithHeaders = Some (\<lambda>subject data headers w. js_publish js subject data headers w),
      Publish = \<lambda>subject data w. js_publish js subject data [] w\<rparr>"

definition js_Close :: "'w JetStream option \<Rightarrow> 'w \<Rightarrow> 'w" where
  \<comment> \<open>\<open>None\<close>: the client has no connection\<close>
  "js_Close nc w = (case nc of None \<Rightarrow> w | Some js \<Rightarrow> CloseConn js (Drain js w))"

definition js_HealthCheck :: "'w JetStream \<Rightarrow> 'w \<Rightarrow> string option \<times> 'w" where
  "js_HealthCheck js w =
     (if \<not> IsConnected js w then (Some ''NATS not connected'', w)
      else case AccountInfo js w of
             (Some err, w') \<Rightarrow> (Some (''JetStream not available: '' @ err), w')
           | (None, w') \<Rightarrow> (None, w'))"

section \<open>Which stream carries which subject\<close>

definition wildcard_free :: "string \<Rightarrow> bool" where
  "wildcard_free p \<longleftrightarrow> CHR ''*'' \<notin> set p \<and> CHR ''>'' \<notin> set p"

definition tail_wildcard :: "(string \<Rightarrow> string \<Rightarrow> bool) \<Rightarrow> bool" where
  \<comment> \<open>NATS: a trailing \<open>>\<close> stands for one or more further tokens\<close>
  "tail_wildcard matches \<longleftrightarrow>
     (\<forall>p s. wildcard_free p \<longrightarrow> (matches (p @ ''.>'') s \<longleftrightarrow> (\<exists>r. r \<noteq> '''' \<and> s = p @ ''.'' @ r)))"

definition captures :: "(string \<Rightarrow> string \<Rightarrow> bool) \<Rightarrow> ('a) StreamConfig_scheme \<Rightarrow> string \<Rightarrow> bool" where
  "captures matches cfg s \<longleftrightarrow> list_ex (\<lambda>p. matches p s) (scSubjects cfg)"

definition domains :: "string list" where
  "domains = [''user'', ''order'', ''inventory'', ''catalog'', ''support'', ''marketplace'', ''customer'']"

lemma DefaultStreams_subjects: "map scSubjects DefaultStreams = map (\<lambda>d. [''events.'' @ d @ ''.>'']) domains"
  by (simp add: DefaultStreams_def default_stream_def domains_def)

lemma DefaultStreams_names: "map scName DefaultStreams = map (\<lambda>d. ''EVENTS_'' @ ToUpper d) domains"
  by code_simp

lemma tail_wildcard_literal:
  assumes "tail_wildcard matches" and "wildcard_free d"
  shows "matches (''events.'' @ d @ ''.>'') s \<longleftrightarrow> (\<exists>r. r \<noteq> '''' \<and> s = ''events.'' @ d @ ''.'' @ r)"
proof -
  have "wildcard_free (''events.'' @ d)" using assms(2) by (simp add: wildcard_free_def)
  with assms(1) have "matches ((''events.'' @ d) @ ''.>'') s \<longleftrightarrow> (\<exists>r. r \<noteq> '''' \<and> s = (''events.'' @ d) @ ''.'' @ r)"
    unfolding tail_wildcard_def by blast
  then show ?thesis by simp
qed

definition in_domain :: "string \<Rightarrow> string \<Rightarrow> bool" where
  "in_domain s d \<longleftrightarrow> HasPrefix s (''events.'' @ d @ ''.'') \<and> length (''events.'' @ d @ ''.'') < length s"

lemma in_domain_iff: "in_domain s d \<longleftrightarrow> (\<exists>r. r \<noteq> '''' \<and> s = ''events.'' @ d @ ''.'' @ r)"
  by (auto simp: in_domain_def prefix_def)

lemma domains_ok: "list_all wildcard_free domains" "distinct domains" "list_all (\<lambda>d. CHR ''.'' \<notin> set d) domains"
  by (simp_all add: domains_def wildcard_free_def)

lemma captured_names:
  assumes "tail_wildcard matches"
  shows "map scName (filter (\<lambda>cfg. captures matches cfg s) DefaultStreams) =
    map (\<lambda>d. ''EVENTS_'' @ ToUpper d) (filter (in_domain s) domains)"
proof -
  have "map scName (filter (\<lambda>cfg. captures matches cfg s) cfgs) = map (\<lambda>d. ''EVENTS_'' @ ToUpper d) (filter (in_domain s) ds)"
    if "map scSubjects cfgs = map (\<lambda>d. [''events.'' @ d @ ''.>'']) ds" "list_all wildcard_free ds"
      "map scName cfgs = map (\<lambda>d. ''EVENTS_'' @ ToUpper d) ds" for cfgs :: "StreamConfig list" and ds
    using that
  proof (induction ds arbitrary: cfgs)
    case (Cons d ds)
    then obtain c cs where c: "cfgs = c # cs" "scSubjects c = [''events.'' @ d @ ''.>'']" "scName c = ''EVENTS_'' @ ToUpper d"
      by (cases cfgs) auto
    have "captures matches c s \<longleftrightarrow> in_domain s d"
      using tail_wildcard_literal [OF assms, of d s] Cons.prems(2)
      by (simp add: captures_def c(2) in_domain_iff)
    with Cons c show ?case by simp
  qed simp
  from this [OF DefaultStreams_subjects domains_ok(1) DefaultStreams_names] show ?thesis .
qed

lemma in_domain_unique:
  assumes "in_domain s d" and "in_domain s d'" and "CHR ''.'' \<notin> set d" and "CHR ''.'' \<notin> set d'"
  shows "d = d'"
proof -
  from assms(1,2) obtain r r' where "d @ ''.'' @ r = d' @ ''.'' @ r'" by (auto simp: in_domain_iff)
  moreover have "takeWhile (\<lambda>c. c \<noteq> CHR ''.'') (d @ ''.'' @ r) = d" if "CHR ''.'' \<notin> set d" for d r
    using that by (induction d) auto
  ultimately show ?thesis using assms(3,4) by metis
qed

lemma domains_at_most_one: "length (filter (in_domain s) domains) \<le> 1"
proof (rule ccontr)
  assume "\<not> ?thesis"
  then have "2 \<le> length (filter (in_domain s) domains)" by simp
  then obtain a b xs where f: "filter (in_domain s) domains = a # b # xs"
    by (metis Suc_le_length_iff numeral_2_eq_2)
  then have "{a, b} \<subseteq> set (filter (in_domain s) domains)" by simp
  then have "a \<in> set domains" "b \<in> set domains" "in_domain s a" "in_domain s b" by auto
  with domains_ok(3) have "a = b" by (intro in_domain_unique) (auto simp: list_all_iff)
  moreover have "distinct (a # b # xs)" using domains_ok(2) f by (metis distinct_filter)
  ultimately show False by simp
qed

lemma subjects_in_domains:
  "list_all (\<lambda>(s, d). filter (in_domain s) domains = (if d = ''agent'' then [] else [d])) SubjectDomains"
  by code_simp

text \<open>
  Every subject of the catalog is captured by exactly one default stream, that of its domain
  (\<open>EVENTS_ORDER\<close> for the order and payment subjects, and so on), with one exception: no stream
  carries the agent subject. No subject whatever is captured by two default streams.
\<close>
theorem stream_routing:
  assumes "tail_wildcard matches"
  shows "list_all (\<lambda>(s, d). map scName (filter (\<lambda>cfg. captures matches cfg s) DefaultStreams) =
           (if d = ''agent'' then [] else [''EVENTS_'' @ ToUpper d])) SubjectDomains
       \<and> length (filter (\<lambda>cfg. captures matches cfg s) DefaultStreams) \<le> 1"
proof
  show "list_all (\<lambda>(s, d). map scName (filter (\<lambda>cfg. captures matches cfg s) DefaultStreams) =
      (if d = ''agent'' then [] else [''EVENTS_'' @ ToUpper d])) SubjectDomains"
    using subjects_in_domains unfolding captured_names [OF assms] by (auto simp: list_all_iff)
  have "length (map scName (filter (\<lambda>cfg. captures matches cfg s) DefaultStreams)) \<le> 1"
    unfolding captured_names [OF assms] using domains_at_most_one [of s] by simp
  then show "length (filter (\<lambda>cfg. captures matches cfg s) DefaultStreams) \<le> 1" by simp
qed

definition sample_matches :: "string \<Rightarrow> string \<Rightarrow> bool" where
  \<comment> \<open>the tail wildcard as a prefix test; any other pattern as itself\<close>
  "sample_matches p s \<longleftrightarrow>
     (if HasSuffix p ''.>'' then HasPrefix s (TrimSuffix p ''>'') \<and> length p - 1 < length s else s = p)"

lemma sample_matches_ok: "tail_wildcard sample_matches"
proof -
  have "TrimSuffix (p @ ''.>'') ''>'' = p @ ''.''" for p
    using TrimSuffix_append [of "p @ ''.''" "''>''"] by simp
  then have "sample_matches (p @ ''.>'') s \<longleftrightarrow> (\<exists>r. r \<noteq> '''' \<and> s = p @ ''.'' @ r)" for p s
    by (auto simp: sample_matches_def prefix_def suffix_def)
  then show ?thesis by (simp add: tail_wildcard_def)
qed

theorem stream_routing_witness:
  "map scName (filter (\<lambda>cfg. captures sample_matches cfg SubjectPaymentReceived) DefaultStreams) = [''EVENTS_ORDER'']"
proof -
  have "(SubjectPaymentReceived, ''order'') \<in> set SubjectDomains" by (simp add: SubjectDomains_def)
  moreover have "''EVENTS_'' @ ToUpper ''order'' = ''EVENTS_ORDER''" by code_simp
  ultimately show ?thesis using stream_routing [OF sample_matches_ok] by (force simp: list_all_iff)
qed

section \<open>Connecting\<close>

lemma connect_loop_result:
  "connect_loop connect i prev sleeps =
     (let k = length (takeWhile (\<lambda>j. isl (connect j)) [i..<10])
      in (if i + k < 10 then connect (i + k) else if k = 0 then prev else connect 9, sleeps + k))"
proof (induction "10 - i" arbitrary: i prev sleeps)
  case 0
  then show ?case by (subst connect_loop.simps) simp
next
  case (Suc x)
  then have i: "i < 10" "x = 10 - (i + 1)" by auto
  define k where "k = length (takeWhile (\<lambda>j. isl (connect j)) [i + 1..<10])"
  have tw: "length (takeWhile (\<lambda>j. isl (connect j)) [i..<10]) = (if isl (connect i) then k + 1 else 0)"
    unfolding upt_conv_Cons [OF i(1)] k_def by simp
  show ?case
  proof (cases "connect i")
    case (Inr c)
    with i(1) show ?thesis by (subst connect_loop.simps) (simp add: tw)
  next
    case (Inl e)
    have "connect_loop connect i prev sleeps = connect_loop connect (i + 1) (Inl e) (sleeps + 1)"
      using i(1) Inl by (subst connect_loop.simps) simp
    also have "\<dots> = (if i + 1 + k < 10 then connect (i + 1 + k) else if k = 0 then Inl e else connect 9, sleeps + 1 + k)"
      unfolding Suc(1) [OF i(2)] Let_def k_def [symmetric] ..
    also have "\<dots> = (if i + (k + 1) < 10 then connect (i + (k + 1)) else connect 9, sleeps + (k + 1))"
      using Inl i(1) by (cases "i = 9") auto
    finally show ?thesis by (simp add: tw Inl Let_def)
  qed
qed

text \<open>
  Connecting always comes to an end: at most ten attempts and twenty seconds of waiting, two
  seconds after each failed attempt. The client is built on the first connection that succeeds; after
  ten failures the error is that of the last attempt; and when the JetStream context cannot be made,
  the connection is closed and no client is returned.
\<close>
theorem NewJetStreamClient_spec:
  "let k = length (takeWhile (\<lambda>i. isl (connect i)) [0..<10])
   in snd (NewJetStreamClient connect New) = int k * (2 * Second)
    \<and> snd (NewJetStreamClient connect New) \<le> 20 * Second
    \<and> fst (NewJetStreamClient connect New) =
        (if k = 10 then ConnectFailed (''failed to connect to NATS after retries: '' @ projl (connect 9))
         else case New (projr (connect k)) of
                None \<Rightarrow> Client (projr (connect k))
              | Some err \<Rightarrow> ContextFailed (''failed to create JetStream context: '' @ err) (projr (connect k)))"
proof -
  define k where "k = length (takeWhile (\<lambda>i. isl (connect i)) [0..<10])"
  have le: "k \<le> 10" unfolding k_def using length_takeWhile_le [of _ "[0..<10]"] by (metis diff_zero length_upt)
  have l: "connect_loop connect 0 (Inl '''') 0 = (if k < 10 then connect k else connect 9, k)"
    unfolding connect_loop_result Let_def k_def [symmetric] using le by auto
  have ok: "k < 10 \<Longrightarrow> \<not> isl (connect k)"
    using nth_length_takeWhile [of "\<lambda>i. isl (connect i)" "[0..<10]"] unfolding k_def [symmetric] by simp
  have bad: "k = 10 \<Longrightarrow> isl (connect 9)"
  proof -
    assume "k = 10"
    then have "takeWhile (\<lambda>i. isl (connect i)) [0..<10] = [0..<10]"
      unfolding k_def by (metis diff_zero length_upt takeWhile_eq_take take_all order_refl)
    then show ?thesis unfolding takeWhile_eq_all_conv by simp
  qed
  have "int k * (2 * Second) \<le> 20 * Second" using le by (simp add: Second_def)
  with ok bad le show ?thesis unfolding k_def [symmetric] Let_def
    by (cases "k < 10"; cases "connect k"; cases "connect 9")
      (auto simp: NewJetStreamClient_def l split: option.splits)
qed

section \<open>The outbox on the default streams\<close>

lemma processEvent_JetStream:
  "processEvent (NewOutboxPublisher js) e w =
     PublishMsg js \<lparr>mSubject = EventType e, mData = Payload e, mHeader = Some [''Nats-Msg-Id'' \<mapsto> [eID e]]\<rparr> w"
  by (simp add: processEvent_def NewOutboxPublisher_def js_publish_def)

definition needs_stream :: "(string \<Rightarrow> string \<Rightarrow> bool) \<Rightarrow> StreamConfig list \<Rightarrow> 'w JetStream \<Rightarrow> bool" where
  \<comment> \<open>a publish is acknowledged by a stream that captures the subject; without one it fails\<close>
  "needs_stream matches cfgs js \<longleftrightarrow>
     (\<forall>m w. \<not> list_ex (\<lambda>cfg. captures matches cfg (mSubject m)) cfgs \<longrightarrow> fst (PublishMsg js m w) \<noteq> None)"

text \<open>
  C11. A subject with no stream never leaves the outbox, and is not retried forever: with only the
  default streams on the server, a row whose event type is outside the seven domains, the agent
  subject for one, ends unprocessed with its payload, its error recorded and exactly \<open>MaxRetries\<close>
  failures, after which the processor no longer claims it.
\<close>
theorem uncaptured_event_kept:
  assumes "tail_wildcard matches" and "needs_stream matches DefaultStreams js" and "quiet env"
    and "distinct (map eID tbl)" and "e \<in> set tbl" and "list_all (\<lambda>d. \<not> in_domain (EventType e) d) domains"
    and "ProcessedAt e = None" and "RetryCount e < MaxRetries (NewProcessor config)"
    and "potential (MaxRetries (NewProcessor config)) tbl \<le> Suc k"
    and "run env (NewProcessor config) (NewOutboxPublisher js) (replicate k Tick @ [Stopped]) (tbl, w) = (returned, tbl', w')"
  shows "\<exists>y\<in>set tbl'. eID y = eID e \<and> Payload y = Payload e \<and> ProcessedAt y = None \<and> eError y \<noteq> None
    \<and> RetryCount y = MaxRetries (NewProcessor config)
    \<and> \<not> claimable locked (MaxRetries (NewProcessor config)) exclude y"
proof -
  let ?m = "MaxRetries (NewProcessor config)"
  note r = run_quiet [OF assms(3,9) NewProcessor_pos(1) assms(10)]
  have "map scName (filter (\<lambda>cfg. captures matches cfg (EventType e)) DefaultStreams) = []"
    unfolding captured_names [OF assms(1)] using assms(6) by (auto simp: list_all_iff filter_empty_conv)
  then have "\<not> list_ex (\<lambda>cfg. captures matches cfg (EventType e)) DefaultStreams"
    by (auto simp: list_ex_iff filter_empty_conv)
  then have "fst (processEvent (NewOutboxPublisher js) e' v) \<noteq> None" if "EventType e' = EventType e" for e' v
    using assms(2) that by (simp add: needs_stream_def processEvent_JetStream)
  from qsteps_refused [OF r(2) _ _ assms(7) _ this] assms(4,5,8)
  obtain y where y: "y \<in> set tbl'" "eID y = eID e" "Payload y = Payload e" "ProcessedAt y = None"
    "RetryCount y \<le> ?m" "RetryCount y = RetryCount e \<or> eError y \<noteq> None" by auto
  have "\<not> claimable [] ?m [] y" using r(3) y(1) by (simp add: potential_0)
  then have "RetryCount y = ?m" using y(4,5) by (simp add: claimable_def)
  with y assms(8) show ?thesis by (intro bexI [of _ y]) (auto simp: claimable_def)
qed

definition sample_js :: "uuid list JetStream" where
  \<comment> \<open>a server with the default streams that records what it stores\<close>
  "sample_js =
     \<lparr>CreateOrUpdateStream = \<lambda>_ w. (None, w), LookupStream = \<lambda>_ w. (None, w),
      CreateOrUpdateConsumer = \<lambda>_ _ w. (None, w),
      PublishMsg = \<lambda>m w. if list_ex (\<lambda>cfg. captures sample_matches cfg (mSubject m)) DefaultStreams
                         then (None, w @ [mData m]) else (Some ''nats: no response from stream'', w),
      js_PublishAsync = \<lambda>_ _ w. (None, w), AccountInfo = \<lambda>w. (None, w), IsConnected = \<lambda>_. True,
      Drain = \<lambda>w. w, CloseConn = \<lambda>w. w\<rparr>"

lemma sample_js_needs_stream: "needs_stream sample_matches DefaultStreams sample_js"
  by (simp add: needs_stream_def sample_js_def)

definition agent_event :: OutboxEvent where
  "agent_event = (sample_event ''a'' 1 0)\<lparr>EventType := SubjectAgentCommissionPaid\<rparr>"

theorem uncaptured_event_kept_witness:
  "\<exists>y\<in>set (fst (snd (run sample_env (NewProcessor DefaultProcessorConfig) (NewOutboxPublisher sample_js)
       (replicate 9 Tick @ [Stopped]) ([agent_event, sample_event ''b'' 2 0], [])))).
     eID y = ''a'' \<and> ProcessedAt y = None \<and> RetryCount y = 5"
proof -
  let ?tbl = "[agent_event, sample_event ''b'' 2 0]"
  obtain r tbl' w' where run: "run sample_env (NewProcessor DefaultProcessorConfig) (NewOutboxPublisher sample_js)
      (replicate 9 Tick @ [Stopped]) (?tbl, []) = (r, tbl', w')" by (metis prod.exhaust)
  have d: "list_all (\<lambda>d. \<not> in_domain (EventType agent_event) d) domains" by code_simp
  have m: "MaxRetries (NewProcessor DefaultProcessorConfig) = 5"
    by (simp add: NewProcessor_def DefaultProcessorConfig_def Let_def duration_units)
  have a: "eID agent_event = ''a''" "ProcessedAt agent_event = None" "RetryCount agent_event = 0"
    by (simp_all add: agent_event_def sample_event_def)
  have p: "potential (MaxRetries (NewProcessor DefaultProcessorConfig)) ?tbl \<le> Suc 9"
    by (simp add: m potential_def credit_def agent_event_def sample_event_def)
  have i: "distinct (map eID ?tbl)" by (simp add: a sample_event_def)
  have c: "RetryCount agent_event < MaxRetries (NewProcessor DefaultProcessorConfig)" by (simp add: a m)
  from uncaptured_event_kept [OF sample_matches_ok sample_js_needs_stream sample_env_quiet i _ d a(2) c p run]
  show ?thesis unfolding run by (simp add: a m) blast
qed

end
