(* ===== verification/Idempotency.thy ===== *)
theory Idempotency
  imports GoStrings
begin

text \<open>
  \<open>eventsourcing/idempotency.go\<close>: claims of events by durable consumers in the table
  \<open>events.processed\<close>, a map from (event id, consumer) to a row. Each SQL statement is one atomic
  transformer of the table; a statement's failure, and what others commit between the two
  statements of \<open>Claim\<close>, are arguments.
\<close>

section \<open>Model\<close>

record ProcessedEvent =
  pProcessedAt :: Time
  pCompletedAt :: "Time option"

type_synonym ptable = "(string \<times> string) \<rightharpoonup> ProcessedEvent"

datatype ClaimResult = ClaimNone | ClaimAcquired | ClaimCompleted | ClaimInProgress
  \<comment> \<open>\<open>ClaimNone\<close> is the zero value returned beside an error\<close>

fun ClaimResult_String :: "ClaimResult \<Rightarrow> string" where
  "ClaimResult_String ClaimAcquired = ''acquired''"
| "ClaimResult_String ClaimCompleted = ''completed''"
| "ClaimResult_String ClaimInProgress = ''in_progress''"
| "ClaimResult_String ClaimNone = ''ClaimResult(0)''"

definition DefaultClaimLease :: Duration where
  "DefaultClaimLease = 2 * Minute"

datatype idem_error = ErrNoClaim | DbError string

definition CheckAndMark ::
  "string option \<Rightarrow> Time \<Rightarrow> string \<Rightarrow> string \<Rightarrow> ptable \<Rightarrow> bool \<times> idem_error option \<times> ptable" where
  "CheckAndMark fault now eventID consumerName tbl =
     (case fault of
        Some err \<Rightarrow> (False, Some (DbError err), tbl)
      | None \<Rightarrow>
          (case tbl (eventID, consumerName) of
             Some row \<Rightarrow> (False, None, tbl)
           | None \<Rightarrow> (True, None, tbl((eventID, consumerName) \<mapsto> \<lparr>pProcessedAt = now, pCompletedAt = Some now\<rparr>))))"

definition Idem_Release ::
  "string option \<Rightarrow> string \<Rightarrow> string \<Rightarrow> ptable \<Rightarrow> idem_error option \<times> ptable" where
  "Idem_Release fault eventID consumerName tbl =
     (case fault of
        Some err \<Rightarrow> (Some (DbError err), tbl)
      | None \<Rightarrow> (None, tbl((eventID, consumerName) := None)))"

definition claim_upsert ::
  "Time \<Rightarrow> Time \<Rightarrow> string \<Rightarrow> string \<Rightarrow> ptable \<Rightarrow> nat \<times> ptable" where
  \<comment> \<open>the \<open>INSERT ... ON CONFLICT DO UPDATE ... WHERE\<close>: rows affected and the table after it\<close>
  "claim_upsert now stale eventID consumerName tbl =
     (case tbl (eventID, consumerName) of
        None \<Rightarrow> (1, tbl((eventID, consumerName) \<mapsto> \<lparr>pProcessedAt = now, pCompletedAt = None\<rparr>))
      | Some row \<Rightarrow>
          if pCompletedAt row = None \<and> pProcessedAt row < stale
          then (1, tbl((eventID, consumerName) \<mapsto> row\<lparr>pProcessedAt := now\<rparr>))
          else (0, tbl))"

definition Claim ::
  "string option \<Rightarrow> string option \<Rightarrow> (ptable \<Rightarrow> ptable) \<Rightarrow> Time \<Rightarrow> string \<Rightarrow> string \<Rightarrow> Duration
     \<Rightarrow> ptable \<Rightarrow> (ClaimResult \<times> Duration \<times> idem_error option) \<times> ptable" where
  "Claim fault1 fault2 meanwhile now eventID consumerName lease tbl =
     (let lease = (if lease \<le> 0 then DefaultClaimLease else lease);
          stale = AddT now (- lease)
      in case fault1 of
           Some err \<Rightarrow> ((ClaimNone, 0, Some (DbError err)), tbl)
         | None \<Rightarrow>
             (let (affected, tbl) = claim_upsert now stale eventID consumerName tbl
              in if affected = 1 then ((ClaimAcquired, 0, None), tbl)
                 else
                   (let tbl = meanwhile tbl
                    in case fault2 of
                         Some err \<Rightarrow> ((ClaimNone, 0, Some (DbError err)), tbl)
                       | None \<Rightarrow>
                           (case tbl (eventID, consumerName) of
                              None \<Rightarrow> ((ClaimInProgress, Second, None), tbl)
                            | Some row \<Rightarrow>
                                if pCompletedAt row \<noteq> None then ((ClaimCompleted, 0, None), tbl)
                                else
                                  (let retry = SubT (AddT (pProcessedAt row) lease) now;
                                       retry = (if retry < Second then Second else retry)
                                   in ((ClaimInProgress, retry, None), tbl))))))"

definition Complete ::
  "string option \<Rightarrow> Time \<Rightarrow> string \<Rightarrow> string \<Rightarrow> ptable \<Rightarrow> idem_error option \<times> ptable" where
  "Complete fault now eventID consumerName tbl =
     (case fault of
        Some err \<Rightarrow> (Some (DbError err), tbl)
      | None \<Rightarrow>
          (case tbl (eventID, consumerName) of
             Some row \<Rightarrow>
               if pCompletedAt row = None
               then (None, tbl((eventID, consumerName) \<mapsto> row\<lparr>pCompletedAt := Some now\<rparr>))
               else (Some ErrNoClaim, tbl)
           | None \<Rightarrow> (Some ErrNoClaim, tbl)))"

section \<open>One claim\<close>

lemma stale_iff: "t < AddT now (- lease) \<longleftrightarrow> AddT t lease < now"
  by (auto simp: time_order)

text \<open>
  What a claim returns, when the database answers and nobody else intervenes: it is acquired
  exactly when there is no row or an uncompleted one whose lease has run out, completed exactly when
  the row is completed, and otherwise in progress with a retry time between one second and the
  lease. Only an acquired claim changes the table, and then only its own row.
\<close>
theorem Claim_spec:
  assumes "Second \<le> lease" and "lease \<le> MaxInt64"
    and "\<And>row. tbl (ev, con) = Some row \<Longrightarrow> pProcessedAt row \<le> now"
  shows "case Claim None None (\<lambda>t. t) now ev con lease tbl of ((res, retry, err), tbl') \<Rightarrow>
     err = None \<and>
     (case tbl (ev, con) of
        None \<Rightarrow> res = ClaimAcquired \<and> tbl' = tbl((ev, con) \<mapsto> \<lparr>pProcessedAt = now, pCompletedAt = None\<rparr>)
      | Some row \<Rightarrow>
          if pCompletedAt row \<noteq> None then res = ClaimCompleted \<and> tbl' = tbl
          else if AddT (pProcessedAt row) lease < now
          then res = ClaimAcquired \<and> tbl' = tbl((ev, con) \<mapsto> \<lparr>pProcessedAt = now, pCompletedAt = None\<rparr>)
          else res = ClaimInProgress \<and> tbl' = tbl \<and> Second \<le> retry \<and> retry \<le> lease
             \<and> now \<le> AddT (pProcessedAt row) lease \<and> AddT (pProcessedAt row) lease \<le> AddT now retry)"
proof (cases "tbl (ev, con)")
  case None
  then show ?thesis using assms(1) by (simp add: Claim_def claim_upsert_def Let_def duration_units)
next
  case (Some row)
  have le: "pProcessedAt row \<le> now" by (rule assms(3) [OF Some])
  have pos: "\<not> lease \<le> 0" using assms(1) by (simp add: duration_units)
  show ?thesis
  proof (cases "pCompletedAt row = None \<and> \<not> AddT (pProcessedAt row) lease < now")
    case True
    define d where "d = nanos (pProcessedAt row) + lease - nanos now"
    have d: "0 \<le> d" "d \<le> lease" using True le by (auto simp: d_def time_order)
    then have "SubT (AddT (pProcessedAt row) lease) now = d"
      using assms(2) by (simp add: SubT_def d_def i64_limits)
    with True Some pos assms(1) d show ?thesis
      by (auto simp: Claim_def claim_upsert_def Let_def stale_iff time_order d_def)
  next
    case False
    with Some pos show ?thesis
      by (cases row) (auto simp: Claim_def claim_upsert_def Let_def stale_iff)
  qed
qed

theorem Claim_spec_witness:
  "fst (fst (Claim None None (\<lambda>t. t) (Time (50 * Second)) ''e1'' ''mail'' (30 * Second)
     [(''e1'', ''mail'') \<mapsto> \<lparr>pProcessedAt = Time (10 * Second), pCompletedAt = None\<rparr>])) = ClaimAcquired"
  using Claim_spec [of "30 * Second" "[(''e1'', ''mail'') \<mapsto> \<lparr>pProcessedAt = Time (10 * Second), pCompletedAt = None\<rparr>]"
      "''e1''" "''mail''" "Time (50 * Second)"]
  by (auto simp: time_order duration_units i64_limits split: prod.splits)

text \<open>
  The promised retry time lands on the lease's last instant, not after it: a redelivery exactly
  \<open>RetryAfter\<close> later finds the same claim still in progress when the lease had at least a second
  left, and one nanosecond later acquires it.
\<close>
theorem Claim_retry_boundary:
  assumes "Second \<le> lease" and "lease \<le> MaxInt64"
    and "tbl (ev, con) = Some row" and "pCompletedAt row = None"
    and "pProcessedAt row \<le> now" and "AddT now Second \<le> AddT (pProcessedAt row) lease"
    and "Claim None None (\<lambda>t. t) now ev con lease tbl = ((ClaimInProgress, retry, err), tbl')"
  shows "fst (fst (Claim None None (\<lambda>t. t) (AddT now retry) ev con lease tbl)) = ClaimInProgress
       \<and> fst (fst (Claim None None (\<lambda>t. t) (AddT now (retry + 1)) ev con lease tbl)) = ClaimAcquired"
proof -
  define d where "d = nanos (pProcessedAt row) + lease - nanos now"
  have pos: "\<not> lease \<le> 0" using assms(1) by (simp add: duration_units)
  have d: "Second \<le> d" "d \<le> lease" using assms(5,6) by (auto simp: d_def time_order)
  then have "SubT (AddT (pProcessedAt row) lease) now = d"
    using assms(2) by (simp add: SubT_def d_def i64_limits duration_units)
  then have "retry = d"
    using assms(3,4,7) pos d by (auto simp: Claim_def claim_upsert_def Let_def stale_iff split: if_splits)
  then have "AddT (pProcessedAt row) lease = AddT now retry" by (simp add: AddT_def d_def)
  moreover have "AddT now retry < AddT now (retry + 1)" by (simp add: time_order)
  ultimately show ?thesis
    using assms(3,4) pos by (simp add: Claim_def claim_upsert_def Let_def stale_iff)
qed

theorem Claim_retry_boundary_witness:
  "fst (fst (Claim None None (\<lambda>t. t) (Time (40 * Second)) ''e1'' ''mail'' (30 * Second)
     [(''e1'', ''mail'') \<mapsto> \<lparr>pProcessedAt = Time (10 * Second), pCompletedAt = None\<rparr>])) = ClaimInProgress"
proof -
  let ?tbl = "[(''e1'', ''mail'') \<mapsto> \<lparr>pProcessedAt = Time (10 * Second), pCompletedAt = None\<rparr>]"
  have "Claim None None (\<lambda>t. t) (Time (20 * Second)) ''e1'' ''mail'' (30 * Second) ?tbl
      = ((ClaimInProgress, 20 * Second, None), ?tbl)"
    by (simp add: Claim_def claim_upsert_def Let_def time_defs duration_units i64_limits)
  from Claim_retry_boundary [OF _ _ _ _ _ _ this] show ?thesis
    by (simp add: time_order duration_units i64_limits AddT_def)
qed

section \<open>Deliveries of one event to one consumer\<close>

text \<open>
  Any number of deliveries of an event race for its row. \<open>running\<close> maps a delivery whose claim was
  acquired and that has not finished to the time of its claim; its lease is live until that time
  plus the lease. A delivery ends by \<open>Complete\<close>, by \<open>Release\<close>, or by dying. The flag \<open>prompt\<close>
  restricts the runs to those in which \<open>Complete\<close> and \<open>Release\<close> are called while the lease is
  live; without it a slow handler may call them late.
\<close>

record isys =
  itbl :: ptable
  running :: "nat \<rightharpoonup> Time"
  iclock :: Time

definition live :: "Duration \<Rightarrow> isys \<Rightarrow> nat \<Rightarrow> bool" where
  "live lease s d \<longleftrightarrow> (\<exists>t. running s d = Some t \<and> iclock s \<le> AddT t lease)"

inductive istep :: "bool \<Rightarrow> Duration \<Rightarrow> string \<Rightarrow> string \<Rightarrow> isys \<Rightarrow> isys \<Rightarrow> bool"
  for prompt :: bool and lease :: Duration and ev con :: string where
  tick: "iclock s \<le> t \<Longrightarrow> istep prompt lease ev con s (s\<lparr>iclock := t\<rparr>)"
| claim: "running s d = None \<Longrightarrow>
    Claim None None (\<lambda>t. t) (iclock s) ev con lease (itbl s) = ((res, retry, err), tbl') \<Longrightarrow>
    istep prompt lease ev con s (s\<lparr>itbl := tbl',
      running := (if res = ClaimAcquired then (running s)(d \<mapsto> iclock s) else running s)\<rparr>)"
| complete: "running s d = Some t \<Longrightarrow> (prompt \<Longrightarrow> live lease s d) \<Longrightarrow>
    Complete None (iclock s) ev con (itbl s) = (err, tbl') \<Longrightarrow>
    istep prompt lease ev con s (s\<lparr>itbl := tbl', running := (running s)(d := None)\<rparr>)"
| release: "running s d = Some t \<Longrightarrow> (prompt \<Longrightarrow> live lease s d) \<Longrightarrow>
    Idem_Release None ev con (itbl s) = (err, tbl') \<Longrightarrow>
    istep prompt lease ev con s (s\<lparr>itbl := tbl', running := (running s)(d := None)\<rparr>)"
| crash: "istep prompt lease ev con s (s\<lparr>running := (running s)(d := None)\<rparr>)"

inductive ireachable :: "bool \<Rightarrow> Duration \<Rightarrow> string \<Rightarrow> string \<Rightarrow> isys \<Rightarrow> bool"
  for prompt :: bool and lease :: Duration and ev con :: string where
  init: "ireachable prompt lease ev con \<lparr>itbl = Map.empty, running = Map.empty, iclock = t\<rparr>"
| step: "ireachable prompt lease ev con s \<Longrightarrow> istep prompt lease ev con s s' \<Longrightarrow>
    ireachable prompt lease ev con s'"

definition iinv :: "Duration \<Rightarrow> string \<Rightarrow> string \<Rightarrow> isys \<Rightarrow> bool" where
  "iinv lease ev con s \<longleftrightarrow>
     (\<forall>d t. running s d = Some t \<longrightarrow> iclock s \<le> AddT t lease \<longrightarrow>
        itbl s (ev, con) = Some \<lparr>pProcessedAt = t, pCompletedAt = None\<rparr>)
     \<and> (\<forall>d e. live lease s d \<longrightarrow> live lease s e \<longrightarrow> d = e)"

lemma claim_steps:
  assumes "0 < lease" and "Claim None None (\<lambda>t. t) now ev con lease tbl = ((res, retry, err), tbl')"
  shows "if tbl (ev, con) = None \<or>
            (\<exists>row. tbl (ev, con) = Some row \<and> pCompletedAt row = None \<and> AddT (pProcessedAt row) lease < now)
         then res = ClaimAcquired \<and> tbl' = tbl((ev, con) \<mapsto> \<lparr>pProcessedAt = now, pCompletedAt = None\<rparr>)
         else res \<noteq> ClaimAcquired \<and> tbl' = tbl"
  using assms
  by (cases "tbl (ev, con)"; cases "the (tbl (ev, con))")
    (auto simp: Claim_def claim_upsert_def Let_def stale_iff split: if_splits)

lemma istep_inv:
  assumes "istep True lease ev con s s'" and "0 < lease" and "iinv lease ev con s"
  shows "iinv lease ev con s'"
  using assms(1)
proof cases
  case (tick t)
  have "live lease s d" if "live lease s' d" for d
    using that tick unfolding live_def by (auto intro: order_trans)
  with assms(3) tick show ?thesis unfolding iinv_def by (auto intro: order_trans)
next
  case (claim d res retry err tbl')
  show ?thesis
  proof (cases "res = ClaimAcquired")
    case True
    with claim_steps [OF assms(2) claim(3)]
    have row: "itbl s (ev, con) = None \<or> (\<exists>row. itbl s (ev, con) = Some row \<and> pCompletedAt row = None
        \<and> AddT (pProcessedAt row) lease < iclock s)"
      and tbl: "tbl' = (itbl s)((ev, con) \<mapsto> \<lparr>pProcessedAt = iclock s, pCompletedAt = None\<rparr>)"
      by (auto split: if_splits)
    have "\<not> live lease s e" for e
      using assms(3) row unfolding iinv_def live_def by force
    then have "\<not> (\<exists>t. running s e = Some t \<and> iclock s \<le> AddT t lease)" for e by (simp add: live_def)
    with claim(1) True tbl show ?thesis by (auto simp: iinv_def live_def split: if_splits)
  next
    case False
    with claim_steps [OF assms(2) claim(3)] have "tbl' = itbl s" by (auto split: if_splits)
    with False claim(1) assms(3) show ?thesis by (simp add: iinv_def live_def)
  qed
next
  case (complete d t err tbl')
  have "\<not> live lease s e" if "e \<noteq> d" for e
    using that complete(3) assms(3) unfolding iinv_def by blast
  with complete(1) show ?thesis by (auto simp: iinv_def live_def split: if_splits)
next
  case (release d t err tbl')
  have "\<not> live lease s e" if "e \<noteq> d" for e
    using that release(3) assms(3) unfolding iinv_def by blast
  with release(1) show ?thesis by (auto simp: iinv_def live_def split: if_splits)
next
  case (crash d)
  with assms(3) show ?thesis by (auto simp: iinv_def live_def split: if_splits)
qed

lemma iinv_init: "iinv lease ev con \<lparr>itbl = Map.empty, running = Map.empty, iclock = t\<rparr>"
  by (simp add: iinv_def live_def)

lemma ireachable_inv: "ireachable True lease ev con s \<Longrightarrow> 0 < lease \<Longrightarrow> iinv lease ev con s"
  by (induction rule: ireachable.induct) (auto intro: iinv_init istep_inv)


lemma completed_step:
  assumes "istep True lease ev con s s'" and "0 < lease" and "iinv lease ev con s"
    and "itbl s (ev, con) = Some row" and "pCompletedAt row \<noteq> None"
  shows "itbl s' (ev, con) = Some row"
proof -
  have idle: "\<not> live lease s d" for d
    using assms(3-5) unfolding iinv_def live_def by force
  from assms(1) show ?thesis
  proof cases
    case (claim d res retry err tbl')
    with claim_steps [OF assms(2) claim(3)] assms(4,5) show ?thesis by (auto split: if_splits)
  next
    case (complete d t err tbl')
    then show ?thesis using idle by blast
  next
    case (release d t err tbl')
    then show ?thesis using idle by blast
  qed (use assms(4) in auto)
qed

inductive iruns :: "bool \<Rightarrow> Duration \<Rightarrow> string \<Rightarrow> string \<Rightarrow> isys \<Rightarrow> isys \<Rightarrow> bool"
  for prompt :: bool and lease :: Duration and ev con :: string where
  refl: "iruns prompt lease ev con s s"
| step: "iruns prompt lease ev con s t \<Longrightarrow> istep prompt lease ev con t u \<Longrightarrow> iruns prompt lease ev con s u"

text \<open>
  Completed is final: under the same discipline a completed event stays completed through any
  further run, and every later claim answers \<open>ClaimCompleted\<close>, so its handler never runs again.
\<close>
theorem completed_is_final:
  assumes "ireachable True lease ev con s" and "Second \<le> lease"
    and "itbl s (ev, con) = Some row" and "pCompletedAt row \<noteq> None"
    and "iruns True lease ev con s t"
  shows "itbl t (ev, con) = Some row
       \<and> fst (fst (Claim None None (\<lambda>t. t) now ev con lease (itbl t))) = ClaimCompleted"
proof -
  have pos: "0 < lease" using assms(2) by (simp add: duration_units)
  have "itbl t (ev, con) = Some row \<and> iinv lease ev con t"
    using assms(5,1,3)
  proof (induction rule: iruns.induct)
    case (refl s)
    then show ?case using ireachable_inv pos by blast
  next
    case (step s t u)
    then have "itbl t (ev, con) = Some row" "iinv lease ev con t" by blast+
    with step.hyps(2) pos assms(4) show ?case by (blast intro: completed_step istep_inv)
  qed
  then show ?thesis using assms(4) pos by (auto simp: Claim_def claim_upsert_def Let_def)
qed

lemma Complete_of:
  "tbl (ev, con) = Some \<lparr>pProcessedAt = t, pCompletedAt = None\<rparr> \<Longrightarrow>
   Complete None now ev con tbl = (None, tbl((ev, con) \<mapsto> \<lparr>pProcessedAt = t, pCompletedAt = Some now\<rparr>))"
  by (simp add: Complete_def)

lemma istep_acquire:
  assumes "0 < lease" and "running s d = None"
    and "itbl s (ev, con) = None \<or> (\<exists>row. itbl s (ev, con) = Some row \<and> pCompletedAt row = None
            \<and> AddT (pProcessedAt row) lease < iclock s)"
  shows "istep prompt lease ev con s (s\<lparr>itbl := (itbl s)((ev, con) \<mapsto> \<lparr>pProcessedAt = iclock s, pCompletedAt = None\<rparr>),
      running := (running s)(d \<mapsto> iclock s)\<rparr>)"
proof -
  obtain res retry err tbl' where c: "Claim None None (\<lambda>t. t) (iclock s) ev con lease (itbl s) = ((res, retry, err), tbl')"
    by (metis prod.exhaust)
  have a: "res = ClaimAcquired" "tbl' = (itbl s)((ev, con) \<mapsto> \<lparr>pProcessedAt = iclock s, pCompletedAt = None\<rparr>)"
    using claim_steps [OF assms(1) c] assms(3) by (auto split: if_splits)
  show ?thesis using istep.claim [OF assms(2) c, of prompt] a by simp
qed

text \<open>States of an example run with a lease of one minute.\<close>

definition istate :: "(Time \<times> Time option) option \<Rightarrow> (nat \<rightharpoonup> Time) \<Rightarrow> Duration \<Rightarrow> isys" where
  "istate row run t =
     \<lparr>itbl = (\<lambda>_. None)((''e1'', ''mail'') := map_option (\<lambda>(p, c). \<lparr>pProcessedAt = p, pCompletedAt = c\<rparr>) row),
      running = run, iclock = Time t\<rparr>"

lemma istate_simps [simp]:
  "itbl (istate row run t) (''e1'', ''mail'') = map_option (\<lambda>(p, c). \<lparr>pProcessedAt = p, pCompletedAt = c\<rparr>) row"
  "running (istate row run t) = run" "iclock (istate row run t) = Time t"
  by (simp_all add: istate_def)

abbreviation example_step :: "bool \<Rightarrow> isys \<Rightarrow> isys \<Rightarrow> bool" where
  "example_step prompt \<equiv> istep prompt Minute ''e1'' ''mail''"

lemma example_tick: "t \<le> t' \<Longrightarrow> example_step prompt (istate row run t) (istate row run t')"
  using istep.tick [of "istate row run t" "Time t'"] by (simp add: istate_def time_order)

lemma example_claim:
  assumes "run d = None" and "row = None \<or> (\<exists>p. row = Some (p, None) \<and> AddT p Minute < Time t)"
  shows "example_step prompt (istate row run t) (istate (Some (Time t, None)) (run(d \<mapsto> Time t)) t)"
proof -
  have "example_step prompt (istate row run t) ((istate row run t)
      \<lparr>itbl := (itbl (istate row run t))((''e1'', ''mail'') \<mapsto> \<lparr>pProcessedAt = Time t, pCompletedAt = None\<rparr>),
       running := run(d \<mapsto> Time t)\<rparr>)"
    using istep_acquire [of Minute "istate row run t" d "''e1''" "''mail''" prompt] assms
    by (auto simp: duration_units)
  then show ?thesis by (simp add: istate_def)
qed

lemma example_release:
  assumes "run d = Some p" and "prompt \<longrightarrow> Time t \<le> AddT p Minute"
  shows "example_step prompt (istate row run t) (istate None (run(d := None)) t)"
  using istep.release [of "istate row run t" d p prompt Minute "''e1''" "''mail''"] assms
  by (auto simp: Idem_Release_def live_def istate_def)

lemma example_complete:
  assumes "run d = Some p" and "prompt \<longrightarrow> Time t \<le> AddT p Minute"
  shows "example_step prompt (istate (Some (q, None)) run t) (istate (Some (q, Some (Time t))) (run(d := None)) t)"
proof -
  let ?s = "istate (Some (q, None)) run t"
  have c: "Complete None (iclock ?s) ''e1'' ''mail'' (itbl ?s)
      = (None, (itbl ?s)((''e1'', ''mail'') \<mapsto> \<lparr>pProcessedAt = q, pCompletedAt = Some (Time t)\<rparr>))"
    by (simp add: Complete_def)
  show ?thesis
    using istep.complete [of ?s d p prompt Minute, OF _ _ c] assms
    by (auto simp: live_def istate_def)
qed

lemma example_start: "ireachable prompt Minute ''e1'' ''mail'' (istate (Some (Time 0, None)) [0 \<mapsto> Time 0] 0)"
proof -
  have "ireachable prompt Minute ''e1'' ''mail'' (istate None Map.empty 0)"
    using ireachable.init [of prompt Minute "''e1''" "''mail''" "Time 0"] by (simp add: istate_def)
  from ireachable.step [OF this example_claim [of Map.empty 0 None 0]] show ?thesis by simp
qed


theorem completed_is_final_witness:
  "fst (fst (Claim None None (\<lambda>t. t) (Time (999 * Minute)) ''e1'' ''mail'' Minute
     (itbl (istate (Some (Time 0, Some (Time 5))) Map.empty 5)))) = ClaimCompleted"
proof -
  note 1 = ireachable.step [OF example_start example_tick [of 0 5]]
  note 2 = ireachable.step [OF 1 example_complete [of _ 0 "Time 0" True 5 "Time 0"]]
  have s: "ireachable True Minute ''e1'' ''mail'' (istate (Some (Time 0, Some (Time 5))) Map.empty 5)"
    using 2 by (simp add: time_order duration_units)
  from completed_is_final [OF s _ _ _ iruns.refl, of "\<lparr>pProcessedAt = Time 0, pCompletedAt = Some (Time 5)\<rparr>"]
  show ?thesis by (simp add: duration_units)
qed

text \<open>
  \<open>Release\<close> and \<open>Complete\<close> do not check whose claim the row is. A handler that outlives its
  lease and then fails deletes the live claim of the delivery that took over, so a third delivery
  acquires the event while the second still runs under its own live lease.
\<close>
theorem late_release_breaks_exclusion:
  "\<exists>s. ireachable False Minute ''e1'' ''mail'' s \<and> live Minute s 1 \<and> live Minute s 2"
proof -
  let ?m = "61 * Second"
  note r = ireachable.step
  note 1 = r [OF example_start example_tick [of 0 ?m False]]
  note 2 = r [OF 1 example_claim [of _ 1 _ ?m]]
  note 3 = r [OF 2 example_release [of _ 0 "Time 0"]]
  note 4 = r [OF 3 example_claim [of _ 2 _ ?m]]
  have "ireachable False Minute ''e1'' ''mail'' (istate (Some (Time ?m, None)) ([0 \<mapsto> Time 0, 1 \<mapsto> Time ?m](0 := None, 2 \<mapsto> Time ?m)) ?m)"
    using 4 by (simp add: time_order duration_units)
  moreover have "live Minute (istate (Some (Time ?m, None)) ([0 \<mapsto> Time 0, 1 \<mapsto> Time ?m](0 := None, 2 \<mapsto> Time ?m)) ?m) d" if "d \<in> {1, 2}" for d
    using that by (auto simp: live_def time_order duration_units)
  ultimately show ?thesis by blast
qed

end
