(* ===== verification/EventStore.thy ===== *)
theory EventStore
  imports GoStrings "HOL-Library.Multiset"
begin

text \<open>
  \<open>eventsourcing/event.go\<close>, \<open>store.go\<close>, \<open>postgres_store.go\<close> and \<open>dlq.go\<close>: the append-only event
  table with its optimistic version check, snapshots, and the dead-letter router. Tables are lists
  of rows or maps on their unique key; statement failures, the order of equal sort keys and the JSON
  encoder are arguments. \<open>uniq\<close> says whether the table has the unique index on (aggregate type,
  aggregate id, version): \<open>CreateEventStoreTable\<close> creates it, \<open>AutoMigrate\<close> does not (theory \<open>Schema\<close>).
\<close>

section \<open>Events\<close>

record DomainEvent =
  dID :: string
  SchemaVersion :: int
  dAggregateType :: string
  dAggregateID :: string
  dEventType :: string
  EventData :: string
  Metadata :: string
  Version :: int
  OccurredAt :: Time
  dCreatedAt :: Time

definition NewDomainEvent ::
  "(Time \<Rightarrow> string) \<Rightarrow> Time \<Rightarrow> Time \<Rightarrow> string \<Rightarrow> string \<Rightarrow> string \<Rightarrow> string + string \<Rightarrow> int \<Rightarrow> string + DomainEvent" where
  \<comment> \<open>\<open>fmt\<close> is \<open>Time.Format\<close> with the layout of \<open>generateEventID\<close>; the two times are the two
     readings of the clock; \<open>marshalled\<close> is what \<open>json.Marshal(eventData)\<close> returned\<close>
  "NewDomainEvent fmt now now' aggregateType aggregateID eventType marshalled version =
     (case marshalled of
        Inl err \<Rightarrow> Inl err
      | Inr bytes \<Rightarrow>
          Inr \<lparr>dID = fmt now', SchemaVersion = 1, dAggregateType = aggregateType, dAggregateID = aggregateID,
               dEventType = eventType, EventData = bytes, Metadata = '''', Version = version,
               OccurredAt = now, dCreatedAt = now\<rparr>)"

definition WithMetadata :: "string + string \<Rightarrow> DomainEvent \<Rightarrow> string option \<times> DomainEvent" where
  "WithMetadata marshalled e =
     (case marshalled of Inl err \<Rightarrow> (Some err, e) | Inr bytes \<Rightarrow> (None, e\<lparr>Metadata := bytes\<rparr>))"

record EventMetadata =
  CorrelationID :: string
  CausationID :: string
  UserID :: string
  ServiceName :: string
  TraceID :: string
  SpanID :: string

definition UnmarshalMetadata :: "(string \<Rightarrow> string + EventMetadata) \<Rightarrow> DomainEvent \<Rightarrow> string + EventMetadata" where
  "UnmarshalMetadata unmarshal e =
     (if length (Metadata e) = 0
      then Inr \<lparr>CorrelationID = '''', CausationID = '''', UserID = '''', ServiceName = '''', TraceID = '''', SpanID = ''''\<rparr>
      else unmarshal (Metadata e))"

section \<open>The event table\<close>

record EventModel =
  mEventID :: string
  mSchemaVersion :: int
  mAggregateType :: string
  mAggregateID :: string
  mEventType :: string
  mEventData :: string
  mMetadata :: string
  mVersion :: int
  mOccurredAt :: Time
  mCreatedAt :: Time

datatype store_error = ErrConcurrencyConflict | StoreDb string | UniqueViolation

type_synonym etable = "EventModel list"

definition model_of :: "(DomainEvent \<Rightarrow> Time) \<Rightarrow> DomainEvent \<Rightarrow> EventModel" where
  \<comment> \<open>the row of an event; \<open>now\<close> is the clock as each event's turn reads it\<close>
  "model_of now event =
     \<lparr>mEventID = dID event,
      mSchemaVersion = (if SchemaVersion event = 0 then 1 else SchemaVersion event),
      mAggregateType = dAggregateType event, mAggregateID = dAggregateID event,
      mEventType = dEventType event, mEventData = EventData event, mMetadata = Metadata event,
      mVersion = Version event, mOccurredAt = OccurredAt event, mCreatedAt = now event\<rparr>"

definition event_of :: "EventModel \<Rightarrow> DomainEvent" where
  "event_of m =
     \<lparr>dID = mEventID m, SchemaVersion = (if mSchemaVersion m = 0 then 1 else mSchemaVersion m),
      dAggregateType = mAggregateType m, dAggregateID = mAggregateID m, dEventType = mEventType m,
      EventData = mEventData m, Metadata = mMetadata m, Version = mVersion m,
      OccurredAt = mOccurredAt m, dCreatedAt = mCreatedAt m\<rparr>"

definition of_aggregate :: "string \<Rightarrow> string \<Rightarrow> EventModel \<Rightarrow> bool" where
  "of_aggregate ty i m \<longleftrightarrow> mAggregateType m = ty \<and> mAggregateID m = i"

definition latest :: "string \<Rightarrow> string \<Rightarrow> etable \<Rightarrow> int" where
  \<comment> \<open>\<open>COALESCE(MAX(version), 0)\<close>\<close>
  "latest ty i tbl =
     (let vs = map mVersion (filter (of_aggregate ty i) tbl) in if vs = [] then 0 else Max (set vs))"

definition GetLatestVersion :: "string option \<Rightarrow> string \<Rightarrow> string \<Rightarrow> etable \<Rightarrow> store_error + int" where
  "GetLatestVersion fault ty i tbl =
     (case fault of Some e \<Rightarrow> Inl (StoreDb e) | None \<Rightarrow> Inr (latest ty i tbl))"

definition insert_model :: "bool \<Rightarrow> etable \<Rightarrow> EventModel \<Rightarrow> store_error + etable" where
  "insert_model uniq tbl m =
     (if mEventID m \<in> mEventID ` set tbl
         \<or> (uniq \<and> (\<exists>r\<in>set tbl. of_aggregate (mAggregateType m) (mAggregateID m) r \<and> mVersion r = mVersion m))
      then Inl UniqueViolation else Inr (tbl @ [m]))"

definition insert_events :: "bool \<Rightarrow> (DomainEvent \<Rightarrow> Time) \<Rightarrow> DomainEvent list \<Rightarrow> etable \<Rightarrow> store_error + etable" where
  "insert_events uniq now events tbl = fold_res (insert_model uniq) tbl (map (model_of now) events)"

definition Append ::
  "bool \<Rightarrow> string option \<Rightarrow> string option \<Rightarrow> (DomainEvent \<Rightarrow> Time) \<Rightarrow> DomainEvent list \<Rightarrow> int \<Rightarrow> etable \<Rightarrow> store_error option \<times> etable" where
  \<comment> \<open>\<open>fault1\<close> hits the version query, \<open>fault2\<close> an insert or the commit; an error rolls back\<close>
  "Append uniq fault1 fault2 now events expectedVersion tbl =
     (case events of
        [] \<Rightarrow> (None, tbl)
      | first # _ \<Rightarrow>
          (case fault1 of
             Some e \<Rightarrow> (Some (StoreDb e), tbl)
           | None \<Rightarrow>
               if latest (dAggregateType first) (dAggregateID first) tbl \<noteq> expectedVersion
               then (Some ErrConcurrencyConflict, tbl)
               else (case insert_events uniq now events tbl of
                       Inl e \<Rightarrow> (Some e, tbl)
                     | Inr tbl' \<Rightarrow>
                         (case fault2 of Some e \<Rightarrow> (Some (StoreDb e), tbl) | None \<Rightarrow> (None, tbl')))))"

definition LoadFrom ::
  "(etable \<Rightarrow> etable) \<Rightarrow> string option \<Rightarrow> string \<Rightarrow> string \<Rightarrow> int \<Rightarrow> etable \<Rightarrow> store_error + DomainEvent list" where
  "LoadFrom ord fault ty i fromVersion tbl =
     (case fault of Some e \<Rightarrow> Inl (StoreDb e)
      | None \<Rightarrow> Inr (map event_of (ord (filter (\<lambda>m. of_aggregate ty i m \<and> mVersion m \<ge> fromVersion) tbl))))"

definition Load ::
  "(etable \<Rightarrow> etable) \<Rightarrow> string option \<Rightarrow> string \<Rightarrow> string \<Rightarrow> etable \<Rightarrow> store_error + DomainEvent list" where
  "Load ord fault ty i tbl = LoadFrom ord fault ty i 0 tbl"

definition LoadByEventType ::
  "(etable \<Rightarrow> etable) \<Rightarrow> string option \<Rightarrow> string \<Rightarrow> int \<Rightarrow> etable \<Rightarrow> store_error + DomainEvent list" where
  \<comment> \<open>\<open>ord\<close> is here the database's \<open>ORDER BY created_at DESC\<close>\<close>
  "LoadByEventType ord fault ty limit tbl =
     (let found = ord (filter (\<lambda>m. mEventType m = ty) tbl);
          found = (if limit > 0 then take (nat limit) found else found)
      in case fault of Some e \<Rightarrow> Inl (StoreDb e) | None \<Rightarrow> Inr (map event_of found))"

section \<open>Snapshots\<close>

record Snapshot =
  sVersion :: int
  sData :: string
  sCreatedAt :: int

type_synonym stable = "(string \<times> string) \<rightharpoonup> Snapshot"

definition Snapshot_Save ::
  "string option \<Rightarrow> int \<Rightarrow> string \<Rightarrow> string \<Rightarrow> int \<Rightarrow> string \<Rightarrow> stable \<Rightarrow> store_error option \<times> stable" where
  \<comment> \<open>\<open>FirstOrCreate\<close> with \<open>Assign\<close>: update the row of the aggregate, or insert it\<close>
  "Snapshot_Save fault unixNow ty i version bytes tbl =
     (case fault of Some e \<Rightarrow> (Some (StoreDb e), tbl)
      | None \<Rightarrow> (None, tbl((ty, i) \<mapsto> \<lparr>sVersion = version, sData = bytes, sCreatedAt = unixNow\<rparr>)))"

definition Snapshot_Load ::
  "string option \<Rightarrow> string \<Rightarrow> string \<Rightarrow> stable \<Rightarrow> store_error + Snapshot option" where
  "Snapshot_Load fault ty i tbl =
     (case fault of Some e \<Rightarrow> Inl (StoreDb e) | None \<Rightarrow> Inr (tbl (ty, i)))"

definition Snapshot_Delete ::
  "string option \<Rightarrow> string \<Rightarrow> string \<Rightarrow> int \<Rightarrow> stable \<Rightarrow> store_error option \<times> stable" where
  "Snapshot_Delete fault ty i beforeVersion tbl =
     (case fault of Some e \<Rightarrow> (Some (StoreDb e), tbl)
      | None \<Rightarrow>
          (None, case tbl (ty, i) of
                   Some s \<Rightarrow> if sVersion s < beforeVersion then tbl((ty, i) := None) else tbl
                 | None \<Rightarrow> tbl))"

section \<open>Dead letters\<close>

record FailedEvent =
  fEventID :: string
  fConsumerName :: string
  fSubject :: string
  fPayload :: string
  fHeaders :: "string option"
  fError :: string
  fStream :: string
  fConsumer :: string
  fStreamSequence :: nat
  fConsumerSequence :: nat
  fDeliveredCount :: nat
  fFailedAt :: Time

record MsgMetadata =
  mdStream :: string
  mdConsumer :: string
  mdStreamSeq :: nat
  mdConsumerSeq :: nat
  mdNumDelivered :: nat

record msg =
  msgSubject :: string
  msgData :: string
  msgHeaders :: "(string \<times> string) list"
  msgMetadata :: "MsgMetadata option"
  msgTerminated :: bool

definition eventIDFromMessage :: "(string \<Rightarrow> string option) \<Rightarrow> msg \<Rightarrow> string" where
  \<comment> \<open>\<open>decodeID\<close>: the \<open>id\<close> field of the payload when it unmarshals into a \<open>DomainEvent\<close>\<close>
  "eventIDFromMessage decodeID m =
     (case map_of (msgHeaders m) ''Nats-Msg-Id'' of
        Some i \<Rightarrow> if i \<noteq> '''' then i else (case decodeID (msgData m) of Some j \<Rightarrow> j | None \<Rightarrow> '''')
      | None \<Rightarrow> (case decodeID (msgData m) of Some j \<Rightarrow> j | None \<Rightarrow> ''''))"

definition RouteToDLQ ::
  "(string \<Rightarrow> string option) \<Rightarrow> ((string \<times> string) list \<Rightarrow> string option) \<Rightarrow> string option
     \<Rightarrow> string option \<Rightarrow> string option \<Rightarrow> Time \<Rightarrow> string \<Rightarrow> string option
     \<Rightarrow> FailedEvent list \<times> msg \<Rightarrow> string option \<times> FailedEvent list \<times> msg" where
  \<comment> \<open>\<open>createFault\<close>, \<open>termFault\<close>, \<open>termFault2\<close>: the results of \<open>Create\<close>, \<open>TermWithReason\<close>, \<open>Term\<close>\<close>
  "RouteToDLQ decodeID marshalHeaders createFault termFault termFault2 now consumerName handlerErr s =
     (let (tbl, m) = s;
          err = (case handlerErr of None \<Rightarrow> ''message routed to DLQ'' | Some e \<Rightarrow> e);
          failed = \<lparr>fEventID = '''', fConsumerName = consumerName, fSubject = msgSubject m, fPayload = msgData m,
                    fHeaders = None, fError = err, fStream = '''', fConsumer = '''', fStreamSequence = 0,
                    fConsumerSequence = 0, fDeliveredCount = 0, fFailedAt = now\<rparr>;
          failed = (let i = eventIDFromMessage decodeID m in if i \<noteq> '''' then failed\<lparr>fEventID := i\<rparr> else failed);
          failed = (if msgHeaders m \<noteq> []
                    then (case marshalHeaders (msgHeaders m) of Some h \<Rightarrow> failed\<lparr>fHeaders := Some h\<rparr> | None \<Rightarrow> failed)
                    else failed);
          failed = (case msgMetadata m of
                      None \<Rightarrow> failed
                    | Some meta \<Rightarrow> failed\<lparr>fStream := mdStream meta, fConsumer := mdConsumer meta,
                                          fStreamSequence := mdStreamSeq meta, fConsumerSequence := mdConsumerSeq meta,
                                          fDeliveredCount := mdNumDelivered meta\<rparr>)
      in case createFault of
           Some e \<Rightarrow> (Some e, tbl, m)
         | None \<Rightarrow>
             (let tbl = tbl @ [failed]
              in case termFault of
                   None \<Rightarrow> (None, tbl, m\<lparr>msgTerminated := True\<rparr>)
                 | Some _ \<Rightarrow>
                     (case termFault2 of
                        None \<Rightarrow> (None, tbl, m\<lparr>msgTerminated := True\<rparr>)
                      | Some e \<Rightarrow> (Some e, tbl, m))))"

section \<open>Appending and loading\<close>

definition version_order :: "(etable \<Rightarrow> etable) \<Rightarrow> bool" where
  \<comment> \<open>\<open>ORDER BY version ASC\<close>\<close>
  "version_order ord \<longleftrightarrow> (\<forall>xs. mset (ord xs) = mset xs \<and> sorted (map mVersion (ord xs)))"

lemma version_order_fix:
  assumes "version_order ord" and "sorted (map mVersion xs)" and "distinct (map mVersion xs)"
  shows "ord xs = xs"
proof -
  have m: "mset (ord xs) = mset xs" and s: "sorted (map mVersion (ord xs))"
    using assms(1) by (simp_all add: version_order_def)
  have "map mVersion (ord xs) = sort (map mVersion xs)"
    by (rule properties_for_sort [symmetric, OF _ s]) (simp add: m)
  also have "\<dots> = map mVersion xs" using assms(2) by (simp add: sorted_sort_id)
  finally have "map mVersion (ord xs) = map mVersion xs" .
  moreover have "inj_on mVersion (set (ord xs) \<union> set xs)"
    using assms(3) m by (metis distinct_map set_mset_mset sup.idem)
  ultimately show ?thesis by (simp add: inj_on_map_eq_map)
qed

definition contiguous :: "string \<Rightarrow> string \<Rightarrow> etable \<Rightarrow> bool" where
  \<comment> \<open>the aggregate's rows carry the versions 1, 2, ... in order\<close>
  "contiguous ty i tbl \<longleftrightarrow>
     map mVersion (filter (of_aggregate ty i) tbl) = [1..int (length (filter (of_aggregate ty i) tbl))]"

lemma latest_contiguous:
  assumes "contiguous ty i tbl"
  shows "latest ty i tbl = int (length (filter (of_aggregate ty i) tbl))"
proof -
  define n where "n = int (length (filter (of_aggregate ty i) tbl))"
  have vs: "map mVersion (filter (of_aggregate ty i) tbl) = [1..n]"
    using assms by (simp add: contiguous_def n_def)
  have "Max (set [1..n]) = n" if "[1..n] \<noteq> []" using that by (intro Max_eqI) auto
  moreover have "[1..n] = [] \<longleftrightarrow> n = 0" by (simp add: n_def)
  ultimately show ?thesis unfolding latest_def vs Let_def n_def [symmetric] by auto
qed

lemma filter_from:
  assumes "map f xs = [a..a + int (length xs) - 1]"
  shows "filter (\<lambda>x. v \<le> f x) xs = drop (nat (v - a)) xs"
  using assms
proof (induction xs arbitrary: a)
  case Nil
  then show ?case by simp
next
  case (Cons x xs)
  have "[a..a + int (length (x # xs)) - 1] = a # [a + 1..a + 1 + int (length xs) - 1]"
    by (subst upto_rec1) simp_all
  then have x: "f x = a" and xs: "map f xs = [a + 1..a + 1 + int (length xs) - 1]"
    using Cons.prems by simp_all
  show ?case
  proof (cases "v \<le> a")
    case True
    then show ?thesis using Cons.IH [OF xs] x by simp
  next
    case False
    then have "nat (v - a) = Suc (nat (v - (a + 1)))" by simp
    with False show ?thesis using Cons.IH [OF xs] x by simp
  qed
qed

lemma LoadFrom_contiguous:
  assumes "version_order ord" and "contiguous ty i tbl"
  shows "LoadFrom ord None ty i v tbl = Inr (map event_of (drop (nat (v - 1)) (filter (of_aggregate ty i) tbl)))"
proof -
  define rows where "rows = filter (of_aggregate ty i) tbl"
  have vs: "map mVersion rows = [1..int (length rows)]" using assms(2) by (simp add: contiguous_def rows_def)
  have "filter (\<lambda>m. of_aggregate ty i m \<and> v \<le> mVersion m) tbl = filter (\<lambda>m. v \<le> mVersion m) rows"
    by (simp add: rows_def conj_commute)
  also have "\<dots> = drop (nat (v - 1)) rows" using filter_from [of mVersion rows 1 v] vs by simp
  also have "ord \<dots> = \<dots>"
    by (rule version_order_fix [OF assms(1)])
      (simp_all add: drop_map [symmetric] vs sorted_wrt_drop)
  ultimately show ?thesis by (simp add: LoadFrom_def rows_def)
qed

corollary Load_contiguous:
  "version_order ord \<Longrightarrow> contiguous ty i tbl \<Longrightarrow>
   Load ord None ty i tbl = Inr (map event_of (filter (of_aggregate ty i) tbl))"
  by (simp add: Load_def LoadFrom_contiguous)

lemma contiguous_versions:
  assumes "contiguous ty i tbl" and "r \<in> set tbl" and "of_aggregate ty i r"
  shows "1 \<le> mVersion r" and "mVersion r \<le> latest ty i tbl"
proof -
  have "mVersion r \<in> set (map mVersion (filter (of_aggregate ty i) tbl))" using assms(2,3) by auto
  then have "mVersion r \<in> {1..latest ty i tbl}"
    using assms(1) unfolding contiguous_def latest_contiguous [OF assms(1)] by simp
  then show "1 \<le> mVersion r" "mVersion r \<le> latest ty i tbl" by simp_all
qed

lemma model_of_simps [simp]:
  "mEventID (model_of now e) = dID e" "mVersion (model_of now e) = Version e"
  "mAggregateType (model_of now e) = dAggregateType e" "mAggregateID (model_of now e) = dAggregateID e"
  "of_aggregate ty i (model_of now e) \<longleftrightarrow> dAggregateType e = ty \<and> dAggregateID e = i"
  by (simp_all add: model_of_def of_aggregate_def)

definition batch :: "string \<Rightarrow> string \<Rightarrow> int \<Rightarrow> DomainEvent list \<Rightarrow> bool" where
  \<comment> \<open>events of one aggregate that continue the stream after version \<open>v\<close>\<close>
  "batch ty i v es \<longleftrightarrow>
     (\<forall>e\<in>set es. dAggregateType e = ty \<and> dAggregateID e = i) \<and> map Version es = [v + 1..v + int (length es)]"

lemma insert_events_ok:
  assumes "distinct (map dID es)" and "\<And>e. e \<in> set es \<Longrightarrow> dID e \<notin> mEventID ` set tbl"
    and "\<forall>e\<in>set es. dAggregateType e = ty \<and> dAggregateID e = i"
    and "distinct (map Version es)"
    and "\<And>e r. e \<in> set es \<Longrightarrow> r \<in> set tbl \<Longrightarrow> of_aggregate ty i r \<Longrightarrow> mVersion r \<noteq> Version e"
  shows "insert_events uniq now es tbl = Inr (tbl @ map (model_of now) es)"
  using assms
proof (induction es arbitrary: tbl)
  case Nil
  then show ?case by (simp add: insert_events_def)
next
  case (Cons e es)
  let ?m = "model_of now e"
  have i: "insert_model uniq tbl ?m = Inr (tbl @ [?m])"
    using Cons.prems(2,3,5) by (auto simp: insert_model_def)
  have "insert_events uniq now es (tbl @ [?m]) = Inr ((tbl @ [?m]) @ map (model_of now) es)"
  proof (rule Cons.IH)
    show "dID x \<notin> mEventID ` set (tbl @ [?m])" if "x \<in> set es" for x
    proof -
      have "dID x \<noteq> dID e" using that Cons.prems(1) by (metis distinct.simps(2) image_eqI list.set_map list.simps(9))
      then show ?thesis using that Cons.prems(2) [of x] by simp
    qed
    show "mVersion r \<noteq> Version x" if "x \<in> set es" "r \<in> set (tbl @ [?m])" "of_aggregate ty i r" for x r
      using that Cons.prems(4) Cons.prems(5) [of x r] by force
  qed (use Cons.prems in auto)
  then show ?case using i by (simp add: insert_events_def)
qed

lemma upto_append: "0 \<le> a \<Longrightarrow> 0 \<le> b \<Longrightarrow> [1..a] @ [a + 1..a + b] = [1..a + b]"
  by (cases "a = 0") (simp_all add: upto_split2 [of 1 a "a + b"])

definition stored :: "(DomainEvent \<Rightarrow> Time) \<Rightarrow> DomainEvent \<Rightarrow> DomainEvent" where
  \<comment> \<open>an event as it comes back: schema version defaulted, creation time of the append\<close>
  "stored now e = e\<lparr>SchemaVersion := (if SchemaVersion e = 0 then 1 else SchemaVersion e), dCreatedAt := now e\<rparr>"

lemma event_of_model_of [simp]: "event_of (model_of now e) = stored now e"
  by (simp add: event_of_def model_of_def stored_def)

lemma batch_rows:
  assumes "batch ty i v es"
  shows "filter (of_aggregate ty i) (map (model_of now) es) = map (model_of now) es"
    and "map mVersion (map (model_of now) es) = [v + 1..v + int (length es)]"
  using assms by (auto simp: batch_def comp_def intro!: filter_True)

lemma batch_versions: "batch ty i v es \<Longrightarrow> e \<in> set es \<Longrightarrow> v < Version e \<and> Version e \<le> v + int (length es)"
proof -
  assume "batch ty i v es" and "e \<in> set es"
  then have "Version e \<in> set [v + 1..v + int (length es)]" by (metis batch_def imageI set_map)
  then show ?thesis by simp
qed

lemma insert_batch:
  assumes "contiguous ty i tbl" and "batch ty i (latest ty i tbl) es"
    and "distinct (map dID es)" and "\<forall>e\<in>set es. dID e \<notin> mEventID ` set tbl"
  shows "insert_events uniq now es tbl = Inr (tbl @ map (model_of now) es)"
proof (rule insert_events_ok [where ty = ty and i = i])
  show "distinct (map Version es)" using assms(2) by (simp add: batch_def)
  fix e r
  assume "e \<in> set es" "r \<in> set tbl" "of_aggregate ty i r"
  then show "mVersion r \<noteq> Version e"
    using contiguous_versions(2) [OF assms(1)] batch_versions [OF assms(2)] by fastforce
qed (use assms in \<open>auto simp: batch_def\<close>)

lemma contiguous_batch:
  assumes "contiguous ty i tbl" and "batch ty i (latest ty i tbl) es"
  shows "contiguous ty i (tbl @ map (model_of now) es)"
    and "latest ty i (tbl @ map (model_of now) es) = latest ty i tbl + int (length es)"
proof -
  define n where "n = int (length (filter (of_aggregate ty i) tbl))"
  have n: "latest ty i tbl = n" using latest_contiguous [OF assms(1)] by (simp add: n_def)
  note new = batch_rows [OF assms(2) [unfolded n], where now = now]
  have old: "map mVersion (filter (of_aggregate ty i) tbl) = [1..n]" using assms(1) by (simp add: contiguous_def n_def)
  show c: "contiguous ty i (tbl @ map (model_of now) es)"
    using upto_append [of n "int (length es)"] old new(2) unfolding contiguous_def filter_append new(1) map_append
    by (simp add: n_def)
  show "latest ty i (tbl @ map (model_of now) es) = latest ty i tbl + int (length es)"
    unfolding latest_contiguous [OF c] filter_append new(1) by (simp add: n n_def)
qed

text \<open>
  Append then load: events that continue a contiguous stream at the expected version are stored,
  the stream stays contiguous, the latest version is the new one, and loading returns the old events
  followed by exactly the new ones, in order and with every field kept (the schema version defaulted
  to 1, the creation time set by the append).
\<close>
theorem Append_Load:
  assumes "version_order ord" and "contiguous ty i tbl" and "es \<noteq> []"
    and "batch ty i (latest ty i tbl) es"
    and "distinct (map dID es)" and "\<forall>e\<in>set es. dID e \<notin> mEventID ` set tbl"
  shows "let tbl' = tbl @ map (model_of now) es in
      Append uniq None None now es (latest ty i tbl) tbl = (None, tbl')
    \<and> contiguous ty i tbl' \<and> GetLatestVersion None ty i tbl' = Inr (latest ty i tbl + int (length es))
    \<and> LoadFrom ord None ty i (latest ty i tbl + 1) tbl' = Inr (map (stored now) es)
    \<and> Load ord None ty i tbl' = Inr (map event_of (filter (of_aggregate ty i) tbl) @ map (stored now) es)"
proof -
  let ?tbl = "tbl @ map (model_of now) es"
  note new = contiguous_batch [OF assms(2,4), of now]
  have rows: "filter (of_aggregate ty i) ?tbl = filter (of_aggregate ty i) tbl @ map (model_of now) es"
    unfolding filter_append batch_rows(1) [OF assms(4)] ..
  obtain first rest where "es = first # rest" using assms(3) by (cases es) auto
  then have "Append uniq None None now es (latest ty i tbl) tbl = (None, ?tbl)"
    using insert_batch [OF assms(2,4-6), of uniq now] assms(4) by (simp add: Append_def batch_def)
  moreover have "LoadFrom ord None ty i (latest ty i tbl + 1) ?tbl = Inr (map (stored now) es)"
    unfolding LoadFrom_contiguous [OF assms(1) new(1)] rows latest_contiguous [OF assms(2)] by (simp add: comp_def)
  moreover have "Load ord None ty i ?tbl = Inr (map event_of (filter (of_aggregate ty i) tbl) @ map (stored now) es)"
    unfolding Load_contiguous [OF assms(1) new(1)] rows by (simp add: comp_def)
  ultimately show ?thesis using new by (simp add: Let_def GetLatestVersion_def)
qed

theorem Append_Load_witness:
  "let e = \<lparr>dID = ''a'', SchemaVersion = 0, dAggregateType = ''order'', dAggregateID = ''7'', dEventType = ''created'',
            EventData = ''{}'', Metadata = '''', Version = 1, OccurredAt = Time 1, dCreatedAt = Time 1\<rparr>
   in Load (sort_key mVersion) None ''order'' ''7'' (snd (Append True None None (\<lambda>_. Time 3) [e] 0 [])) = Inr [stored (\<lambda>_. Time 3) e]"
proof -
  let ?e = "\<lparr>dID = ''a'', SchemaVersion = 0, dAggregateType = ''order'', dAggregateID = ''7'', dEventType = ''created'',
            EventData = ''{}'', Metadata = '''', Version = 1, OccurredAt = Time 1, dCreatedAt = Time 1\<rparr>"
  have "version_order (sort_key mVersion)" by (simp add: version_order_def)
  from Append_Load [OF this, of "''order''" "''7''" "[]" "[?e]" "\<lambda>_. Time 3" True]
  show ?thesis by (simp add: contiguous_def latest_def batch_def Let_def)
qed

text \<open>
  Optimistic locking: an append whose expected version is not the stored one fails with
  \<open>ErrConcurrencyConflict\<close>, and whatever error an append returns, the table is unchanged.
\<close>
theorem Append_conflict:
  "(events \<noteq> [] \<and> latest (dAggregateType (hd events)) (dAggregateID (hd events)) tbl \<noteq> expectedVersion \<longrightarrow>
      Append uniq None fault2 now events expectedVersion tbl = (Some ErrConcurrencyConflict, tbl))
   \<and> (fst (Append uniq fault1 fault2 now events expectedVersion tbl) \<noteq> None \<longrightarrow>
      snd (Append uniq fault1 fault2 now events expectedVersion tbl) = tbl)"
  by (cases events) (auto simp: Append_def split: option.splits sum.splits)

theorem Append_conflict_witness:
  "let e = \<lparr>dID = ''a'', SchemaVersion = 0, dAggregateType = ''order'', dAggregateID = ''7'', dEventType = ''created'',
            EventData = ''{}'', Metadata = '''', Version = 1, OccurredAt = Time 1, dCreatedAt = Time 1\<rparr>
   in Append True None None (\<lambda>_. Time 3) [e] 4 [] = (Some ErrConcurrencyConflict, [])"
  unfolding Let_def
  by (rule conjunct1 [OF Append_conflict, rule_format]) (simp add: latest_def)

section \<open>Concurrent appends\<close>

text \<open>
  Transactions under read-committed isolation: the version check reads the committed rows, the
  inserts and the commit come later, after other transactions may have committed.
\<close>

record essys =
  committed :: etable
  checked :: "nat \<rightharpoonup> DomainEvent list"

inductive es_step :: "bool \<Rightarrow> essys \<Rightarrow> essys \<Rightarrow> bool" for uniq :: bool where
  check: "checked s p = None \<Longrightarrow> events = first # rest \<Longrightarrow>
    latest (dAggregateType first) (dAggregateID first) (committed s) = expectedVersion \<Longrightarrow>
    es_step uniq s (s\<lparr>checked := (checked s)(p \<mapsto> events)\<rparr>)"
| commit: "checked s p = Some events \<Longrightarrow> insert_events uniq now events (committed s) = Inr tbl' \<Longrightarrow>
    es_step uniq s (s\<lparr>committed := tbl', checked := (checked s)(p := None)\<rparr>)"
| abort: "es_step uniq s (s\<lparr>checked := (checked s)(p := None)\<rparr>)"

inductive es_reachable :: "bool \<Rightarrow> essys \<Rightarrow> bool" for uniq :: bool where
  init: "es_reachable uniq \<lparr>committed = [], checked = Map.empty\<rparr>"
| step: "es_reachable uniq s \<Longrightarrow> es_step uniq s t \<Longrightarrow> es_reachable uniq t"

text \<open>\<open>Append\<close> without a transaction in between is a check followed by a commit.\<close>

lemma Append_as_steps:
  assumes "Append uniq None None now es v (committed s) = (None, tbl')" and "es \<noteq> []" and "checked s p = None"
  shows "es_step uniq s (s\<lparr>checked := (checked s)(p \<mapsto> es)\<rparr>)"
    and "es_step uniq (s\<lparr>checked := (checked s)(p \<mapsto> es)\<rparr>) (s\<lparr>committed := tbl'\<rparr>)"
proof -
  obtain first rest where es: "es = first # rest" using assms(2) by (cases es) auto
  have v: "latest (dAggregateType first) (dAggregateID first) (committed s) = v"
    and ins: "insert_events uniq now es (committed s) = Inr tbl'"
    using assms(1) by (auto simp: Append_def es split: if_splits sum.splits)
  show "es_step uniq s (s\<lparr>checked := (checked s)(p \<mapsto> es)\<rparr>)" by (rule es_step.check [OF assms(3) es v])
  have "(checked s)(p := None) = checked s" using assms(3) by auto
  then have "s\<lparr>checked := (checked s)(p \<mapsto> es), committed := tbl', checked := (checked s)(p := None)\<rparr> = s\<lparr>committed := tbl'\<rparr>"
    by simp
  with es_step.commit [of "s\<lparr>checked := (checked s)(p \<mapsto> es)\<rparr>" p es uniq now tbl'] ins
  show "es_step uniq (s\<lparr>checked := (checked s)(p \<mapsto> es)\<rparr>) (s\<lparr>committed := tbl'\<rparr>)" by simp
qed

definition version_key :: "EventModel \<Rightarrow> string \<times> string \<times> int" where
  "version_key m = (mAggregateType m, mAggregateID m, mVersion m)"

lemma insert_model_key:
  "insert_model True tbl m = Inr tbl' \<Longrightarrow> distinct (map version_key tbl) \<Longrightarrow> distinct (map version_key tbl')"
  unfolding insert_model_def version_key_def of_aggregate_def by (force split: if_splits)

lemma insert_events_key:
  assumes "insert_events True now es tbl = Inr tbl'" and "distinct (map version_key tbl)"
  shows "distinct (map version_key tbl')"
  using assms unfolding insert_events_def
  by (rule fold_res_invariant [where P = "\<lambda>t. distinct (map version_key t)"]) (rule insert_model_key)

lemma es_step_key:
  "es_step True s t \<Longrightarrow> distinct (map version_key (committed s)) \<Longrightarrow> distinct (map version_key (committed t))"
  by (induction rule: es_step.induct) (auto dest: insert_events_key)

lemma es_reachable_key: "es_reachable True s \<Longrightarrow> distinct (map version_key (committed s))"
  by (induction rule: es_reachable.induct) (auto intro: es_step_key)

text \<open>
  With the unique index of \<open>CreateEventStoreTable\<close> no interleaving of appends stores two events
  of an aggregate under the same version: of two writers that passed the same version check one
  fails.
\<close>
theorem event_versions_unique:
  assumes "es_reachable True s"
  shows "distinct (map version_key (committed s))"
  using assms by (rule es_reachable_key)

definition sample_created :: "string \<Rightarrow> DomainEvent" where
  "sample_created i = \<lparr>dID = i, SchemaVersion = 1, dAggregateType = ''order'', dAggregateID = ''7'', dEventType = ''created'',
     EventData = ''{}'', Metadata = '''', Version = 1, OccurredAt = Time 1, dCreatedAt = Time 1\<rparr>"

lemma two_checked:
  "es_reachable uniq \<lparr>committed = [model_of (\<lambda>_. Time 2) (sample_created ''a'')], checked = [1 \<mapsto> [sample_created ''b'']]\<rparr>"
proof -
  let ?a = "sample_created ''a''" and ?b = "sample_created ''b''"
  let ?s = "\<lambda>c t. \<lparr>committed = c, checked = t\<rparr>"
  have 1: "es_step uniq (?s [] Map.empty) (?s [] [0 \<mapsto> [?a]])"
    using es_step.check [of "?s [] Map.empty" 0 "[?a]" ?a "[]" 0] by (simp add: latest_def)
  have 2: "es_step uniq (?s [] [0 \<mapsto> [?a]]) (?s [] [0 \<mapsto> [?a], 1 \<mapsto> [?b]])"
    using es_step.check [of "?s [] [0 \<mapsto> [?a]]" 1 "[?b]" ?b "[]" 0] by (simp add: latest_def)
  have 3: "es_step uniq (?s [] [0 \<mapsto> [?a], 1 \<mapsto> [?b]]) (?s [model_of (\<lambda>_. Time 2) ?a] [1 \<mapsto> [?b]])"
    using es_step.commit [of "?s [] [0 \<mapsto> [?a], 1 \<mapsto> [?b]]" 0 "[?a]" uniq "\<lambda>_. Time 2" "[model_of (\<lambda>_. Time 2) ?a]"]
    by (simp add: insert_events_def insert_model_def fun_upd_twist)
  note r = es_reachable.step
  show ?thesis by (rule r [OF r [OF r [OF es_reachable.init 1] 2] 3])
qed

theorem event_versions_unique_witness:
  "distinct (map version_key [model_of (\<lambda>_. Time 2) (sample_created ''a'')])"
  using event_versions_unique [OF two_checked] by simp

text \<open>
  Without that index, which is what \<open>AutoMigrate\<close> sets up, two writers that pass the same
  version check both commit, and the aggregate has two events of the same version.
\<close>
lemma event_versions_duplicate:
  "\<exists>s. es_reachable False s \<and> \<not> distinct (map version_key (committed s))"
proof -
  let ?a = "model_of (\<lambda>_. Time 2) (sample_created ''a'')" and ?b = "model_of (\<lambda>_. Time 2) (sample_created ''b'')"
  let ?s = "\<lparr>committed = [?a], checked = [1 \<mapsto> [sample_created ''b'']]\<rparr>"
  have "insert_events False (\<lambda>_. Time 2) [sample_created ''b''] [?a] = Inr [?a, ?b]"
    by (simp add: insert_events_def insert_model_def sample_created_def)
  then have "es_step False ?s \<lparr>committed = [?a, ?b], checked = Map.empty\<rparr>"
    using es_step.commit [of ?s 1 "[sample_created ''b'']" False "\<lambda>_. Time 2" "[?a, ?b]"] by simp
  from es_reachable.step [OF two_checked this]
  have "es_reachable False \<lparr>committed = [?a, ?b], checked = Map.empty\<rparr>" .
  moreover have "\<not> distinct (map version_key [?a, ?b])" by (simp add: version_key_def sample_created_def)
  ultimately show ?thesis by (metis essys.select_convs(1))
qed

section \<open>Snapshots and dead letters\<close>

lemma Snapshot_Load_Save:
  "Snapshot_Load None ty i (snd (Snapshot_Save None t ty i v bytes tbl)) = Inr (Some \<lparr>sVersion = v, sData = bytes, sCreatedAt = t\<rparr>)"
  "(ty', i') \<noteq> (ty, i) \<Longrightarrow>
     Snapshot_Load None ty' i' (snd (Snapshot_Save None t ty i v bytes tbl)) = Snapshot_Load None ty' i' tbl"
  by (auto simp: Snapshot_Load_def Snapshot_Save_def)

lemma Snapshot_Load_Delete:
  "Snapshot_Load None ty i (snd (Snapshot_Delete None ty i v tbl)) =
     Inr (case tbl (ty, i) of Some s \<Rightarrow> if sVersion s < v then None else Some s | None \<Rightarrow> None)"
  by (auto simp: Snapshot_Load_def Snapshot_Delete_def split: option.splits)

text \<open>
  A dead letter is recorded before the message is terminated: the message is terminated only
  when its row was stored, a failed insert leaves both untouched, and after an error of the
  termination the row is there and the message is not terminated.
\<close>
theorem RouteToDLQ_row:
  "case RouteToDLQ decodeID marshalHeaders createFault termFault termFault2 now consumer handlerErr (tbl, m) of
     (err, tbl', m') \<Rightarrow>
       if createFault \<noteq> None then err = createFault \<and> tbl' = tbl \<and> m' = m
       else (\<exists>row. tbl' = tbl @ [row] \<and> fEventID row = eventIDFromMessage decodeID m \<and> fSubject row = msgSubject m
               \<and> fPayload row = msgData m \<and> fConsumerName row = consumer
               \<and> fError row = (case handlerErr of None \<Rightarrow> ''message routed to DLQ'' | Some e \<Rightarrow> e))
          \<and> (if termFault = None \<or> termFault2 = None then err = None \<and> m' = m\<lparr>msgTerminated := True\<rparr>
             else err = termFault2 \<and> m' = m)"
  by (cases "msgMetadata m"; cases "marshalHeaders (msgHeaders m)"; cases createFault; cases termFault; cases termFault2)
    (simp_all add: RouteToDLQ_def Let_def)

end
