(* ===== verification/Delivery.thy ===== *)
theory Delivery
  imports Streams Idempotency EventStore
begin

text \<open>
  From the outbox row to the consumer's handler: the message that \<open>outbox/processor.go\<close> publishes
  through \<open>nats/jetstream.go\<close>, the event id that \<open>eventsourcing/dlq.go\<close> reads from it, the claims of
  \<open>eventsourcing/idempotency.go\<close> under redelivery, and the two step relations, of the outbox and of the
  claims, run side by side. What the broker does between the two ends is a hypothesis (\<open>received\<close>) or
  the nondeterminism of the steps.
\<close>

section \<open>The identity of a message\<close>

definition outbox_message :: "OutboxEvent \<Rightarrow> Msg" where
  \<comment> \<open>the message of a row; \<open>processEvent_message\<close> shows that \<open>processEvent\<close> sends it\<close>
  "outbox_message e =
     \<lparr>mSubject = EventType e, mData = Payload e, mHeader = Some [''Nats-Msg-Id'' \<mapsto> [eID e]]\<rparr>"

lemma processEvent_message: "processEvent (NewOutboxPublisher js) e w = PublishMsg js (outbox_message e) w"
  by (simp add: processEvent_JetStream outbox_message_def)

definition header_get :: "(string \<rightharpoonup> string list) option \<Rightarrow> string \<Rightarrow> string option" where
  \<comment> \<open>the first value of a header\<close>
  "header_get h k = (case h of None \<Rightarrow> None | Some f \<Rightarrow> (case f k of Some (v # _) \<Rightarrow> Some v | _ \<Rightarrow> None))"

definition received :: "Msg \<Rightarrow> msg \<Rightarrow> bool" where
  \<comment> \<open>NATS: a consumer is handed subject, data and headers as they were published\<close>
  "received p m \<longleftrightarrow>
     msgSubject m = mSubject p \<and> msgData m = mData p \<and> (\<forall>k. map_of (msgHeaders m) k = header_get (mHeader p) k)"

lemma received_id:
  assumes "received (outbox_message e) m" and "eID e \<noteq> ''''"
  shows "eventIDFromMessage decodeID m = eID e"
  using assms by (simp add: received_def outbox_message_def header_get_def eventIDFromMessage_def)

text \<open>
  C13. The identity of an event survives the whole way: the message the processor publishes for a row
  gives every consumer the row's id as event id, whatever its payload decodes to, and when the
  handler fails, the dead letter carries the id, the subject and the payload of the row; the message
  is terminated only once that dead letter is stored, and an error of the termination is reported.
\<close>
theorem dead_letter_identity:
  assumes "eID e \<noteq> ''''" and "received (outbox_message e) m"
  shows "processEvent (NewOutboxPublisher js) e w = PublishMsg js (outbox_message e) w
    \<and> eventIDFromMessage decodeID m = eID e
    \<and> (case RouteToDLQ decodeID marshalHeaders createFault termFault termFault2 now consumer handlerErr (tbl, m) of
         (err, tbl', m') \<Rightarrow>
           if createFault \<noteq> None then err = createFault \<and> tbl' = tbl \<and> m' = m
           else (\<exists>row. tbl' = tbl @ [row] \<and> fEventID row = eID e \<and> fSubject row = EventType e
                   \<and> fPayload row = Payload e \<and> fConsumerName row = consumer
                   \<and> fError row = (case handlerErr of None \<Rightarrow> ''message routed to DLQ'' | Some e \<Rightarrow> e))
              \<and> (if termFault = None \<or> termFault2 = None then err = None \<and> m' = m\<lparr>msgTerminated := True\<rparr>
                 else err = termFault2 \<and> m' = m))"
proof -
  note i = received_id [OF assms(2,1), of decodeID]
  have "msgSubject m = EventType e" "msgData m = Payload e"
    using assms(2) by (simp_all add: received_def outbox_message_def)
  with RouteToDLQ_row [where decodeID = decodeID and m = m] show ?thesis
    unfolding i by (simp only: processEvent_message simp_thms)
qed

definition sample_delivery :: msg where
  "sample_delivery =
     \<lparr>msgSubject = ''events.order.created'', msgData = ''{}'', msgHeaders = [(''Nats-Msg-Id'', ''a'')],
      msgMetadata = None, msgTerminated = False\<rparr>"

theorem dead_letter_identity_witness:
  "case RouteToDLQ (\<lambda>_. Some ''other'') (\<lambda>_. None) None None None (Time 5) ''mailer'' (Some ''smtp down'') ([], sample_delivery) of
     (err, tbl, m) \<Rightarrow> err = None \<and> map fEventID tbl = [''a''] \<and> msgTerminated m"
proof -
  let ?e = "(sample_event ''a'' 1 0)\<lparr>EventType := ''events.order.created'', Payload := ''{}''\<rparr>"
  have i: "eID ?e \<noteq> ''''" by (simp add: sample_event_def)
  have r: "received (outbox_message ?e) sample_delivery"
    by (simp add: received_def outbox_message_def header_get_def sample_delivery_def sample_event_def)
  show ?thesis
    using dead_letter_identity [OF i r, where js = sample_js and w = "[]" and decodeID = "\<lambda>_. Some ''other''" and marshalHeaders = "\<lambda>_. None" and createFault = None
        and termFault = None and ?termFault2.0 = None and now = "Time 5" and consumer = "''mailer''"
        and handlerErr = "Some ''smtp down''" and tbl = "[]"]
    by (auto simp: sample_event_def)
qed

section \<open>Redelivery after a crash\<close>

lemma in_progress_retry:
  assumes "Second \<le> lease" and "lease \<le> MaxInt64" and "tbl (ev, con) = Some row" and "pCompletedAt row = None"
    and "pProcessedAt row \<le> now" and "Claim None None (\<lambda>t. t) now ev con lease tbl = ((res, retry, err), tbl')"
    and "res \<noteq> ClaimAcquired"
  shows "tbl' = tbl" and "Second \<le> retry" and "now \<le> AddT (pProcessedAt row) lease"
    and "AddT (pProcessedAt row) lease \<le> AddT now retry"
    and "now = AddT (pProcessedAt row) lease \<Longrightarrow> retry = Second"
    and "retry = Second \<or> AddT now retry = AddT (pProcessedAt row) lease"
proof -
  define d where "d = nanos (pProcessedAt row) + lease - nanos now"
  have pos: "\<not> lease \<le> 0" using assms(1) by (simp add: duration_units)
  from assms(3,4,6,7) pos have live: "\<not> AddT (pProcessedAt row) lease < now"
    by (auto simp: Claim_def claim_upsert_def Let_def stale_iff split: if_splits)
  have d: "0 \<le> d" "d \<le> lease" using live assms(5) by (auto simp: d_def time_order)
  then have "SubT (AddT (pProcessedAt row) lease) now = d"
    using assms(2) by (simp add: SubT_def d_def i64_limits)
  with assms(3,4,6) pos live have r: "retry = max d Second" "tbl' = tbl"
    by (auto simp: Claim_def claim_upsert_def Let_def stale_iff max_def split: if_splits)
  show "tbl' = tbl" "Second \<le> retry" using r by simp_all
  show "now \<le> AddT (pProcessedAt row) lease" using live by simp
  show "AddT (pProcessedAt row) lease \<le> AddT now retry" by (simp add: time_order r d_def)
  show "retry = Second" if "now = AddT (pProcessedAt row) lease"
    using that r by (simp add: d_def time_order duration_units AddT_def)
  show "retry = Second \<or> AddT now retry = AddT (pProcessedAt row) lease"
    using r by (auto simp: max_def d_def AddT_def)
qed

text \<open>
  C9. A crashed consumer does not strand its event: whatever delivery died with the claim, when every
  later delivery that is told to wait comes back no earlier than the promised retry time, one of the
  first three of them acquires the event, well inside the five deliveries the consumers allow; and
  when they come back exactly at that time, it is acquired at most one second after the lease ends.
\<close>
theorem crash_recovered:
  assumes "Second \<le> lease" and "lease \<le> MaxInt64"
    and "tbl (ev, con) = Some row" and "pCompletedAt row = None" and "pProcessedAt row \<le> t1"
    and "Claim None None (\<lambda>t. t) t1 ev con lease tbl = ((r1, wait1, err1), tbl1)" and "AddT t1 wait1 \<le> t2"
    and "Claim None None (\<lambda>t. t) t2 ev con lease tbl1 = ((r2, wait2, err2), tbl2)" and "AddT t2 wait2 \<le> t3"
    and "Claim None None (\<lambda>t. t) t3 ev con lease tbl2 = ((r3, wait3, err3), tbl3)"
  shows "ClaimAcquired \<in> {r1, r2, r3}
    \<and> (r1 \<noteq> ClaimAcquired \<longrightarrow> t2 = AddT t1 wait1 \<longrightarrow> t3 = AddT t2 wait2 \<longrightarrow>
         (if r2 = ClaimAcquired then t2 else t3) \<le> AddT (pProcessedAt row) (lease + Second))"
proof (cases "r1 = ClaimAcquired \<or> r2 = ClaimAcquired")
  case True
  note p1 = in_progress_retry [OF assms(1-6)]
  have "t2 \<le> AddT (pProcessedAt row) (lease + Second)"
    if "r1 \<noteq> ClaimAcquired" "t2 = AddT t1 wait1"
    using p1(3,6) [OF that(1)] that(2) by (auto simp: time_order duration_units AddT_def)
  with True show ?thesis by auto
next
  case False
  let ?until = "AddT (pProcessedAt row) lease"
  note p1 = in_progress_retry [OF assms(1-6)]
  have tbl1: "tbl1 = tbl" and t2: "?until \<le> t2" using p1(1,4) assms(7) False by (auto intro: order_trans)
  have le2: "pProcessedAt row \<le> t2" using t2 assms(1) by (simp add: time_order duration_units)
  note p2 = in_progress_retry [OF assms(1-4) le2 assms(8) [unfolded tbl1]]
  have e2: "t2 = ?until" "wait2 = Second" "tbl2 = tbl" using p2(1,3,5) t2 False by auto
  then have "?until < t3" using assms(9) by (simp add: time_order duration_units)
  then have "r3 = ClaimAcquired"
    using assms(1,3,4,10) e2(3) by (auto simp: Claim_def claim_upsert_def Let_def stale_iff duration_units split: if_splits)
  moreover have "t3 \<le> AddT (pProcessedAt row) (lease + Second)" if "t3 = AddT t2 wait2"
    using that e2 by (simp add: time_order)
  ultimately show ?thesis using False by auto
qed

theorem crash_recovered_witness:
  "let tbl = [(''e1'', ''mail'') \<mapsto> \<lparr>pProcessedAt = Time 0, pCompletedAt = None\<rparr>];
       answer = \<lambda>t. fst (Claim None None (\<lambda>t. t) (Time t) ''e1'' ''mail'' DefaultClaimLease tbl)
   in answer (30 * Second) = (ClaimInProgress, 90 * Second, None)
    \<and> answer (120 * Second) = (ClaimInProgress, Second, None)
    \<and> fst (answer (121 * Second)) = ClaimAcquired"
proof -
  let ?tbl = "[(''e1'', ''mail'') \<mapsto> \<lparr>pProcessedAt = Time 0, pCompletedAt = None\<rparr>]"
  let ?claim = "\<lambda>t. Claim None None (\<lambda>t. t) (Time t) ''e1'' ''mail'' DefaultClaimLease ?tbl"
  have 1: "?claim (30 * Second) = ((ClaimInProgress, 90 * Second, None), ?tbl)"
    and 2: "?claim (120 * Second) = ((ClaimInProgress, Second, None), ?tbl)"
    by (simp_all add: Claim_def claim_upsert_def Let_def DefaultClaimLease_def time_defs duration_units i64_limits)
  obtain r wait err tbl' where 3: "?claim (121 * Second) = ((r, wait, err), tbl')" by (metis prod.exhaust)
  have "ClaimAcquired \<in> {ClaimInProgress, ClaimInProgress, r}"
    by (rule conjunct1 [OF crash_recovered [OF _ _ _ _ _ 1 _ 2 _ 3, where row = "\<lparr>pProcessedAt = Time 0, pCompletedAt = None\<rparr>"]])
      (simp_all add: DefaultClaimLease_def time_defs duration_units i64_limits)
  then show ?thesis by (simp add: Let_def 1 2 3)
qed

section \<open>A source of deliveries and a consumer side by side\<close>

text \<open>
  Something delivers events while the deliveries of one of them race for its row at one consumer. The
  broker may hand an event to the consumer any number of times and at any time once it arrived; it
  never invents one. \<open>pHandled\<close> counts how often the event was completed. The source is given by its
  steps and by the ids that arrived at the broker.
\<close>

record 'o psys =
  pSource :: 'o
  pConsumer :: isys
  pHandled :: nat

definition handled_row :: "string \<Rightarrow> string \<Rightarrow> isys \<Rightarrow> bool" where
  "handled_row ev con i \<longleftrightarrow> (case itbl i (ev, con) of None \<Rightarrow> False | Some row \<Rightarrow> pCompletedAt row \<noteq> None)"

inductive pstep ::
  "('o \<Rightarrow> 'o \<Rightarrow> bool) \<Rightarrow> ('o \<Rightarrow> string set) \<Rightarrow> Duration \<Rightarrow> string \<Rightarrow> string \<Rightarrow> 'o psys \<Rightarrow> 'o psys \<Rightarrow> bool"
  for srcstep :: "'o \<Rightarrow> 'o \<Rightarrow> bool" and arrived :: "'o \<Rightarrow> string set" and lease :: Duration and ev con :: string where
  source: "srcstep (pSource s) t \<Longrightarrow> pstep srcstep arrived lease ev con s (s\<lparr>pSource := t\<rparr>)"
| consumer: "istep True lease ev con (pConsumer s) i \<Longrightarrow>
    (\<And>d. running i d \<noteq> None \<Longrightarrow> running (pConsumer s) d = None \<Longrightarrow> ev \<in> arrived (pSource s)) \<Longrightarrow>
    pstep srcstep arrived lease ev con s (s\<lparr>pConsumer := i,
      pHandled := (if handled_row ev con i \<and> \<not> handled_row ev con (pConsumer s) then pHandled s + 1 else pHandled s)\<rparr>)"

inductive preachable ::
  "('o \<Rightarrow> 'o \<Rightarrow> bool) \<Rightarrow> ('o \<Rightarrow> string set) \<Rightarrow> 'o \<Rightarrow> Duration \<Rightarrow> string \<Rightarrow> string \<Rightarrow> 'o psys \<Rightarrow> bool"
  for srcstep :: "'o \<Rightarrow> 'o \<Rightarrow> bool" and arrived :: "'o \<Rightarrow> string set" and src0 :: 'o and lease :: Duration and ev con :: string where
  init: "preachable srcstep arrived src0 lease ev con
    \<lparr>pSource = src0, pConsumer = \<lparr>itbl = Map.empty, running = Map.empty, iclock = t\<rparr>, pHandled = 0\<rparr>"
| step: "preachable srcstep arrived src0 lease ev con s \<Longrightarrow> pstep srcstep arrived lease ev con s t \<Longrightarrow>
    preachable srcstep arrived src0 lease ev con t"





section \<open>The outbox as the source\<close>












section \<open>Dead letters and claims\<close>

text \<open>
  The claim of an event that went to the dead-letter table is not released; it does not stop a later
  delivery for good either. A claim of \<open>Claim\<close> that was never completed is taken over once its lease
  has run out, so a replay of the dead letter after that runs the handler again; only the row that
  \<open>CheckAndMark\<close> writes, which is born completed, makes the replay a duplicate.
\<close>
theorem dead_letter_replay:
  assumes "0 < lease" and "AddT t lease < t'"
    and "tbl (ev, con) = None"
  shows "let tbl' = snd (Claim None None (\<lambda>t. t) t ev con lease tbl)
    in fst (fst (Claim None None (\<lambda>t. t) t' ev con lease tbl')) = ClaimAcquired"
    and "fst (CheckAndMark None t' ev con (snd (snd (CheckAndMark None t ev con tbl)))) = False"
  using assms by (auto simp: Claim_def claim_upsert_def CheckAndMark_def Let_def stale_iff)

end
