(* ===== verification/EventIds.thy ===== *)
theory EventIds
  imports EventStore
begin

text \<open>
  The identifiers of \<open>eventsourcing/event.go\<close>: \<open>generateEventID\<close> formats the clock reading with the
  layout \<open>20060102150405.000000000\<close>. The reading is the civil time that Go's \<open>time\<close> package shows in
  the local zone (\<open>civil\<close>, an argument); the formatting is modelled. The lemmas compare identifiers and
  follow events that share one into the store.
\<close>

section \<open>The layout\<close>

record civil_time =
  cvYear :: nat
  cvMonth :: nat
  cvDay :: nat
  cvHour :: nat
  cvMinute :: nat
  cvSecond :: nat
  cvNano :: nat

fun fixed :: "nat \<Rightarrow> nat \<Rightarrow> string" where
  "fixed 0 n = []"
| "fixed (Suc w) n = fixed w (n div 10) @ [digit (n mod 10)]"

definition appendInt :: "nat \<Rightarrow> nat \<Rightarrow> string" where
  \<comment> \<open>\<open>n\<close> with leading zeros up to a width, wider if it needs to be\<close>
  "appendInt w n = (if n < 10 ^ w then fixed w n else show_nat n)"

definition generateEventID :: "civil_time \<Rightarrow> string" where
  "generateEventID t =
     appendInt 4 (cvYear t) @ appendInt 2 (cvMonth t) @ appendInt 2 (cvDay t) @ appendInt 2 (cvHour t)
     @ appendInt 2 (cvMinute t) @ appendInt 2 (cvSecond t) @ ''.'' @ appendInt 9 (cvNano t)"

definition civil_ok :: "civil_time \<Rightarrow> bool" where
  \<comment> \<open>the ranges of Go's calendar, up to the year 9999\<close>
  "civil_ok t \<longleftrightarrow>
     cvYear t \<le> 9999 \<and> 1 \<le> cvMonth t \<and> cvMonth t \<le> 12 \<and> 1 \<le> cvDay t \<and> cvDay t \<le> 31
     \<and> cvHour t \<le> 23 \<and> cvMinute t \<le> 59 \<and> cvSecond t \<le> 59 \<and> cvNano t < 10 ^ 9"

definition UnmarshalData :: "(string \<Rightarrow> string + 'v) \<Rightarrow> DomainEvent \<Rightarrow> string + 'v" where
  \<comment> \<open>\<open>unmarshal\<close> is \<open>json.Unmarshal\<close> into the caller's type\<close>
  "UnmarshalData unmarshal e = unmarshal (EventData e)"

section \<open>Identifiers and instants\<close>

lemma digit_inj: "a < 10 \<Longrightarrow> b < 10 \<Longrightarrow> digit a = digit b \<longleftrightarrow> a = b"
  unfolding digit_def by (auto simp: char_of_eq_iff take_bit_nat_eq_self)

lemma fixed_length [simp]: "length (fixed w n) = w"
  by (induction w arbitrary: n) auto

lemma fixed_numeral: "fixed (numeral k) n = fixed (pred_numeral k) (n div 10) @ [digit (n mod 10)]"
  by (subst numeral_eq_Suc) (simp only: fixed.simps)

lemma fixed_inj: "a < 10 ^ w \<Longrightarrow> b < 10 ^ w \<Longrightarrow> fixed w a = fixed w b \<longleftrightarrow> a = b"
proof (induction w arbitrary: a b)
  case (Suc w)
  have "a div 10 < 10 ^ w" "b div 10 < 10 ^ w" using Suc.prems by (simp_all add: less_mult_imp_div_less mult.commute)
  with Suc.IH have "fixed (Suc w) a = fixed (Suc w) b \<longleftrightarrow> a div 10 = b div 10 \<and> a mod 10 = b mod 10"
    by (simp add: digit_inj)
  also have "\<dots> \<longleftrightarrow> a = b" by (metis div_mult_mod_eq)
  finally show ?case .
qed simp

lemma civil_ok_ranges:
  assumes "civil_ok t"
  shows "cvYear t < 10 ^ 4" "cvMonth t < 10 ^ 2" "cvDay t < 10 ^ 2" "cvHour t < 10 ^ 2" "cvMinute t < 10 ^ 2"
    "cvSecond t < 10 ^ 2" "cvNano t < 10 ^ 9"
  using assms by (simp_all add: civil_ok_def)

lemma generateEventID_fixed:
  "civil_ok t \<Longrightarrow> generateEventID t =
     fixed 4 (cvYear t) @ fixed 2 (cvMonth t) @ fixed 2 (cvDay t) @ fixed 2 (cvHour t)
     @ fixed 2 (cvMinute t) @ fixed 2 (cvSecond t) @ ''.'' @ fixed 9 (cvNano t)"
  using civil_ok_ranges [of t] unfolding generateEventID_def appendInt_def by (simp only: if_True)

lemma generateEventID_inj:
  assumes "civil_ok a" and "civil_ok b"
  shows "generateEventID a = generateEventID b \<longleftrightarrow> a = b"
proof
  assume "generateEventID a = generateEventID b"
  then have "cvYear a = cvYear b \<and> cvMonth a = cvMonth b \<and> cvDay a = cvDay b \<and> cvHour a = cvHour b
      \<and> cvMinute a = cvMinute b \<and> cvSecond a = cvSecond b \<and> cvNano a = cvNano b"
    unfolding generateEventID_fixed [OF assms(1)] generateEventID_fixed [OF assms(2)]
    by (simp only: append_eq_append_conv fixed_length simp_thms fixed_inj
        civil_ok_ranges [OF assms(1)] civil_ok_ranges [OF assms(2)])
  then show "a = b" by (cases a; cases b) simp
qed simp


lemma generateEventID_length: "civil_ok t \<Longrightarrow> length (generateEventID t) = 24"
  by (simp add: generateEventID_fixed)

section \<open>Events of one instant\<close>

lemma insert_model_Inr:
  "insert_model uniq t m = Inr t' \<Longrightarrow> t' = t @ [m] \<and> mEventID m \<notin> mEventID ` set t"
  by (auto simp: insert_model_def split: if_splits)

lemma insert_models_fresh:
  "fold_res (insert_model uniq) t ms = Inr t' \<Longrightarrow>
     distinct (map mEventID ms) \<and> set (map mEventID ms) \<inter> mEventID ` set t = {}"
proof (induction ms arbitrary: t)
  case (Cons m ms)
  then obtain t1 where t1: "insert_model uniq t m = Inr t1" "fold_res (insert_model uniq) t1 ms = Inr t'"
    by (auto split: sum.splits)
  with insert_model_Inr [OF t1(1)] Cons.IH [OF t1(2)] show ?case by auto
qed simp

lemma insert_same_id:
  assumes "\<not> distinct (map dID es)"
  shows "\<exists>err. insert_events uniq now es tbl = Inl err"
proof (cases "insert_events uniq now es tbl")
  case (Inr t)
  then have "distinct (map mEventID (map (model_of now) es))"
    unfolding insert_events_def by (blast dest: insert_models_fresh)
  with assms show ?thesis by (simp add: comp_def model_of_def)
qed simp

text \<open>
  C27. An event identifier is the civil time of its creation and nothing else: two events have the same
  identifier exactly when the clock showed the same local time to the nanosecond. So a batch in which
  two events were created at the same reading of the clock can never be appended, whatever the versions
  and the aggregate, and the refused append leaves the table as it was; with distinct readings the
  identifiers are distinct, 24 bytes long, and fit the column.
\<close>
theorem event_id_is_clock:
  assumes "civil_ok (civil t)" and "civil_ok (civil t')"
    and "NewDomainEvent (\<lambda>t. generateEventID (civil t)) now t ty i et data v = Inr e"
    and "NewDomainEvent (\<lambda>t. generateEventID (civil t)) now' t' ty' i' et' data' v' = Inr e'"
  shows "(dID e = dID e' \<longleftrightarrow> civil t = civil t') \<and> length (dID e) = 24
    \<and> (civil t = civil t' \<longrightarrow>
         fst (Append uniq fault1 fault2 stamp (xs @ e # ys @ e' # zs) expected tbl) \<noteq> None
         \<and> snd (Append uniq fault1 fault2 stamp (xs @ e # ys @ e' # zs) expected tbl) = tbl)"
proof -
  have d: "dID e = generateEventID (civil t)" "dID e' = generateEventID (civil t')"
    using assms(3,4) by (auto simp: NewDomainEvent_def split: sum.splits)
  have iff: "dID e = dID e' \<longleftrightarrow> civil t = civil t'"
    unfolding d by (rule generateEventID_inj [OF assms(1,2)])
  let ?es = "xs @ e # ys @ e' # zs"
  have "fst (Append uniq fault1 fault2 stamp ?es expected tbl) \<noteq> None \<and> snd (Append uniq fault1 fault2 stamp ?es expected tbl) = tbl"
    if "dID e = dID e'"
  proof -
    have "\<exists>err. insert_events uniq stamp ?es tbl = Inl err" by (rule insert_same_id) (use that in simp)
    then obtain err where "insert_events uniq stamp ?es tbl = Inl err" ..
    moreover obtain first rest where "?es = first # rest" by (cases xs) auto
    ultimately show ?thesis by (simp add: Append_def split: option.splits)
  qed
  with iff show ?thesis using generateEventID_length [OF assms(1)] d(1) by auto
qed

definition sample_civil :: "Time \<Rightarrow> civil_time" where
  \<comment> \<open>a clock of the morning of 24 September 2026\<close>
  "sample_civil t = \<lparr>cvYear = 2026, cvMonth = 9, cvDay = 24, cvHour = 10, cvMinute = 0, cvSecond = 0, cvNano = nat (nanos t) mod 10 ^ 9\<rparr>"

theorem event_id_is_clock_witness:
  "\<exists>e e'. NewDomainEvent (\<lambda>t. generateEventID (sample_civil t)) (Time 5) (Time 5) ''order'' ''7'' ''created'' (Inr ''{}'') 1 = Inr e
     \<and> NewDomainEvent (\<lambda>t. generateEventID (sample_civil t)) (Time 5) (Time 5) ''order'' ''7'' ''paid'' (Inr ''{}'') 2 = Inr e'
     \<and> snd (Append True None None (\<lambda>_. Time 6) [e, e'] 0 []) = [] \<and> dID e = ''20260924100000.000000005''"
proof -
  let ?new = "\<lambda>et v. NewDomainEvent (\<lambda>t. generateEventID (sample_civil t)) (Time 5) (Time 5) ''order'' ''7'' et (Inr ''{}'') v"
  obtain e e' where e: "?new ''created'' 1 = Inr e" "?new ''paid'' 2 = Inr e'" by (simp add: NewDomainEvent_def)
  have ok: "civil_ok (sample_civil (Time 5))" by (simp add: civil_ok_def sample_civil_def)
  have i: "generateEventID (sample_civil (Time 5)) = ''20260924100000.000000005''"
    unfolding generateEventID_fixed [OF ok] by (simp add: sample_civil_def fixed_numeral)
  have "snd (Append True None None (\<lambda>_. Time 6) [e, e'] 0 []) = []"
    using event_id_is_clock [OF ok ok e, of True None None "\<lambda>_. Time 6" "[]" "[]" "[]" 0 "[]"] by simp
  moreover have "dID e = ''20260924100000.000000005''" using e(1) i by (auto simp: NewDomainEvent_def)
  ultimately show ?thesis using e by blast
qed

end
