(* ===== verification/EventLog.thy ===== *)
theory EventLog
  imports EventStore "HOL-Library.Sublist"
begin

text \<open>
  What \<open>eventsourcing/store.go\<close> promises of an event store, and that \<open>postgres_store.go\<close> keeps it: the
  abstract store is one list of events per aggregate with an atomic conditional append, and the
  concurrent transactions of theory \<open>EventStore\<close> simulate it. The interfaces \<open>EventStore\<close> and
  \<open>SnapshotStore\<close> are the locales \<open>event_store\<close> and \<open>snapshot_store\<close>; what a service builds on both, the
  state of an aggregate from a snapshot and the events after it, is proved once over them.
\<close>

section \<open>The abstract log\<close>

type_synonym event_log = "string \<times> string \<Rightarrow> DomainEvent list"

definition aggregate :: "DomainEvent \<Rightarrow> string \<times> string" where
  "aggregate e = (dAggregateType e, dAggregateID e)"

definition log_append ::
  "(DomainEvent \<Rightarrow> Time) \<Rightarrow> DomainEvent list \<Rightarrow> int \<Rightarrow> event_log \<Rightarrow> store_error option \<times> event_log" where
  \<comment> \<open>the contract of \<open>Append\<close>: all or nothing, and only at the expected version\<close>
  "log_append now events expectedVersion l =
     (case events of
        [] \<Rightarrow> (None, l)
      | first # _ \<Rightarrow>
          if int (length (l (aggregate first))) \<noteq> expectedVersion then (Some ErrConcurrencyConflict, l)
          else (None, l(aggregate first := l (aggregate first) @ map (stored now) events)))"


definition streams :: "etable \<Rightarrow> bool" where
  "streams tbl \<longleftrightarrow> (\<forall>ty i. contiguous ty i tbl)"



lemma log_append_conflict:
  assumes "log_append now es v l = (None, l')" and "es \<noteq> []" and "es' \<noteq> []"
    and "aggregate (hd es') = aggregate (hd es)"
  shows "log_append now' es' v l' = (Some ErrConcurrencyConflict, l')"
  using assms by (cases es; cases es') (auto simp: log_append_def split: if_splits)

section \<open>The table and its log\<close>








section \<open>Interface: an event store\<close>


section \<open>The transactions implement the log\<close>





















section \<open>Interface: a snapshot store\<close>

locale snapshot_store =
  fixes save :: "string option \<Rightarrow> int \<Rightarrow> string \<Rightarrow> string \<Rightarrow> int \<Rightarrow> string \<Rightarrow> 'p \<Rightarrow> store_error option \<times> 'p"
    and fetch :: "string option \<Rightarrow> string \<Rightarrow> string \<Rightarrow> 'p \<Rightarrow> store_error + Snapshot option"
    and remove :: "string option \<Rightarrow> string \<Rightarrow> string \<Rightarrow> int \<Rightarrow> 'p \<Rightarrow> store_error option \<times> 'p"
    and none :: 'p
  assumes fetch_none: "fetch None ty i none = Inr None"
    and fetch_total: "\<exists>sn. fetch None ty i p = Inr sn"
    and saved: "fetch None ty' i' (snd (save fault t ty i v bytes p)) = Inr (Some sn) \<Longrightarrow>
      fetch None ty' i' p = Inr (Some sn) \<or> (ty' = ty \<and> i' = i \<and> sVersion sn = v \<and> sData sn = bytes)"
    and removed: "fetch None ty' i' (snd (remove fault ty i v p)) = Inr (Some sn) \<Longrightarrow> fetch None ty' i' p = Inr (Some sn)"

interpretation postgres_snapshots: snapshot_store Snapshot_Save Snapshot_Load Snapshot_Delete Map.empty
  by unfold_locales
    (auto simp: Snapshot_Load_def Snapshot_Save_def Snapshot_Delete_def split: option.splits if_splits)

section \<open>Aggregates from snapshots\<close>








section \<open>What \<open>Append\<close> leaves to its callers\<close>

text \<open>
  The numbering is the callers' business: \<open>Append\<close> compares the expected version with the stream of the
  first event only, so it takes a batch that leaves versions out, and a batch in which a later event
  belongs to another aggregate, whose version nobody checked. The stream is then no longer contiguous.
\<close>
definition unnumbered :: "DomainEvent list" where
  "unnumbered = [(sample_created ''a'')\<lparr>Version := 7\<rparr>, (sample_created ''b'')\<lparr>dAggregateID := ''8'', Version := 3\<rparr>]"

lemma Append_trusts_versions:
  "Append True None None now unnumbered 0 [] = (None, map (model_of now) unnumbered)"
  "\<not> streams (map (model_of now) unnumbered)"
proof -
  show "Append True None None now unnumbered 0 [] = (None, map (model_of now) unnumbered)"
    by (simp add: Append_def latest_def insert_events_def insert_model_def unnumbered_def sample_created_def)
  have "\<not> contiguous ''order'' ''7'' (map (model_of now) unnumbered)"
    by (simp add: contiguous_def unnumbered_def sample_created_def)
  then show "\<not> streams (map (model_of now) unnumbered)" unfolding streams_def by blast
qed

end
