(* ===== verification/Schema.thy ===== *)
theory Schema
  imports EventStore
begin

text \<open>
  The tables behind the stores: the gorm tags of the row types (\<open>eventsourcing/postgres_store.go\<close>,
  \<open>idempotency.go\<close>, \<open>dlq.go\<close>, \<open>outbox/outbox.go\<close>, \<open>auth/apikey_store.go\<close>), the SQL the library ships to
  create them (\<open>CreateEventStoreTable\<close>, \<open>CreateSnapshotStoreTable\<close>, \<open>CreateAPIKeyTable\<close> and the two
  migration files), each as the list of its statements, and gorm's \<open>AutoMigrate\<close> as an argument with
  its documented effect. The lemmas say which tables carry the columns and the unique keys that the
  models of the stores rely on.
\<close>

section \<open>Tables and statements\<close>

record column =
  cName :: string
  cType :: string
  cNotNull :: bool

record tindex =
  xName :: string
  xUnique :: bool
  xColumns :: "string list"

record tdef =
  tColumns :: "column list"
  tIndexes :: "tindex list"

type_synonym database = "string \<rightharpoonup> tdef"

datatype ddl =
    CreateTable string "column list" "tindex list"
    \<comment> \<open>\<open>CREATE TABLE IF NOT EXISTS\<close>; key and uniqueness constraints are the unique indexes they create\<close>
  | CreateIndex string tindex
    \<comment> \<open>\<open>CREATE [UNIQUE] INDEX IF NOT EXISTS\<close> on a table\<close>

fun exec_ddl :: "database \<Rightarrow> ddl \<Rightarrow> string + database" where
  "exec_ddl db (CreateTable t cols idx) =
     Inr (if db t = None then db(t \<mapsto> \<lparr>tColumns = cols, tIndexes = idx\<rparr>) else db)"
| "exec_ddl db (CreateIndex t x) =
     (case db t of
        None \<Rightarrow> Inl ''relation does not exist''
      | Some d \<Rightarrow>
          if xName x \<in> xName ` set (tIndexes d) then Inr db
          else if \<not> set (xColumns x) \<subseteq> cName ` set (tColumns d) then Inl ''column does not exist''
          else Inr (db(t \<mapsto> d\<lparr>tIndexes := tIndexes d @ [x]\<rparr>)))"

definition exec_sql :: "ddl list \<Rightarrow> database \<Rightarrow> string + database" where
  "exec_sql stmts db = fold_res exec_ddl db stmts"

definition has_columns :: "database \<Rightarrow> string \<Rightarrow> string list \<Rightarrow> bool" where
  "has_columns db t cols \<longleftrightarrow> (case db t of None \<Rightarrow> False | Some d \<Rightarrow> set cols \<subseteq> cName ` set (tColumns d))"

definition has_unique :: "database \<Rightarrow> string \<Rightarrow> string list \<Rightarrow> bool" where
  "has_unique db t cols \<longleftrightarrow>
     (case db t of None \<Rightarrow> False | Some d \<Rightarrow> list_ex (\<lambda>x. xUnique x \<and> set (xColumns x) = set cols) (tIndexes d))"

definition nn :: "string \<Rightarrow> string \<Rightarrow> column" where
  "nn name ty = \<lparr>cName = name, cType = ty, cNotNull = True\<rparr>"

definition nullable :: "string \<Rightarrow> string \<Rightarrow> column" where
  "nullable name ty = \<lparr>cName = name, cType = ty, cNotNull = False\<rparr>"

definition uniq_on :: "string \<Rightarrow> string list \<Rightarrow> tindex" where
  "uniq_on name cols = \<lparr>xName = name, xUnique = True, xColumns = cols\<rparr>"

definition index_on :: "string \<Rightarrow> string list \<Rightarrow> tindex" where
  "index_on name cols = \<lparr>xName = name, xUnique = False, xColumns = cols\<rparr>"

lemmas ddl_defs = nn_def nullable_def uniq_on_def index_on_def

section \<open>The SQL of the library\<close>

definition CreateEventStoreTable :: "ddl list" where
  "CreateEventStoreTable =
    [CreateTable ''event_store''
       [nn ''id'' ''BIGSERIAL'', nn ''event_id'' ''VARCHAR(100)'', nn ''aggregate_type'' ''VARCHAR(100)'',
        nn ''aggregate_id'' ''VARCHAR(100)'', nn ''event_type'' ''VARCHAR(100)'', nn ''event_data'' ''JSONB'',
        nullable ''metadata'' ''JSONB'', nn ''version'' ''INT'', nn ''occurred_at'' ''TIMESTAMP'',
        nn ''created_at'' ''TIMESTAMP'']
       [uniq_on ''event_store_pkey'' [''id''], uniq_on ''event_store_event_id_key'' [''event_id'']],
     CreateIndex ''event_store'' (index_on ''idx_event_store_aggregate'' [''aggregate_type'', ''aggregate_id'', ''version'']),
     CreateIndex ''event_store'' (index_on ''idx_event_store_event_type'' [''event_type'']),
     CreateIndex ''event_store'' (index_on ''idx_event_store_created_at'' [''created_at'']),
     CreateIndex ''event_store''
       (uniq_on ''idx_event_store_aggregate_version'' [''aggregate_type'', ''aggregate_id'', ''version''])]"

definition CreateSnapshotStoreTable :: "ddl list" where
  "CreateSnapshotStoreTable =
    [CreateTable ''event_snapshots''
       [nn ''id'' ''BIGSERIAL'', nn ''aggregate_type'' ''VARCHAR(100)'', nn ''aggregate_id'' ''VARCHAR(100)'',
        nn ''version'' ''INT'', nn ''data'' ''BYTEA'', nn ''created_at'' ''BIGINT'']
       [uniq_on ''event_snapshots_pkey'' [''id''],
        uniq_on ''event_snapshots_aggregate_type_aggregate_id_key'' [''aggregate_type'', ''aggregate_id'']]]"

definition CreateAPIKeyTable :: "ddl list" where
  "CreateAPIKeyTable =
    [CreateTable ''api_keys''
       [nn ''id'' ''BIGSERIAL'', nn ''key_id'' ''VARCHAR(50)'', nn ''name'' ''VARCHAR(100)'', nn ''key_hash'' ''VARCHAR(64)'',
        nn ''key_prefix'' ''VARCHAR(20)'', nn ''service_name'' ''VARCHAR(50)'', nullable ''scopes'' ''TEXT'',
        nullable ''rate_limit'' ''INT'', nullable ''expires_at'' ''TIMESTAMP'', nn ''created_at'' ''TIMESTAMP'',
        nullable ''last_used_at'' ''TIMESTAMP'', nullable ''is_active'' ''BOOLEAN'']
       [uniq_on ''api_keys_pkey'' [''id''], uniq_on ''api_keys_key_id_key'' [''key_id''],
        uniq_on ''api_keys_key_hash_key'' [''key_hash'']],
     CreateIndex ''api_keys'' (index_on ''idx_api_keys_service'' [''service_name'']),
     CreateIndex ''api_keys'' (index_on ''idx_api_keys_active'' [''is_active''])]"

definition events_init :: "ddl list" where
  "events_init =
    [CreateTable ''events.processed''
       [nn ''event_id'' ''VARCHAR(100)'', nn ''consumer_name'' ''VARCHAR(150)'', nn ''processed_at'' ''TIMESTAMPTZ'',
        nullable ''completed_at'' ''TIMESTAMPTZ'']
       [uniq_on ''processed_pkey'' [''event_id'', ''consumer_name'']],
     CreateIndex ''events.processed''
       (index_on ''idx_events_processed_consumer_processed_at'' [''consumer_name'', ''processed_at'']),
     CreateTable ''events.failed''
       [nn ''id'' ''UUID'', nullable ''event_id'' ''VARCHAR(100)'', nn ''consumer_name'' ''VARCHAR(150)'',
        nn ''subject'' ''VARCHAR(255)'', nn ''payload'' ''JSONB'', nullable ''headers'' ''JSONB'', nn ''error'' ''TEXT'',
        nullable ''stream'' ''VARCHAR(150)'', nullable ''consumer'' ''VARCHAR(150)'', nullable ''stream_sequence'' ''BIGINT'',
        nullable ''consumer_sequence'' ''BIGINT'', nullable ''delivered_count'' ''BIGINT'', nn ''failed_at'' ''TIMESTAMPTZ'']
       [uniq_on ''failed_pkey'' [''id'']],
     CreateIndex ''events.failed'' (index_on ''idx_events_failed_consumer_failed_at'' [''consumer_name'', ''failed_at'']),
     CreateIndex ''events.failed'' (index_on ''idx_events_failed_event_id'' [''event_id''])]"

definition outbox_init :: "ddl list" where
  "outbox_init =
    [CreateTable ''outbox.events''
       [nn ''id'' ''UUID'', nn ''aggregate_type'' ''VARCHAR(100)'', nn ''aggregate_id'' ''UUID'', nn ''event_type'' ''VARCHAR(100)'',
        nn ''payload'' ''JSONB'', nn ''created_at'' ''TIMESTAMPTZ'', nullable ''processed_at'' ''TIMESTAMPTZ'',
        nullable ''error'' ''TEXT'', nn ''retry_count'' ''INTEGER'']
       [uniq_on ''events_pkey'' [''id'']],
     CreateIndex ''outbox.events'' (index_on ''idx_outbox_events_unprocessed'' [''created_at'']),
     CreateIndex ''outbox.events'' (index_on ''idx_outbox_events_aggregate'' [''aggregate_type'', ''aggregate_id'']),
     CreateIndex ''outbox.events'' (index_on ''idx_outbox_events_event_type'' [''event_type''])]"

section \<open>The row types\<close>

datatype gtag = PrimaryKey | UniqueIndex string | Index string | Size nat | NotNull | Type string | Default string
  \<comment> \<open>the empty name is that of a tag without one\<close>

record gorm_model =
  TableName :: string
  gFields :: "(string \<times> gtag list) list"

definition EventModel_gorm :: gorm_model where
  "EventModel_gorm = \<lparr>TableName = ''event_store'', gFields =
    [(''ID'', [PrimaryKey]), (''EventID'', [UniqueIndex '''', Size 100, NotNull]), (''SchemaVersion'', [NotNull, Default ''1'']),
     (''AggregateType'', [Size 100, NotNull, Index ''idx_aggregate'']),
     (''AggregateID'', [Size 100, NotNull, Index ''idx_aggregate'']), (''EventType'', [Size 100, NotNull, Index '''']),
     (''EventData'', [Type ''jsonb'', NotNull]), (''Metadata'', [Type ''jsonb'']),
     (''Version'', [NotNull, Index ''idx_aggregate'']), (''OccurredAt'', [NotNull]), (''CreatedAt'', [NotNull])]\<rparr>"

definition SnapshotModel_gorm :: gorm_model where
  "SnapshotModel_gorm = \<lparr>TableName = ''event_snapshots'', gFields =
    [(''ID'', [PrimaryKey]), (''AggregateType'', [Size 100, NotNull, UniqueIndex ''idx_snapshot_aggregate'']),
     (''AggregateID'', [Size 100, NotNull, UniqueIndex ''idx_snapshot_aggregate'']), (''Version'', [NotNull]),
     (''Data'', [Type ''bytea'', NotNull]), (''CreatedAt'', [NotNull])]\<rparr>"

definition APIKeyModel_gorm :: gorm_model where
  "APIKeyModel_gorm = \<lparr>TableName = ''api_keys'', gFields =
    [(''ID'', [PrimaryKey]), (''KeyID'', [UniqueIndex '''', Size 50, NotNull]), (''Name'', [Size 100, NotNull]),
     (''KeyHash'', [UniqueIndex '''', Size 64, NotNull]), (''KeyPrefix'', [Size 20, NotNull]),
     (''ServiceName'', [Size 50, NotNull, Index '''']), (''Scopes'', [Type ''text'']), (''RateLimit'', [Default ''1000'']),
     (''ExpiresAt'', []), (''CreatedAt'', [NotNull]), (''LastUsedAt'', []), (''IsActive'', [Default ''true'', Index ''''])]\<rparr>"

definition ProcessedEvent_gorm :: gorm_model where
  "ProcessedEvent_gorm = \<lparr>TableName = ''events.processed'', gFields =
    [(''EventID'', [PrimaryKey, Size 100, NotNull]), (''ConsumerName'', [PrimaryKey, Size 150, NotNull]),
     (''ProcessedAt'', [NotNull]), (''CompletedAt'', [])]\<rparr>"

definition FailedEvent_gorm :: gorm_model where
  "FailedEvent_gorm = \<lparr>TableName = ''events.failed'', gFields =
    [(''ID'', [Type ''uuid'', PrimaryKey, Default ''gen_random_uuid()'']), (''EventID'', [Size 100, Index '''']),
     (''ConsumerName'', [Size 150, NotNull, Index '''']), (''Subject'', [Size 255, NotNull]),
     (''Payload'', [Type ''jsonb'', NotNull]), (''Headers'', [Type ''jsonb'']), (''Error'', [Type ''text'', NotNull]),
     (''Stream'', [Size 150]), (''Consumer'', [Size 150]), (''StreamSequence'', []), (''ConsumerSequence'', []),
     (''DeliveredCount'', []), (''FailedAt'', [NotNull, Index ''''])]\<rparr>"

definition OutboxEvent_gorm :: gorm_model where
  "OutboxEvent_gorm = \<lparr>TableName = ''outbox.events'', gFields =
    [(''ID'', [Type ''uuid'', PrimaryKey, Default ''gen_random_uuid()'']),
     (''AggregateType'', [Type ''varchar(100)'', NotNull, Index '''']), (''AggregateID'', [Type ''uuid'', NotNull, Index '''']),
     (''EventType'', [Type ''varchar(100)'', NotNull, Index '''']), (''Payload'', [Type ''jsonb'', NotNull]),
     (''CreatedAt'', [NotNull, Index '''']), (''ProcessedAt'', [Index '''']), (''Error'', [Type ''text'']),
     (''RetryCount'', [Default ''0''])]\<rparr>"

definition gorm_columns :: "(string \<times> string) list" where
  \<comment> \<open>the column names gorm's naming strategy gives the fields above\<close>
  "gorm_columns =
    [(''ID'', ''id''), (''EventID'', ''event_id''), (''SchemaVersion'', ''schema_version''), (''AggregateType'', ''aggregate_type''),
     (''AggregateID'', ''aggregate_id''), (''EventType'', ''event_type''), (''EventData'', ''event_data''), (''Metadata'', ''metadata''),
     (''Version'', ''version''), (''OccurredAt'', ''occurred_at''), (''CreatedAt'', ''created_at''), (''Data'', ''data''),
     (''KeyID'', ''key_id''), (''Name'', ''name''), (''KeyHash'', ''key_hash''), (''KeyPrefix'', ''key_prefix''),
     (''ServiceName'', ''service_name''), (''Scopes'', ''scopes''), (''RateLimit'', ''rate_limit''), (''ExpiresAt'', ''expires_at''),
     (''LastUsedAt'', ''last_used_at''), (''IsActive'', ''is_active''), (''ConsumerName'', ''consumer_name''),
     (''ProcessedAt'', ''processed_at''), (''CompletedAt'', ''completed_at''), (''Subject'', ''subject''), (''Payload'', ''payload''),
     (''Headers'', ''headers''), (''Error'', ''error''), (''Stream'', ''stream''), (''Consumer'', ''consumer''),
     (''StreamSequence'', ''stream_sequence''), (''ConsumerSequence'', ''consumer_sequence''),
     (''DeliveredCount'', ''delivered_count''), (''FailedAt'', ''failed_at''), (''RetryCount'', ''retry_count'')]"

definition naming_ok :: "(string \<Rightarrow> string) \<Rightarrow> bool" where
  "naming_ok naming \<longleftrightarrow> list_all (\<lambda>(f, c). naming f = c) gorm_columns"

definition model_columns :: "(string \<Rightarrow> string) \<Rightarrow> gorm_model \<Rightarrow> string list" where
  \<comment> \<open>the columns a \<open>Create\<close> of a row names\<close>
  "model_columns naming model = map (naming \<circ> fst) (gFields model)"

definition tagged :: "(string \<Rightarrow> string) \<Rightarrow> gtag \<Rightarrow> gorm_model \<Rightarrow> string list" where
  "tagged naming tag model = map (naming \<circ> fst) (filter (\<lambda>(f, tags). tag \<in> set tags) (gFields model))"

definition index_names :: "gorm_model \<Rightarrow> string list" where
  "index_names model = concat (map (\<lambda>(f, tags). concat (map (\<lambda>t. case t of UniqueIndex n \<Rightarrow> [n] | _ \<Rightarrow> []) tags)) (gFields model))"

definition model_keys :: "(string \<Rightarrow> string) \<Rightarrow> gorm_model \<Rightarrow> string list list" where
  \<comment> \<open>the unique keys of a model: the primary key, each field with an unnamed unique index, and the
     fields that share a named one\<close>
  "model_keys naming model =
     [tagged naming PrimaryKey model] @ map (\<lambda>c. [c]) (tagged naming (UniqueIndex '''') model)
     @ map (\<lambda>n. tagged naming (UniqueIndex n) model) (filter (\<lambda>n. n \<noteq> '''') (index_names model))"

definition model_index_names :: "(string \<Rightarrow> string) \<Rightarrow> gorm_model \<Rightarrow> string list" where
  \<comment> \<open>the names gorm gives its indexes: that of the tag, else \<open>idx_\<close>, the table and the column\<close>
  "model_index_names naming model =
     (TableName model @ ''_pkey'')
     # concat (map (\<lambda>(f, tags). concat (map (\<lambda>t. case t of UniqueIndex n \<Rightarrow> [n] | Index n \<Rightarrow> [n] | _ \<Rightarrow> []) tags)) (gFields model))
     @ map (\<lambda>c. ''idx_'' @ TableName model @ ''_'' @ c) (model_columns naming model)"

definition automigrates :: "(string \<Rightarrow> string) \<Rightarrow> (gorm_model \<Rightarrow> database \<Rightarrow> string + database) \<Rightarrow> bool" where
  \<comment> \<open>gorm: \<open>AutoMigrate\<close> creates the table, missing columns and missing indexes, and drops nothing\<close>
  "automigrates naming migrate \<longleftrightarrow> naming_ok naming \<and>
     (\<forall>model db. \<exists>db'. migrate model db = Inr db'
        \<and> (\<forall>t. t \<noteq> TableName model \<longrightarrow> db' t = db t)
        \<and> (\<forall>cols. has_columns db' (TableName model) cols \<longleftrightarrow>
             set cols \<subseteq> set (model_columns naming model)
               \<union> (case db (TableName model) of None \<Rightarrow> {} | Some d \<Rightarrow> cName ` set (tColumns d)))
        \<and> (\<forall>cols. has_unique db' (TableName model) cols \<longleftrightarrow>
             set cols \<in> set ` set (model_keys naming model) \<or> has_unique db (TableName model) cols)
        \<and> (\<forall>d'. db' (TableName model) = Some d' \<longrightarrow>
             xName ` set (tIndexes d') \<subseteq> set (model_index_names naming model)
               \<union> (case db (TableName model) of None \<Rightarrow> {} | Some d \<Rightarrow> xName ` set (tIndexes d))))"

definition EventStore_AutoMigrate :: "(gorm_model \<Rightarrow> database \<Rightarrow> string + database) \<Rightarrow> database \<Rightarrow> string + database" where
  "EventStore_AutoMigrate migrate db = migrate EventModel_gorm db"

definition SnapshotStore_AutoMigrate :: "(gorm_model \<Rightarrow> database \<Rightarrow> string + database) \<Rightarrow> database \<Rightarrow> string + database" where
  "SnapshotStore_AutoMigrate migrate db = migrate SnapshotModel_gorm db"

definition APIKeyStore_AutoMigrate :: "(gorm_model \<Rightarrow> database \<Rightarrow> string + database) \<Rightarrow> database \<Rightarrow> string + database" where
  "APIKeyStore_AutoMigrate migrate db = migrate APIKeyModel_gorm db"

section \<open>What each migration provides\<close>

definition version_columns :: "string list" where
  "version_columns = [''aggregate_type'', ''aggregate_id'', ''version'']"

lemma model_columns_ok:
  assumes "naming_ok naming"
  shows "model_columns naming EventModel_gorm =
      [''id'', ''event_id'', ''schema_version'', ''aggregate_type'', ''aggregate_id'', ''event_type'', ''event_data'',
       ''metadata'', ''version'', ''occurred_at'', ''created_at'']"
    and "model_keys naming EventModel_gorm = [[''id''], [''event_id'']]"
    and "model_columns naming SnapshotModel_gorm = [''id'', ''aggregate_type'', ''aggregate_id'', ''version'', ''data'', ''created_at'']"
    and "set (model_keys naming SnapshotModel_gorm) = {[''id''], [''aggregate_type'', ''aggregate_id'']}"
  using assms
  by (simp_all add: naming_ok_def gorm_columns_def model_columns_def model_keys_def tagged_def index_names_def
      EventModel_gorm_def SnapshotModel_gorm_def)

lemma exec_indexes:
  assumes "db t = Some d" and "\<forall>x\<in>set xs. set (xColumns x) \<subseteq> cName ` set (tColumns d)" and "distinct (map xName xs)"
  shows "\<exists>d'. fold_res exec_ddl db (map (CreateIndex t) xs) = Inr (db(t \<mapsto> d')) \<and> tColumns d' = tColumns d
    \<and> set (tIndexes d) \<subseteq> set (tIndexes d')
    \<and> (\<forall>x\<in>set xs. xName x \<notin> xName ` set (tIndexes d) \<longrightarrow> x \<in> set (tIndexes d'))"
  using assms
proof (induction xs arbitrary: db d)
  case Nil
  then show ?case by (intro exI [of _ d]) (auto simp: fun_upd_idem)
next
  case (Cons x xs)
  define d1 where "d1 = (if xName x \<in> xName ` set (tIndexes d) then d else d\<lparr>tIndexes := tIndexes d @ [x]\<rparr>)"
  have step: "exec_ddl db (CreateIndex t x) = Inr (db(t \<mapsto> d1))"
    using Cons.prems(1,2) by (auto simp: d1_def fun_upd_idem)
  have d1: "tColumns d1 = tColumns d" "set (tIndexes d) \<subseteq> set (tIndexes d1)"
    "xName ` set (tIndexes d1) \<subseteq> insert (xName x) (xName ` set (tIndexes d))"
    "xName x \<notin> xName ` set (tIndexes d) \<Longrightarrow> x \<in> set (tIndexes d1)"
    by (auto simp: d1_def)
  have "\<exists>d'. fold_res exec_ddl (db(t \<mapsto> d1)) (map (CreateIndex t) xs) = Inr ((db(t \<mapsto> d1))(t \<mapsto> d')) \<and> tColumns d' = tColumns d1
      \<and> set (tIndexes d1) \<subseteq> set (tIndexes d') \<and> (\<forall>y\<in>set xs. xName y \<notin> xName ` set (tIndexes d1) \<longrightarrow> y \<in> set (tIndexes d'))"
    by (rule Cons.IH) (use Cons.prems(2,3) d1(1) in simp_all)
  then obtain d' where d': "fold_res exec_ddl (db(t \<mapsto> d1)) (map (CreateIndex t) xs) = Inr ((db(t \<mapsto> d1))(t \<mapsto> d'))"
    "tColumns d' = tColumns d1" "set (tIndexes d1) \<subseteq> set (tIndexes d')"
    "\<forall>y\<in>set xs. xName y \<notin> xName ` set (tIndexes d1) \<longrightarrow> y \<in> set (tIndexes d')" by blast
  have "y \<in> set (tIndexes d')" if "y \<in> set xs" "xName y \<notin> xName ` set (tIndexes d)" for y
  proof -
    have "xName y \<noteq> xName x" using that(1) Cons.prems(3) by (auto simp: image_iff)
    then have "xName y \<notin> xName ` set (tIndexes d1)" using that(2) d1(3) by blast
    with d'(4) that(1) show ?thesis by blast
  qed
  moreover have "x \<in> set (tIndexes d')" if "xName x \<notin> xName ` set (tIndexes d)" using that d1(4) d'(3) by blast
  ultimately have "\<forall>y\<in>set (x # xs). xName y \<notin> xName ` set (tIndexes d) \<longrightarrow> y \<in> set (tIndexes d')" by simp
  moreover have "fold_res exec_ddl db (map (CreateIndex t) (x # xs)) = Inr (db(t \<mapsto> d'))"
    unfolding list.map fold_res.simps step sum.case d'(1) fun_upd_upd ..
  moreover have "tColumns d' = tColumns d" "set (tIndexes d) \<subseteq> set (tIndexes d')" using d'(2,3) d1(1,2) by auto
  ultimately show ?case by blast
qed

lemma CreateEventStoreTable_indexes:
  "CreateEventStoreTable = hd CreateEventStoreTable # map (CreateIndex ''event_store'')
     [index_on ''idx_event_store_aggregate'' version_columns, index_on ''idx_event_store_event_type'' [''event_type''],
      index_on ''idx_event_store_created_at'' [''created_at''], uniq_on ''idx_event_store_aggregate_version'' version_columns]"
  by (simp add: CreateEventStoreTable_def version_columns_def)

lemma CreateEventStoreTable_new:
  assumes "db ''event_store'' = None"
  shows "\<exists>db'. exec_sql CreateEventStoreTable db = Inr db' \<and> has_unique db' ''event_store'' version_columns
    \<and> (has_columns db' ''event_store'' cols \<longleftrightarrow> set cols \<subseteq>
        {''id'', ''event_id'', ''aggregate_type'', ''aggregate_id'', ''event_type'', ''event_data'', ''metadata'', ''version'',
         ''occurred_at'', ''created_at''})"
  using assms
  by (simp add: exec_sql_def CreateEventStoreTable_def has_unique_def has_columns_def version_columns_def ddl_defs)

lemma CreateEventStoreTable_again:
  assumes "db ''event_store'' = Some d" and "has_columns db ''event_store'' (version_columns @ [''event_type'', ''created_at''])"
    and "''idx_event_store_aggregate_version'' \<notin> xName ` set (tIndexes d)"
  shows "\<exists>db'. exec_sql CreateEventStoreTable db = Inr db' \<and> has_unique db' ''event_store'' version_columns
    \<and> (\<forall>cols. has_columns db' ''event_store'' cols \<longleftrightarrow> has_columns db ''event_store'' cols)"
proof -
  let ?xs = "[index_on ''idx_event_store_aggregate'' version_columns, index_on ''idx_event_store_event_type'' [''event_type''],
      index_on ''idx_event_store_created_at'' [''created_at''], uniq_on ''idx_event_store_aggregate_version'' version_columns]"
  have c: "\<forall>x\<in>set ?xs. set (xColumns x) \<subseteq> cName ` set (tColumns d)"
    using assms(1,2) by (auto simp: has_columns_def ddl_defs)
  have n: "distinct (map xName ?xs)" by (simp add: ddl_defs)
  obtain d' where d': "fold_res exec_ddl db (map (CreateIndex ''event_store'') ?xs) = Inr (db(''event_store'' \<mapsto> d'))"
    "tColumns d' = tColumns d" "\<forall>x\<in>set ?xs. xName x \<notin> xName ` set (tIndexes d) \<longrightarrow> x \<in> set (tIndexes d')"
    using exec_indexes [of db "''event_store''", OF assms(1) c n] by blast
  have "exec_ddl db (hd CreateEventStoreTable) = Inr db" using assms(1) by (simp add: CreateEventStoreTable_def)
  with d'(1) have "exec_sql CreateEventStoreTable db = Inr (db(''event_store'' \<mapsto> d'))"
    unfolding exec_sql_def by (subst CreateEventStoreTable_indexes) (simp only: fold_res.simps sum.case)
  moreover have "uniq_on ''idx_event_store_aggregate_version'' version_columns \<in> set (tIndexes d')"
    using d'(3) assms(3) by (simp add: ddl_defs)
  then have "has_unique (db(''event_store'' \<mapsto> d')) ''event_store'' version_columns"
    by (auto simp: has_unique_def list_ex_iff ddl_defs intro: rev_bexI)
  ultimately show ?thesis using assms(1) d'(2) by (intro exI [of _ "db(''event_store'' \<mapsto> d')"]) (simp add: has_columns_def)
qed

section \<open>Appending to a migrated table\<close>

definition Append_on ::
  "(string \<Rightarrow> string) \<Rightarrow> database \<Rightarrow> string option \<Rightarrow> string option \<Rightarrow> (DomainEvent \<Rightarrow> Time) \<Rightarrow> DomainEvent list \<Rightarrow> int \<Rightarrow> etable
     \<Rightarrow> store_error option \<times> etable" where
  \<comment> \<open>\<open>Append\<close> on the table a database has: its inserts name every column of the model\<close>
  "Append_on naming db fault1 fault2 now events expectedVersion tbl =
     Append (has_unique db ''event_store'' version_columns) fault1
       (if has_columns db ''event_store'' (model_columns naming EventModel_gorm) then fault2
        else Some ''column does not exist'') now events expectedVersion tbl"

definition serves_appends :: "(string \<Rightarrow> string) \<Rightarrow> database \<Rightarrow> bool" where
  "serves_appends naming db \<longleftrightarrow>
     has_columns db ''event_store'' (model_columns naming EventModel_gorm) \<and> has_unique db ''event_store'' version_columns"

lemma Append_failing: "events \<noteq> [] \<Longrightarrow> fst (Append u f1 (Some err) now events v tbl) \<noteq> None \<and> snd (Append u f1 (Some err) now events v tbl) = tbl"
  by (cases events) (auto simp: Append_def split: option.splits sum.splits)

lemma automigrate_event_store:
  assumes "automigrates naming migrate"
  obtains db' where "EventStore_AutoMigrate migrate db = Inr db'"
    and "\<And>cols. has_columns db' ''event_store'' cols \<longleftrightarrow> set cols \<subseteq> set (model_columns naming EventModel_gorm)
           \<union> (case db ''event_store'' of None \<Rightarrow> {} | Some d \<Rightarrow> cName ` set (tColumns d))"
    and "\<And>cols. has_unique db' ''event_store'' cols \<longleftrightarrow>
           set cols \<in> {{''id''}, {''event_id''}} \<or> has_unique db ''event_store'' cols"
    and "\<And>d'. db' ''event_store'' = Some d' \<Longrightarrow> xName ` set (tIndexes d') \<subseteq> set (model_index_names naming EventModel_gorm)
           \<union> (case db ''event_store'' of None \<Rightarrow> {} | Some d \<Rightarrow> xName ` set (tIndexes d))"
proof -
  have t: "TableName EventModel_gorm = ''event_store''" by (simp add: EventModel_gorm_def)
  have n: "naming_ok naming" using assms by (simp add: automigrates_def)
  from assms obtain db' where "migrate EventModel_gorm db = Inr db'"
    and "\<forall>cols. has_columns db' ''event_store'' cols \<longleftrightarrow> set cols \<subseteq> set (model_columns naming EventModel_gorm)
           \<union> (case db ''event_store'' of None \<Rightarrow> {} | Some d \<Rightarrow> cName ` set (tColumns d))"
    and "\<forall>cols. has_unique db' ''event_store'' cols \<longleftrightarrow>
           set cols \<in> set ` set (model_keys naming EventModel_gorm) \<or> has_unique db ''event_store'' cols"
    and "\<forall>d'. db' ''event_store'' = Some d' \<longrightarrow> xName ` set (tIndexes d') \<subseteq> set (model_index_names naming EventModel_gorm)
           \<union> (case db ''event_store'' of None \<Rightarrow> {} | Some d \<Rightarrow> xName ` set (tIndexes d))"
    unfolding automigrates_def t [symmetric] by blast
  then show thesis
    by (intro that [of db']) (simp_all add: EventStore_AutoMigrate_def model_columns_ok(2) [OF n])
qed

lemma model_index_names_event_store:
  assumes "naming_ok naming"
  shows "''idx_event_store_aggregate_version'' \<notin> set (model_index_names naming EventModel_gorm)"
  unfolding model_index_names_def model_columns_ok(1) [OF assms] by (simp add: EventModel_gorm_def)

text \<open>
  C8. What a migration must provide for appends: on the table \<open>CreateEventStoreTable\<close> makes alone, every
  append of an event fails, because the inserts name the column schema_version, which that table lacks;
  on the table \<open>AutoMigrate\<close> makes alone, appends work, but two writers can store the same version of an
  aggregate, because there is no unique index on it; with both, in either order, appends work and no
  interleaving of them stores a version twice.
\<close>
theorem event_store_migrations:
  assumes "automigrates naming migrate" and "db ''event_store'' = None"
  shows "\<exists>created migrated both1 both2.
      exec_sql CreateEventStoreTable db = Inr created \<and> EventStore_AutoMigrate migrate db = Inr migrated
    \<and> EventStore_AutoMigrate migrate created = Inr both1 \<and> exec_sql CreateEventStoreTable migrated = Inr both2
    \<and> (\<forall>f1 f2 now es v tbl. es \<noteq> [] \<longrightarrow>
         fst (Append_on naming created f1 f2 now es v tbl) \<noteq> None \<and> snd (Append_on naming created f1 f2 now es v tbl) = tbl)
    \<and> Append_on naming migrated = Append False
    \<and> (\<exists>s. es_reachable False s \<and> \<not> distinct (map version_key (committed s)))
    \<and> Append_on naming both1 = Append True \<and> Append_on naming both2 = Append True
    \<and> (\<forall>s. es_reachable True s \<longrightarrow> distinct (map version_key (committed s)))"
proof -
  have n: "naming_ok naming" using assms(1) by (simp add: automigrates_def)
  note cols = model_columns_ok(1) [OF n]
  have serves: "Append_on naming d = Append True" if "serves_appends naming d" for d
    using that by (intro ext) (simp add: Append_on_def serves_appends_def)
  obtain created where c: "exec_sql CreateEventStoreTable db = Inr created" "has_unique created ''event_store'' version_columns"
    "\<not> has_columns created ''event_store'' (model_columns naming EventModel_gorm)"
    using CreateEventStoreTable_new [of db "model_columns naming EventModel_gorm", OF assms(2)] unfolding cols by auto
  obtain migrated where m: "EventStore_AutoMigrate migrate db = Inr migrated"
    "\<And>cs. has_columns migrated ''event_store'' cs \<longleftrightarrow> set cs \<subseteq> set (model_columns naming EventModel_gorm)"
    "\<not> has_unique migrated ''event_store'' version_columns"
    "\<And>d. migrated ''event_store'' = Some d \<Longrightarrow> xName ` set (tIndexes d) \<subseteq> set (model_index_names naming EventModel_gorm)"
    by (rule automigrate_event_store [OF assms(1), of db])
      (use assms(2) in \<open>auto simp: has_unique_def version_columns_def\<close>)
  obtain both1 where b1: "EventStore_AutoMigrate migrate created = Inr both1" "serves_appends naming both1"
    by (rule automigrate_event_store [OF assms(1), of created]) (use c(2) in \<open>auto simp: serves_appends_def\<close>)
  have full: "has_columns migrated ''event_store'' (model_columns naming EventModel_gorm)"
    "has_columns migrated ''event_store'' (version_columns @ [''event_type'', ''created_at''])"
    unfolding m(2) by (simp_all add: cols version_columns_def)
  then obtain d where d: "migrated ''event_store'' = Some d" by (auto simp: has_columns_def split: option.splits)
  have "''idx_event_store_aggregate_version'' \<notin> xName ` set (tIndexes d)"
    using m(4) [OF d] model_index_names_event_store [OF n] by blast
  then obtain both2 where b2: "exec_sql CreateEventStoreTable migrated = Inr both2" "serves_appends naming both2"
    using CreateEventStoreTable_again [OF d full(2)] full(1) by (auto simp: serves_appends_def)
  have fails: "fst (Append_on naming created f1 f2 now es v tbl) \<noteq> None \<and> snd (Append_on naming created f1 f2 now es v tbl) = tbl"
    if "es \<noteq> []" for f1 f2 now es v tbl
    unfolding Append_on_def using c(3) Append_failing [OF that] by simp
  then have fails_all: "\<forall>f1 f2 now es v tbl. es \<noteq> [] \<longrightarrow>
      fst (Append_on naming created f1 f2 now es v tbl) \<noteq> None \<and> snd (Append_on naming created f1 f2 now es v tbl) = tbl" by blast
  have plain: "Append_on naming migrated = Append False"
    using full(1) m(3) by (intro ext) (simp add: Append_on_def)
  have unique: "\<forall>s. es_reachable True s \<longrightarrow> distinct (map version_key (committed s))" using es_reachable_key by blast
  show ?thesis
    by (rule exI [of _ created], rule exI [of _ migrated], rule exI [of _ both1], rule exI [of _ both2],
        intro conjI c(1) m(1) b1(1) b2(1) fails_all plain event_versions_duplicate serves [OF b1(2)] serves [OF b2(2)] unique)
qed

fun snake :: "bool \<Rightarrow> string \<Rightarrow> string" where
  \<comment> \<open>gorm's naming on the fields at hand: an underscore before a capital that follows a small letter\<close>
  "snake small [] = []"
| "snake small (c # cs) =
     (let capital = (lower c \<noteq> c)
      in (if small \<and> capital then [CHR ''_''] else []) @ [lower c] @ snake (\<not> capital) cs)"

definition sample_migrate :: "gorm_model \<Rightarrow> database \<Rightarrow> string + database" where
  "sample_migrate model db =
     (let d = (case db (TableName model) of None \<Rightarrow> \<lparr>tColumns = [], tIndexes = []\<rparr> | Some d \<Rightarrow> d)
      in Inr (db(TableName model \<mapsto>
           \<lparr>tColumns = tColumns d @ map (\<lambda>c. nullable c '''') (model_columns (snake False) model),
            tIndexes = tIndexes d @ map (uniq_on (TableName model @ ''_pkey'')) (model_keys (snake False) model)\<rparr>)))"

lemma sample_naming_ok: "naming_ok (snake False)"
  by code_simp

lemma sample_migrate_ok: "automigrates (snake False) sample_migrate"
proof -
  have e: "list_ex P (map f xs) \<longleftrightarrow> (\<exists>x\<in>set xs. P (f x))" for P f xs by (auto simp: list_ex_iff)
  have "has_columns (db(t \<mapsto> \<lparr>tColumns = cs @ map (\<lambda>c. nullable c '''') ns, tIndexes = xs\<rparr>)) t cols \<longleftrightarrow> set cols \<subseteq> set ns \<union> cName ` set cs"
    for db t cs ns xs cols by (simp add: has_columns_def nullable_def image_Un image_image Un_commute)
  moreover have "has_unique (db(t \<mapsto> \<lparr>tColumns = cs, tIndexes = xs @ map (uniq_on n) ks\<rparr>)) t cols \<longleftrightarrow>
      set cols \<in> set ` set ks \<or> list_ex (\<lambda>x. xUnique x \<and> set (xColumns x) = set cols) xs" for db t cs xs n ks cols
    unfolding has_unique_def fun_upd_same option.case tdef.simps list_ex_append e by (auto simp: uniq_on_def)
  moreover have "xName ` set (map (uniq_on n) ks) \<subseteq> {n}" for n ks by (auto simp: uniq_on_def)
  ultimately show ?thesis
    by (auto simp: automigrates_def sample_naming_ok sample_migrate_def Let_def model_index_names_def has_unique_def
        uniq_on_def split: option.splits)
qed

theorem event_store_migrations_witness:
  "\<exists>created. exec_sql CreateEventStoreTable Map.empty = Inr created
     \<and> fst (Append_on (snake False) created None None (\<lambda>_. Time 2) [sample_created ''a''] 0 []) \<noteq> None"
  using event_store_migrations [OF sample_migrate_ok, of Map.empty] by blast

text \<open>
  The SQL for the other tables keeps every promise of the row types: run on an empty database, each
  table has all the columns its model writes and every unique key its tags declare, the pair of event
  and consumer for claims, the aggregate for snapshots, id and hash for API keys.
\<close>
theorem migrations_keep_tags:
  assumes "naming_ok naming"
  shows "\<exists>db. exec_sql (CreateSnapshotStoreTable @ CreateAPIKeyTable @ events_init @ outbox_init) Map.empty = Inr db
    \<and> list_all (\<lambda>m. has_columns db (TableName m) (model_columns naming m)
        \<and> list_all (has_unique db (TableName m)) (model_keys naming m))
      [SnapshotModel_gorm, APIKeyModel_gorm, ProcessedEvent_gorm, FailedEvent_gorm, OutboxEvent_gorm]"
  using assms
  by (simp add: exec_sql_def CreateSnapshotStoreTable_def CreateAPIKeyTable_def events_init_def outbox_init_def ddl_defs
      SnapshotModel_gorm_def APIKeyModel_gorm_def ProcessedEvent_gorm_def FailedEvent_gorm_def OutboxEvent_gorm_def
      has_columns_def has_unique_def model_columns_def model_keys_def tagged_def index_names_def naming_ok_def gorm_columns_def)

theorem migrations_keep_tags_witness:
  "\<exists>db. exec_sql (CreateSnapshotStoreTable @ CreateAPIKeyTable @ events_init @ outbox_init) Map.empty = Inr db
    \<and> has_unique db ''events.processed'' [''event_id'', ''consumer_name'']"
proof -
  have "model_keys (snake False) ProcessedEvent_gorm = [[''event_id'', ''consumer_name'']]"
    "TableName ProcessedEvent_gorm = ''events.processed''" by code_simp+
  then show ?thesis using migrations_keep_tags [OF sample_naming_ok] by auto
qed

end
