(* ===== verification/GoCrypto.thy ===== *)
theory GoCrypto
  imports GoStrings
begin

unbundle bit_operations_syntax

text \<open>
  What \<open>auth/\<close> uses of the standard library's cryptography: \<open>crypto/sha256\<close> (\<open>Sum256\<close>, on words of 32 bits
  as the package computes it), \<open>crypto/subtle\<close> (\<open>ConstantTimeCompare\<close>) and \<open>encoding/hex\<close>. The constants of
  the hash are the first 32 bits of the fractions of the square roots of the first 8 primes
  (\<open>initial_hash\<close>) and of the cube roots of the first 64 (\<open>round_constants\<close>).
\<close>

definition bytes_of :: "string \<Rightarrow> 8 word list" where
  \<comment> \<open>the conversion \<open>[]byte(s)\<close>\<close>
  "bytes_of s = map (\<lambda>c. of_nat (of_char c)) s"

lemma bytes_of_inj: "bytes_of s = bytes_of t \<longleftrightarrow> s = t"
proof -
  have "inj (\<lambda>c. of_nat (of_char c) :: 8 word)"
  proof (rule injI)
    fix c d :: char
    assume "(of_nat (of_char c) :: 8 word) = of_nat (of_char d)"
    then have "(of_char c :: nat) mod 256 = of_char d mod 256" by (simp add: unsigned_of_nat word_of_nat_eq_iff take_bit_eq_mod)
    then have "(of_char c :: nat) = of_char d" using nat_of_char_less_256 [of c] nat_of_char_less_256 [of d] by simp
    then show "c = d" by simp
  qed
  then show ?thesis by (simp add: bytes_of_def inj_map_eq_map)
qed

section \<open>Hexadecimal digits\<close>

definition hex_digit :: "nat \<Rightarrow> char" where
  "hex_digit d = ''0123456789abcdef'' ! d"

definition EncodeToString :: "8 word list \<Rightarrow> string" where
  \<comment> \<open>\<open>hex.EncodeToString\<close>\<close>
  "EncodeToString bs = concat (map (\<lambda>b. [hex_digit (unat b div 16), hex_digit (unat b mod 16)]) bs)"

lemma hex_digit_inj: "i < 16 \<Longrightarrow> j < 16 \<Longrightarrow> hex_digit i = hex_digit j \<longleftrightarrow> i = j"
  unfolding hex_digit_def by (subst nth_eq_iff_index_eq) simp_all

lemma EncodeToString_simps [simp]:
  "EncodeToString [] = []"
  "EncodeToString (b # bs) = hex_digit (unat b div 16) # hex_digit (unat b mod 16) # EncodeToString bs"
  by (simp_all add: EncodeToString_def)

lemma EncodeToString_length [simp]: "length (EncodeToString bs) = 2 * length bs"
  by (induction bs) simp_all

lemma nibble_less: "unat (b :: 8 word) div 16 < 16"
  using unsigned_less [of b, where ?'a = nat] by simp

lemma EncodeToString_inj: "EncodeToString xs = EncodeToString ys \<longleftrightarrow> xs = ys"
proof (induction xs ys rule: list_induct2')
  case (4 x xs y ys)
  have "x = y" if "unat x div 16 = unat y div 16" "unat x mod 16 = unat y mod 16"
    using that by (metis div_mult_mod_eq unsigned_word_eqI)
  then show ?case using "4.IH" by (auto simp: hex_digit_inj nibble_less)
qed simp_all

section \<open>SHA-256\<close>

type_synonym hash_state = "32 word \<times> 32 word \<times> 32 word \<times> 32 word \<times> 32 word \<times> 32 word \<times> 32 word \<times> 32 word"

definition initial_hash :: hash_state where
  "initial_hash =
     (1779033703, 3144134277, 1013904242, 2773480762, 1359893119, 2600822924,
      528734635, 1541459225)"

definition round_constants :: "32 word list" where
  "round_constants =
     [1116352408, 1899447441, 3049323471, 3921009573, 961987163, 1508970993, 2453635748, 2870763221,
      3624381080, 310598401, 607225278, 1426881987, 1925078388, 2162078206, 2614888103, 3248222580,
      3835390401, 4022224774, 264347078, 604807628, 770255983, 1249150122, 1555081692, 1996064986,
      2554220882, 2821834349, 2952996808, 3210313671, 3336571891, 3584528711, 113926993, 338241895,
      666307205, 773529912, 1294757372, 1396182291, 1695183700, 1986661051, 2177026350, 2456956037,
      2730485921, 2820302411, 3259730800, 3345764771, 3516065817, 3600352804, 4094571909, 275423344,
      430227734, 506948616, 659060556, 883997877, 958139571, 1322822218, 1537002063, 1747873779,
      1955562222, 2024104815, 2227730452, 2361852424, 2428436474, 2756734187, 3204031479, 3329325298]"

definition rotr :: "nat \<Rightarrow> 32 word \<Rightarrow> 32 word" where
  \<comment> \<open>\<open>bits.RotateLeft32(x, -k)\<close>\<close>
  "rotr k x = drop_bit k x OR push_bit (32 - k) x"

fun schedule :: "nat \<Rightarrow> 32 word list \<Rightarrow> 32 word list" where
  \<comment> \<open>\<open>n\<close> more words of the message schedule; the newest word is first\<close>
  "schedule 0 w = w"
| "schedule (Suc n) w =
     (let v1 = w ! 1; t1 = rotr 17 v1 XOR rotr 19 v1 XOR drop_bit 10 v1;
          v2 = w ! 14; t2 = rotr 7 v2 XOR rotr 18 v2 XOR drop_bit 3 v2
      in schedule n ((t1 + w ! 6 + t2 + w ! 15) # w))"

fun sha_round :: "32 word \<times> 32 word \<Rightarrow> hash_state \<Rightarrow> hash_state" where
  "sha_round (k, w) (a, b, c, d, e, f, g, h) =
     (let t1 = h + (rotr 6 e XOR rotr 11 e XOR rotr 25 e) + ((e AND f) XOR (NOT e AND g)) + k + w;
          t2 = (rotr 2 a XOR rotr 13 a XOR rotr 22 a) + ((a AND b) XOR (a AND c) XOR (b AND c))
      in (t1 + t2, a, b, c, d + t1, e, f, g))"

fun add_state :: "hash_state \<Rightarrow> hash_state \<Rightarrow> hash_state" where
  "add_state (a, b, c, d, e, f, g, h) (a', b', c', d', e', f', g', h') =
     (a + a', b + b', c + c', d + d', e + e', f + f', g + g', h + h')"

fun be_words :: "8 word list \<Rightarrow> 32 word list" where
  "be_words (a # b # c # d # bs) =
     (push_bit 24 (ucast a) OR push_bit 16 (ucast b) OR push_bit 8 (ucast c) OR ucast d) # be_words bs"
| "be_words bs = []"

definition sha_block :: "hash_state \<Rightarrow> 8 word list \<Rightarrow> hash_state" where
  \<comment> \<open>one block of 64 bytes\<close>
  "sha_block s p = add_state s (fold sha_round (zip round_constants (rev (schedule 48 (rev (be_words p))))) s)"

fun blocks :: "8 word list \<Rightarrow> 8 word list list" where
  "blocks p = (if length p < 64 then [] else take 64 p # blocks (drop 64 p))"

declare blocks.simps [simp del]

definition be_bytes :: "nat \<Rightarrow> 'a::len word \<Rightarrow> 8 word list" where
  \<comment> \<open>the lowest \<open>n\<close> bytes, most significant first\<close>
  "be_bytes n x = map (\<lambda>i. ucast (drop_bit (8 * i) x)) (rev [0..<n])"

definition sha_padding :: "nat \<Rightarrow> 8 word list" where
  \<comment> \<open>\<open>checkSum\<close>: 0x80, zeros up to 56 bytes modulo 64, the length in bits\<close>
  "sha_padding len =
     0x80 # replicate (if len mod 64 < 56 then 55 - len mod 64 else 119 - len mod 64) 0
       @ be_bytes 8 (push_bit 3 (of_nat len) :: 64 word)"

fun state_bytes :: "hash_state \<Rightarrow> 8 word list" where
  "state_bytes (a, b, c, d, e, f, g, h) = concat (map (be_bytes 4) [a, b, c, d, e, f, g, h])"

definition Sum256 :: "8 word list \<Rightarrow> 8 word list" where
  "Sum256 data = state_bytes (foldl sha_block initial_hash (blocks (data @ sha_padding (length data))))"

lemma Sum256_length: "length (Sum256 data) = 32"
proof -
  have "length (state_bytes s) = 32" for s by (cases s rule: state_bytes.cases) (simp add: be_bytes_def)
  then show ?thesis by (simp add: Sum256_def)
qed

section \<open>Comparison in constant time\<close>

definition ConstantTimeByteEq :: "8 word \<Rightarrow> 8 word \<Rightarrow> int" where
  "ConstantTimeByteEq x y = uint (drop_bit 31 ((ucast (x XOR y) :: 32 word) - 1))"

definition ConstantTimeCompare :: "8 word list \<Rightarrow> 8 word list \<Rightarrow> int" where
  "ConstantTimeCompare x y =
     (if length x \<noteq> length y then 0
      else ConstantTimeByteEq (fold (\<lambda>(a, b) v. v OR (a XOR b)) (zip x y) 0) 0)"

lemma ConstantTimeByteEq_0: "ConstantTimeByteEq v 0 = (if v = 0 then 1 else 0)"
proof (cases "v = 0")
  case False
  have "uint v < 256" using uint_lt2p [of v] by simp
  moreover have "0 < uint v" using False by (metis le_neq_trans unsigned_eq_0_iff unsigned_greater_eq)
  moreover have "uint ((ucast v :: 32 word) - 1) = uint v - 1"
    using calculation by (simp add: uint_word_ariths unsigned_ucast_eq take_bit_eq_mod mod_pos_pos_trivial)
  ultimately show ?thesis
    using False by (simp add: ConstantTimeByteEq_def drop_bit_eq_div uint_div)
qed (simp add: ConstantTimeByteEq_def)

lemma xor_byte_0: "a XOR b = (0 :: 8 word) \<longleftrightarrow> a = b"
  by (auto simp: bit_eq_iff bit_xor_iff)

lemma fold_difference:
  "fold (\<lambda>(a, b) v. v OR (a XOR b)) ps v = (0 :: 8 word) \<longleftrightarrow> v = 0 \<and> (\<forall>(a, b) \<in> set ps. a = b)"
  by (induction ps arbitrary: v) (auto simp: or_eq_0_iff xor_byte_0)

lemma ConstantTimeCompare_iff: "ConstantTimeCompare x y = 1 \<longleftrightarrow> x = y"
  by (auto simp: ConstantTimeCompare_def ConstantTimeByteEq_0 fold_difference list_eq_iff_zip_eq)

lemma compare_strings [simp]: "ConstantTimeCompare (bytes_of s) (bytes_of t) = 1 \<longleftrightarrow> s = t"
  by (simp add: ConstantTimeCompare_iff bytes_of_inj)

end
