(* ===== verification/ApiKeys.thy ===== *)
theory ApiKeys
  imports GoCrypto
begin

text \<open>
  \<open>auth/apikey.go\<close>, \<open>auth/apikey_store.go\<close> and \<open>auth/apikey_middleware.go\<close>: generation and
  validation of API keys, their scopes, the key table, the cache in front of it and the gin
  middleware that uses both. Random bytes, clock readings, the hash of a raw key
  (\<open>H\<close>, which theory \<open>KeyHash\<close> instantiates with \<open>hashAPIKey\<close>) and what the database makes of an inserted row (\<open>stored\<close>) are arguments.
  Service names, scopes and tokens are ASCII or split at ASCII characters only.
\<close>

section \<open>Keys\<close>

datatype key_error =
    ErrInvalidAPIKey
  | ErrExpiredAPIKey
  | ErrAPIKeyNotFound
  | KeyDb string

record APIKey =
  kID :: string
  kName :: string
  kKeyHash :: string
  kKeyPrefix :: string
  kServiceName :: string
  kScopes :: "string list"
  kRateLimit :: int
  kExpiresAt :: Time
  kCreatedAt :: Time
  kLastUsedAt :: Time
  kIsActive :: bool

definition go_slice_to :: "string \<Rightarrow> nat \<Rightarrow> string go" where
  \<comment> \<open>\<open>s[:n]\<close>\<close>
  "go_slice_to s n = (if n \<le> length s then Ret (take n s) else Panic ''slice bounds out of range'')"

definition GenerateAPIKey ::
  "(string \<Rightarrow> string) \<Rightarrow> string + 8 word list \<Rightarrow> string \<Rightarrow> Time \<Rightarrow> Time \<Rightarrow> string \<Rightarrow> string
     \<Rightarrow> string list \<Rightarrow> Duration \<Rightarrow> (string + string \<times> APIKey) go" where
  \<comment> \<open>\<open>random\<close> is the outcome of \<open>rand.Read\<close> on 32 bytes, \<open>keyID\<close> the result of \<open>generateKeyID\<close>\<close>
  "GenerateAPIKey H random keyID now1 now2 name serviceName scopes expiresIn =
     (case random of
        Inl err \<Rightarrow> Ret (Inl err)
      | Inr rawBytes \<Rightarrow>
          (case go_slice_to (ToLower serviceName) 3 of
             Panic p \<Rightarrow> Panic p
           | Ret svcPrefix \<Rightarrow>
               (let rawKey = ''klng'' @ ''_'' @ svcPrefix @ ''_'' @ EncodeToString rawBytes;
                    expiresAt = (if 0 < expiresIn then AddT now1 expiresIn else zeroTime)
                in case go_slice_to rawKey 12 of
                     Panic p \<Rightarrow> Panic p
                   | Ret keyPrefix \<Rightarrow>
                       Ret (Inr (rawKey,
                         \<lparr>kID = keyID, kName = name, kKeyHash = H rawKey, kKeyPrefix = keyPrefix,
                          kServiceName = serviceName, kScopes = scopes, kRateLimit = 1000,
                          kExpiresAt = expiresAt, kCreatedAt = now2, kLastUsedAt = zeroTime,
                          kIsActive = True\<rparr>)))))"

definition ValidateAPIKey :: "(string \<Rightarrow> string) \<Rightarrow> Time \<Rightarrow> string \<Rightarrow> APIKey option \<Rightarrow> key_error option" where
  "ValidateAPIKey H now rawKey storedKey =
     (case storedKey of
        None \<Rightarrow> Some ErrAPIKeyNotFound
      | Some k \<Rightarrow>
          if \<not> kIsActive k then Some ErrInvalidAPIKey
          else if \<not> IsZero (kExpiresAt k) \<and> kExpiresAt k < now then Some ErrExpiredAPIKey
          else if ConstantTimeCompare (bytes_of (H rawKey)) (bytes_of (kKeyHash k)) \<noteq> 1 then Some ErrInvalidAPIKey
          else None)"

fun has_scope_loop :: "string \<Rightarrow> string list \<Rightarrow> bool" where
  "has_scope_loop requiredScope [] = False"
| "has_scope_loop requiredScope (scope # rest) =
     (if scope = requiredScope \<or> scope = ''*'' then True
      else if HasSuffix scope '':*'' \<and> HasPrefix requiredScope (TrimSuffix scope ''*'') then True
      else has_scope_loop requiredScope rest)"

definition HasScope :: "APIKey \<Rightarrow> string \<Rightarrow> bool" where
  "HasScope k requiredScope = has_scope_loop requiredScope (kScopes k)"

fun HasAnyScope :: "APIKey \<Rightarrow> string list \<Rightarrow> bool" where
  "HasAnyScope k [] = False"
| "HasAnyScope k (scope # rest) = (if HasScope k scope then True else HasAnyScope k rest)"

definition ScopeAll :: string where
  "ScopeAll = ''*''"
definition ScopeInventoryRead :: string where
  "ScopeInventoryRead = ''inventory:read''"
definition ScopeInventoryWrite :: string where
  "ScopeInventoryWrite = ''inventory:write''"
definition ScopeOrderRead :: string where
  "ScopeOrderRead = ''order:read''"
definition ScopeOrderWrite :: string where
  "ScopeOrderWrite = ''order:write''"
definition ScopeAgentRead :: string where
  "ScopeAgentRead = ''agent:read''"
definition ScopeAgentWrite :: string where
  "ScopeAgentWrite = ''agent:write''"
definition ScopeAdminAll :: string where
  "ScopeAdminAll = ''admin:*''"

definition PredefinedScopes :: "string \<rightharpoonup> string list" where
  "PredefinedScopes =
     [''inventory-service'' \<mapsto> [ScopeInventoryRead, ScopeInventoryWrite, ScopeOrderRead],
      ''order-service'' \<mapsto> [ScopeOrderRead, ScopeOrderWrite, ScopeInventoryRead],
      ''agent-service'' \<mapsto> [ScopeAgentRead, ScopeAgentWrite, ScopeOrderRead],
      ''admin-service'' \<mapsto> [ScopeAdminAll],
      ''readonly'' \<mapsto> [ScopeInventoryRead, ScopeOrderRead, ScopeAgentRead]]"

section \<open>The key table\<close>

record APIKeyModel =
  mKeyID :: string
  mName :: string
  mKeyHash :: string
  mKeyPrefix :: string
  mServiceName :: string
  mScopes :: string
  mRateLimit :: int
  mExpiresAt :: "Time option"
  mCreatedAt :: Time
  mLastUsedAt :: "Time option"
  mIsActive :: bool

type_synonym ktable = "APIKeyModel list"
  \<comment> \<open>in the order of the primary key\<close>

fun join_loop :: "nat \<Rightarrow> string \<Rightarrow> string list \<Rightarrow> string" where
  "join_loop i result [] = result"
| "join_loop i result (s # scopes) =
     (let result = (if 0 < i then result @ '','' else result) in join_loop (i + 1) (result @ s) scopes)"

definition joinScopes :: "string list \<Rightarrow> string" where
  "joinScopes scopes = join_loop 0 '''' scopes"

fun split_loop :: "string list \<Rightarrow> string \<Rightarrow> string \<Rightarrow> string list" where
  "split_loop scopes current [] = (if current \<noteq> '''' then scopes @ [current] else scopes)"
| "split_loop scopes current (c # cs) =
     (if c = CHR '',''
      then split_loop (if current \<noteq> '''' then scopes @ [current] else scopes) '''' cs
      else split_loop scopes (current @ [c]) cs)"

definition splitScopes :: "string \<Rightarrow> string list" where
  "splitScopes s = (if s = '''' then [] else split_loop [] '''' s)"

definition modelToAPIKey :: "APIKeyModel \<Rightarrow> APIKey" where
  "modelToAPIKey m =
     \<lparr>kID = mKeyID m, kName = mName m, kKeyHash = mKeyHash m, kKeyPrefix = mKeyPrefix m,
      kServiceName = mServiceName m, kScopes = splitScopes (mScopes m), kRateLimit = mRateLimit m,
      kExpiresAt = (case mExpiresAt m of None \<Rightarrow> zeroTime | Some t \<Rightarrow> t), kCreatedAt = mCreatedAt m,
      kLastUsedAt = (case mLastUsedAt m of None \<Rightarrow> zeroTime | Some t \<Rightarrow> t), kIsActive = mIsActive m\<rparr>"

definition key_model :: "APIKey \<Rightarrow> APIKeyModel" where
  \<comment> \<open>the row \<open>Create\<close> hands to gorm\<close>
  "key_model key =
     \<lparr>mKeyID = kID key, mName = kName key, mKeyHash = kKeyHash key, mKeyPrefix = kKeyPrefix key,
      mServiceName = kServiceName key, mScopes = joinScopes (kScopes key), mRateLimit = kRateLimit key,
      mExpiresAt = (if IsZero (kExpiresAt key) then None else Some (kExpiresAt key)),
      mCreatedAt = kCreatedAt key, mLastUsedAt = None, mIsActive = kIsActive key\<rparr>"

definition Key_Create ::
  "string option \<Rightarrow> (APIKeyModel \<Rightarrow> APIKeyModel) \<Rightarrow> APIKey \<Rightarrow> ktable \<Rightarrow> key_error option \<times> ktable" where
  \<comment> \<open>\<open>key_id\<close> and \<open>key_hash\<close> are unique columns\<close>
  "Key_Create fault stored key tbl =
     (let m = key_model key
      in case fault of
           Some err \<Rightarrow> (Some (KeyDb err), tbl)
         | None \<Rightarrow>
             if mKeyID m \<in> mKeyID ` set tbl \<or> mKeyHash m \<in> mKeyHash ` set tbl
             then (Some (KeyDb ''duplicate key value violates unique constraint''), tbl)
             else (None, tbl @ [stored m]))"

definition First :: "string option \<Rightarrow> (APIKeyModel \<Rightarrow> bool) \<Rightarrow> ktable \<Rightarrow> key_error + APIKey" where
  "First fault P tbl =
     (case fault of
        Some err \<Rightarrow> Inl (KeyDb err)
      | None \<Rightarrow> (case find P tbl of None \<Rightarrow> Inl ErrAPIKeyNotFound | Some m \<Rightarrow> Inr (modelToAPIKey m)))"

definition GetByID :: "string option \<Rightarrow> string \<Rightarrow> ktable \<Rightarrow> key_error + APIKey" where
  "GetByID fault i tbl = First fault (\<lambda>m. mKeyID m = i) tbl"

definition GetByHash :: "string option \<Rightarrow> string \<Rightarrow> ktable \<Rightarrow> key_error + APIKey" where
  "GetByHash fault h tbl = First fault (\<lambda>m. mKeyHash m = h \<and> mIsActive m) tbl"

definition Updates ::
  "string option \<Rightarrow> string \<Rightarrow> (APIKeyModel \<Rightarrow> APIKeyModel) \<Rightarrow> ktable \<Rightarrow> key_error option \<times> ktable" where
  \<comment> \<open>\<open>Where("key_id = ?", id).Updates\<close>\<close>
  "Updates fault i f tbl =
     (case fault of
        Some err \<Rightarrow> (Some (KeyDb err), tbl)
      | None \<Rightarrow> (None, map (\<lambda>m. if mKeyID m = i then f m else m) tbl))"

definition Key_Update :: "string option \<Rightarrow> APIKey \<Rightarrow> ktable \<Rightarrow> key_error option \<times> ktable" where
  "Key_Update fault key =
     Updates fault (kID key) (\<lambda>m. m\<lparr>mName := kName key, mScopes := joinScopes (kScopes key),
                                    mRateLimit := kRateLimit key, mIsActive := kIsActive key\<rparr>)"

definition Key_Delete :: "string option \<Rightarrow> string \<Rightarrow> ktable \<Rightarrow> key_error option \<times> ktable" where
  "Key_Delete fault i = Updates fault i (\<lambda>m. m\<lparr>mIsActive := False\<rparr>)"

definition ListByService :: "string option \<Rightarrow> string \<Rightarrow> ktable \<Rightarrow> key_error + APIKey list" where
  "ListByService fault service tbl =
     (case fault of
        Some err \<Rightarrow> Inl (KeyDb err)
      | None \<Rightarrow> Inr (map modelToAPIKey (filter (\<lambda>m. mServiceName m = service \<and> mIsActive m) tbl)))"

definition UpdateLastUsed :: "string option \<Rightarrow> Time \<Rightarrow> string \<Rightarrow> ktable \<Rightarrow> key_error option \<times> ktable" where
  "UpdateLastUsed fault now i = Updates fault i (\<lambda>m. m\<lparr>mLastUsedAt := Some now\<rparr>)"

section \<open>Cache and middleware\<close>

record cacheEntry =
  ckey :: APIKey
  expiresAt :: Time

record APIKeyCache =
  cmap :: "string \<rightharpoonup> cacheEntry"
  ttl :: Duration

definition NewAPIKeyCache :: "Duration \<Rightarrow> APIKeyCache" where
  "NewAPIKeyCache d = \<lparr>cmap = Map.empty, ttl = d\<rparr>"

definition Cache_Get :: "Time \<Rightarrow> string \<Rightarrow> APIKeyCache \<Rightarrow> APIKey option" where
  "Cache_Get now h c =
     (case cmap c h of None \<Rightarrow> None | Some e \<Rightarrow> if expiresAt e < now then None else Some (ckey e))"

definition Cache_Set :: "Time \<Rightarrow> string \<Rightarrow> APIKey \<Rightarrow> APIKeyCache \<Rightarrow> APIKeyCache" where
  "Cache_Set now h k c = c\<lparr>cmap := (cmap c)(h \<mapsto> \<lparr>ckey = k, expiresAt = AddT now (ttl c)\<rparr>)\<rparr>"

definition Cache_Delete :: "string \<Rightarrow> APIKeyCache \<Rightarrow> APIKeyCache" where
  "Cache_Delete h c = c\<lparr>cmap := (cmap c)(h := None)\<rparr>"

definition cleanup :: "Time \<Rightarrow> APIKeyCache \<Rightarrow> APIKeyCache" where
  \<comment> \<open>one round of the cleanup goroutine\<close>
  "cleanup now c = c\<lparr>cmap := (\<lambda>h. case cmap c h of None \<Rightarrow> None
                               | Some e \<Rightarrow> if expiresAt e < now then None else Some e)\<rparr>"

record APIKeyMiddlewareConfig =
  RequiredScopes :: "string list"
  AllowQueryParam :: bool
  CacheTTL :: Duration

definition APIKeyMiddleware_cache :: "APIKeyMiddlewareConfig \<Rightarrow> APIKeyCache option" where
  "APIKeyMiddleware_cache config =
     (if 0 < CacheTTL config then Some (NewAPIKeyCache (CacheTTL config)) else None)"

record key_request =
  api_key_header :: string
  api_key_query :: string

datatype key_outcome =
    Abort nat string
  | Next APIKey
  \<comment> \<open>the request is answered, or passed on with the key in its context\<close>

definition raw_key :: "APIKeyMiddlewareConfig \<Rightarrow> key_request \<Rightarrow> string" where
  "raw_key config req =
     (if api_key_header req = '''' \<and> AllowQueryParam config then api_key_query req else api_key_header req)"

definition check_key ::
  "(string \<Rightarrow> string) \<Rightarrow> APIKeyMiddlewareConfig \<Rightarrow> Time \<Rightarrow> string \<Rightarrow> APIKey \<Rightarrow> key_outcome" where
  \<comment> \<open>validation and scopes, once the key is known\<close>
  "check_key H config now rawKey k =
     (case ValidateAPIKey H now rawKey (Some k) of
        Some err \<Rightarrow> Abort 401 (if err = ErrExpiredAPIKey then ''API key has expired'' else ''Invalid API key'')
      | None \<Rightarrow>
          if RequiredScopes config \<noteq> [] \<and> \<not> HasAnyScope k (RequiredScopes config)
          then Abort 403 ''Insufficient API key scope''
          else Next k)"

definition APIKeyMiddleware ::
  "(string \<Rightarrow> string) \<Rightarrow> APIKeyMiddlewareConfig \<Rightarrow> (string \<Rightarrow> key_error + APIKey) \<Rightarrow> Time \<Rightarrow> key_request
     \<Rightarrow> APIKeyCache option \<Rightarrow> key_outcome \<times> APIKeyCache option" where
  \<comment> \<open>\<open>getByHash\<close> is \<open>config.Store.GetByHash\<close>; on \<open>Next\<close> a goroutine calls \<open>UpdateLastUsed\<close>\<close>
  "APIKeyMiddleware H config getByHash now req cache =
     (let rawKey = raw_key config req
      in if rawKey = '''' then (Abort 401 ''API key required'', cache)
         else
           (let keyHash = H rawKey
            in case Option.bind cache (Cache_Get now keyHash) of
                 Some k \<Rightarrow> (check_key H config now rawKey k, cache)
               | None \<Rightarrow>
                   (case getByHash keyHash of
                      Inl err \<Rightarrow> (Abort 401 ''Invalid API key'', cache)
                    | Inr k \<Rightarrow> (check_key H config now rawKey k,
                                map_option (Cache_Set now keyHash k) cache))))"

datatype ctx_value = CtxKey APIKey | CtxOther

definition GetAPIKeyFromContext :: "ctx_value option \<Rightarrow> APIKey option" where
  \<comment> \<open>the argument is what the gin context holds under \<open>api_key\<close>\<close>
  "GetAPIKeyFromContext v = (case v of Some (CtxKey k) \<Rightarrow> Some k | _ \<Rightarrow> None)"

definition RequireScope :: "string list \<Rightarrow> ctx_value option \<Rightarrow> key_outcome" where
  "RequireScope requiredScopes v =
     (case GetAPIKeyFromContext v of
        None \<Rightarrow> Abort 401 ''API key required''
      | Some k \<Rightarrow> if \<not> HasAnyScope k requiredScopes then Abort 403 ''Insufficient scope'' else Next k)"

section \<open>Scopes\<close>

lemma TrimSuffix_star: "suffix '':*'' s \<Longrightarrow> TrimSuffix s ''*'' = butlast s"
  by (auto simp: TrimSuffix_def suffix_def butlast_append)

lemma has_scope_loop_iff:
  "has_scope_loop r xs \<longleftrightarrow> r \<in> set xs \<or> ''*'' \<in> set xs \<or> (\<exists>p. p @ '':*'' \<in> set xs \<and> prefix (p @ '':'') r)"
proof (induction xs)
  case Nil
  then show ?case by simp
next
  case (Cons x xs)
  have "suffix '':*'' x \<and> prefix (TrimSuffix x ''*'') r \<longleftrightarrow> (\<exists>p. x = p @ '':*'' \<and> prefix (p @ '':'') r)"
    by (auto simp: TrimSuffix_star suffix_def butlast_append)
  with Cons.IH show ?case by auto
qed

lemma HasScope_iff:
  "HasScope k r \<longleftrightarrow> r \<in> set (kScopes k) \<or> ''*'' \<in> set (kScopes k)
     \<or> (\<exists>p. p @ '':*'' \<in> set (kScopes k) \<and> prefix (p @ '':'') r)"
  by (simp add: HasScope_def has_scope_loop_iff)

lemma HasAnyScope_iff: "HasAnyScope k rs \<longleftrightarrow> (\<exists>r \<in> set rs. HasScope k r)"
  by (induction rs) auto

lemma join_loop_Suc: "join_loop (Suc i) result xs = result @ concat (map (\<lambda>s. CHR '','' # s) xs)"
  by (induction xs arbitrary: i result) auto

lemma Join_concat: "Join (x # xs) sep = x @ concat (map (\<lambda>s. sep @ s) xs)"
  by (induction xs arbitrary: x) auto

lemma joinScopes_Join: "joinScopes xs = Join xs '',''"
  by (cases xs) (simp_all add: joinScopes_def join_loop_Suc Join_concat del: Join.simps(2,3))

lemma split_loop_Split: "split_loop scopes cur s = scopes @ filter (\<lambda>x. x \<noteq> []) (split_acc CHR '','' (rev cur) s)"
  by (induction scopes cur s rule: split_loop.induct) auto

lemma splitScopes_Split: "splitScopes s = filter (\<lambda>x. x \<noteq> []) (Split s CHR '','')"
  by (simp add: splitScopes_def split_loop_Split Split_def)

lemma split_acc_sep: "split_acc sep cur (x @ sep # s) = split_acc sep cur x @ split_acc sep [] s"
  by (induction sep cur x rule: split_acc.induct) auto

lemma Split_Join_pieces: "xs \<noteq> [] \<Longrightarrow> Split (Join xs [sep]) sep = concat (map (\<lambda>x. Split x sep) xs)"
  by (induction xs rule: induct_list012) (auto simp: Split_def split_acc_sep)

lemma scopes_reloaded: "splitScopes (joinScopes xs) = filter (\<lambda>x. x \<noteq> []) (concat (map (\<lambda>x. Split x CHR '','') xs))"
proof (cases xs)
  case Nil
  then show ?thesis by (simp add: joinScopes_def splitScopes_def)
next
  case (Cons x ys)
  then show ?thesis by (simp only: splitScopes_Split joinScopes_Join Split_Join_pieces list.distinct simp_thms)
qed

lemma scopes_reloaded_exact:
  assumes "\<And>x. x \<in> set xs \<Longrightarrow> x \<noteq> [] \<and> CHR '','' \<notin> set x"
  shows "splitScopes (joinScopes xs) = xs"
proof (cases xs)
  case Nil
  then show ?thesis by (simp add: joinScopes_def splitScopes_def)
next
  case (Cons x ys)
  then have "splitScopes (joinScopes xs) = filter (\<lambda>x. x \<noteq> []) xs"
    using assms by (subst splitScopes_Split, subst joinScopes_Join, subst Split_Join) auto
  then show ?thesis using assms by (simp add: filter_id_conv)
qed

section \<open>Storing and loading a key\<close>

text \<open>
  What the database stores of an inserted row: gorm replaces the zero value of a column with a
  \<open>default\<close> tag by that default (\<open>rate_limit\<close> 1000, \<open>is_active\<close> true) and Postgres may round the
  timestamps; the text columns are kept.
\<close>

definition stored_laws :: "(APIKeyModel \<Rightarrow> APIKeyModel) \<Rightarrow> bool" where
  "stored_laws stored \<longleftrightarrow> (\<forall>m.
     mKeyID (stored m) = mKeyID m \<and> mName (stored m) = mName m \<and> mKeyHash (stored m) = mKeyHash m
     \<and> mKeyPrefix (stored m) = mKeyPrefix m \<and> mServiceName (stored m) = mServiceName m
     \<and> mScopes (stored m) = mScopes m
     \<and> mRateLimit (stored m) = (if mRateLimit m = 0 then 1000 else mRateLimit m)
     \<and> mIsActive (stored m))"

definition gorm_stored :: "APIKeyModel \<Rightarrow> APIKeyModel" where
  "gorm_stored m = m\<lparr>mRateLimit := (if mRateLimit m = 0 then 1000 else mRateLimit m), mIsActive := True\<rparr>"

lemma gorm_stored_laws: "stored_laws gorm_stored"
  by (simp add: stored_laws_def gorm_stored_def)

lemma find_append_new: "(\<And>x. x \<in> set xs \<Longrightarrow> \<not> P x) \<Longrightarrow> P y \<Longrightarrow> find P (xs @ [y]) = Some y"
  by (induction xs) auto


lemma Key_Create_ok:
  "Key_Create fault stored key tbl = (None, tbl') \<Longrightarrow>
   fault = None \<and> kID key \<notin> mKeyID ` set tbl \<and> kKeyHash key \<notin> mKeyHash ` set tbl
     \<and> tbl' = tbl @ [stored (key_model key)]"
  by (auto simp: Key_Create_def Let_def key_model_def split: option.splits if_splits)

lemma Create_then_GetByHash:
  assumes "stored_laws stored" and "Key_Create fault stored key tbl = (None, tbl')"
  shows "GetByHash None (kKeyHash key) tbl' = Inr (modelToAPIKey (stored (key_model key)))"
proof -
  have new: "kKeyHash key \<notin> mKeyHash ` set tbl" "tbl' = tbl @ [stored (key_model key)]"
    using Key_Create_ok [OF assms(2)] by blast+
  have row: "mKeyHash (stored (key_model key)) = kKeyHash key" "mIsActive (stored (key_model key))"
    using assms(1) by (simp_all add: stored_laws_def key_model_def)
  have "find (\<lambda>m. mKeyHash m = kKeyHash key \<and> mIsActive m) tbl' = Some (stored (key_model key))"
    unfolding new(2) by (rule find_append_new) (use new(1) row in \<open>auto simp: image_iff eq_commute\<close>)
  then show ?thesis by (simp add: GetByHash_def First_def)
qed

text \<open>
  Create and load: a key that \<open>Create\<close> accepted is found under its hash with its identity and
  its scopes, provided each scope is non-empty and has no comma.
\<close>
theorem Create_GetByHash:
  assumes "stored_laws stored" and "Key_Create fault stored key tbl = (None, tbl')"
    and "\<forall>s \<in> set (kScopes key). s \<noteq> [] \<and> CHR '','' \<notin> set s"
  shows "\<exists>k. GetByHash None (kKeyHash key) tbl' = Inr k
     \<and> kID k = kID key \<and> kName k = kName key \<and> kKeyHash k = kKeyHash key
     \<and> kKeyPrefix k = kKeyPrefix key \<and> kServiceName k = kServiceName key \<and> kScopes k = kScopes key
     \<and> (\<forall>r. HasScope k r = HasScope key r)"
proof -
  let ?k = "modelToAPIKey (stored (key_model key))"
  have scopes: "kScopes ?k = kScopes key"
    using assms(1,3) by (simp add: modelToAPIKey_def stored_laws_def key_model_def scopes_reloaded_exact)
  then have "HasScope ?k r = HasScope key r" for r by (simp add: HasScope_def)
  moreover have "kID ?k = kID key" "kName ?k = kName key" "kKeyHash ?k = kKeyHash key"
    "kKeyPrefix ?k = kKeyPrefix key" "kServiceName ?k = kServiceName key"
    using assms(1) by (simp_all add: modelToAPIKey_def stored_laws_def key_model_def)
  ultimately show ?thesis using Create_then_GetByHash [OF assms(1,2)] scopes by blast
qed

definition sample_key :: "string list \<Rightarrow> bool \<Rightarrow> APIKey" where
  "sample_key scopes active =
     \<lparr>kID = ''k1'', kName = ''stock'', kKeyHash = ''secret'', kKeyPrefix = ''klng_inv_012'',
      kServiceName = ''inventory'', kScopes = scopes, kRateLimit = 0, kExpiresAt = zeroTime,
      kCreatedAt = Time 5, kLastUsedAt = zeroTime, kIsActive = active\<rparr>"

lemma sample_create: "Key_Create None gorm_stored (sample_key scopes active) [] = (None, [gorm_stored (key_model (sample_key scopes active))])"
  by (simp add: Key_Create_def)

theorem Create_GetByHash_witness:
  "\<exists>k. GetByHash None ''secret'' [gorm_stored (key_model (sample_key [''order:read'', ''admin:*''] True))] = Inr k
     \<and> kScopes k = [''order:read'', ''admin:*''] \<and> HasScope k ''admin:users''"
proof -
  have "HasScope (sample_key [''order:read'', ''admin:*''] True) ''admin:users''"
    unfolding sample_key_def by code_simp
  with Create_GetByHash [OF gorm_stored_laws sample_create, of "[''order:read'', ''admin:*'']" True]
  show ?thesis by (auto simp: sample_key_def)
qed

text \<open>
  Two ways in which a stored key is more powerful than the key given to \<open>Create\<close>. A scope with
  a comma comes back as its pieces, so a key whose only scope is the literal \<open>order:read,*\<close>, which
  grants nothing but itself, grants every scope after loading. And a key created inactive comes
  back active, because \<open>is_active\<close> carries the default \<open>true\<close>.
\<close>
theorem Create_escalates:
  assumes "stored_laws stored"
    and "Key_Create fault stored (sample_key [''order:read,*''] False) tbl = (None, tbl')"
  shows "\<not> HasScope (sample_key [''order:read,*''] False) ''admin:users''
     \<and> ValidateAPIKey H now raw (Some (sample_key [''order:read,*''] False)) = Some ErrInvalidAPIKey
     \<and> (\<exists>k. GetByHash None ''secret'' tbl' = Inr k \<and> kIsActive k \<and> (\<forall>r. HasScope k r))"
proof -
  let ?key = "sample_key [''order:read,*''] False"
  let ?k = "modelToAPIKey (stored (key_model ?key))"
  have "splitScopes (joinScopes [''order:read,*'']) = [''order:read'', ''*'']" by code_simp
  then have "kScopes ?k = [''order:read'', ''*'']" "kIsActive ?k"
    using assms(1) by (simp_all add: modelToAPIKey_def stored_laws_def key_model_def sample_key_def)
  then have "kIsActive ?k" "\<forall>r. HasScope ?k r" by (simp_all add: HasScope_iff)
  moreover have "GetByHash None ''secret'' tbl' = Inr ?k"
    using Create_then_GetByHash [OF assms] by (simp add: sample_key_def)
  moreover have "\<not> HasScope ?key ''admin:users''" unfolding sample_key_def by code_simp
  moreover have "ValidateAPIKey H now raw (Some ?key) = Some ErrInvalidAPIKey"
    by (simp add: ValidateAPIKey_def sample_key_def)
  ultimately show ?thesis by blast
qed

theorem Create_escalates_witness:
  "\<exists>k. GetByHash None ''secret'' [gorm_stored (key_model (sample_key [''order:read,*''] False))] = Inr k
     \<and> kIsActive k \<and> (\<forall>r. HasScope k r)"
  using Create_escalates [OF gorm_stored_laws sample_create, of "\<lambda>s. s" zeroTime "''x''"] by blast

section \<open>The middleware\<close>

lemma ValidateAPIKey_ok:
  "ValidateAPIKey H now raw (Some k) = None \<longleftrightarrow>
     kIsActive k \<and> (IsZero (kExpiresAt k) \<or> now \<le> kExpiresAt k) \<and> H raw = kKeyHash k"
  by (auto simp: ValidateAPIKey_def)

lemma check_key_Next:
  "check_key H config now raw k = Next k' \<longleftrightarrow>
     k' = k \<and> ValidateAPIKey H now raw (Some k) = None
     \<and> (RequiredScopes config = [] \<or> HasAnyScope k (RequiredScopes config))"
  by (auto simp: check_key_def split: option.splits if_splits)

definition known_key ::
  "(string \<Rightarrow> string) \<Rightarrow> (string \<Rightarrow> key_error + APIKey) \<Rightarrow> Time \<Rightarrow> string \<Rightarrow> APIKeyCache option \<Rightarrow> APIKey \<Rightarrow> bool" where
  \<comment> \<open>the key that the cache holds for a raw key, else the one the store has\<close>
  "known_key H getByHash now raw cache k \<longleftrightarrow>
     (case Option.bind cache (Cache_Get now (H raw)) of Some c \<Rightarrow> k = c | None \<Rightarrow> getByHash (H raw) = Inr k)"

text \<open>
  The middleware passes a request on exactly when it carries a key, the cache or else the
  store knows a key for its hash, and that key is active, unexpired, has that very hash and holds
  one of the required scopes (any key does when none is required).
\<close>
theorem APIKeyMiddleware_Next:
  "fst (APIKeyMiddleware H config getByHash now req cache) = Next k \<longleftrightarrow>
     raw_key config req \<noteq> [] \<and> known_key H getByHash now (raw_key config req) cache k
     \<and> kIsActive k \<and> (IsZero (kExpiresAt k) \<or> now \<le> kExpiresAt k) \<and> H (raw_key config req) = kKeyHash k
     \<and> (RequiredScopes config = [] \<or> (\<exists>r \<in> set (RequiredScopes config).
          r \<in> set (kScopes k) \<or> ''*'' \<in> set (kScopes k)
          \<or> (\<exists>p. p @ '':*'' \<in> set (kScopes k) \<and> prefix (p @ '':'') r)))"
  unfolding HasScope_iff [symmetric] HasAnyScope_iff [symmetric]
  by (cases "Option.bind cache (Cache_Get now (H (raw_key config req)))"; cases "getByHash (H (raw_key config req))")
    (auto simp: APIKeyMiddleware_def Let_def known_key_def check_key_Next ValidateAPIKey_ok)

section \<open>Revocation\<close>

text \<open>
  One instance of the middleware in front of the key table, as a sequence of operations: requests
  (with the fault of their database read, if any), the passing of time, rounds of the cleanup
  goroutine, the store operations of an administrator, and the \<open>UpdateLastUsed\<close> that a passed
  request starts, which may run at any later moment.
\<close>

record ksys =
  ktbl :: ktable
  kcache :: "APIKeyCache option"
  kclock :: Time

datatype kop =
    Serve "string option" key_request
  | Wait nat
  | Cleanup
  | DoCreate APIKey
  | DoUpdate APIKey
  | DoDelete string
  | Touch string

definition serve ::
  "(string \<Rightarrow> string) \<Rightarrow> APIKeyMiddlewareConfig \<Rightarrow> string option \<Rightarrow> key_request \<Rightarrow> ksys \<Rightarrow> key_outcome \<times> APIKeyCache option" where
  "serve H config fault req s =
     APIKeyMiddleware H config (\<lambda>h. GetByHash fault h (ktbl s)) (kclock s) req (kcache s)"

fun kexec ::
  "(string \<Rightarrow> string) \<Rightarrow> APIKeyMiddlewareConfig \<Rightarrow> (APIKeyModel \<Rightarrow> APIKeyModel) \<Rightarrow> kop \<Rightarrow> ksys \<Rightarrow> ksys" where
  "kexec H config stored (Serve fault req) s = s\<lparr>kcache := snd (serve H config fault req s)\<rparr>"
| "kexec H config stored (Wait d) s = s\<lparr>kclock := AddT (kclock s) (int d)\<rparr>"
| "kexec H config stored Cleanup s = s\<lparr>kcache := map_option (cleanup (kclock s)) (kcache s)\<rparr>"
| "kexec H config stored (DoCreate k) s = s\<lparr>ktbl := snd (Key_Create None stored k (ktbl s))\<rparr>"
| "kexec H config stored (DoUpdate k) s = s\<lparr>ktbl := snd (Key_Update None k (ktbl s))\<rparr>"
| "kexec H config stored (DoDelete i) s = s\<lparr>ktbl := snd (Key_Delete None i (ktbl s))\<rparr>"
| "kexec H config stored (Touch i) s = s\<lparr>ktbl := snd (UpdateLastUsed None (kclock s) i (ktbl s))\<rparr>"

definition kruns ::
  "(string \<Rightarrow> string) \<Rightarrow> APIKeyMiddlewareConfig \<Rightarrow> (APIKeyModel \<Rightarrow> APIKeyModel) \<Rightarrow> kop list \<Rightarrow> ksys \<Rightarrow> ksys" where
  "kruns H config stored ops s = fold (kexec H config stored) ops s"

definition kstart :: "APIKeyMiddlewareConfig \<Rightarrow> Time \<Rightarrow> ksys" where
  "kstart config t = \<lparr>ktbl = [], kcache = APIKeyMiddleware_cache config, kclock = t\<rparr>"





















definition sample_config :: APIKeyMiddlewareConfig where
  "sample_config = \<lparr>RequiredScopes = [''order:read''], AllowQueryParam = False, CacheTTL = Minute\<rparr>"

definition sample_request :: key_request where
  "sample_request = \<lparr>api_key_header = ''secret'', api_key_query = ''''\<rparr>"

definition sample_row :: APIKeyModel where
  "sample_row = gorm_stored (key_model (sample_key [''order:read''] True))"

definition sample_sys :: ksys where
  "sample_sys = kruns (\<lambda>s. s) sample_config gorm_stored
     [DoCreate (sample_key [''order:read''] True)] (kstart sample_config (Time 0))"

lemma sample_sys_simps:
  "ktbl sample_sys = [sample_row]" "kclock sample_sys = Time 0"
  "kcache sample_sys = Some (NewAPIKeyCache Minute)"
  by (simp_all add: sample_sys_def sample_row_def kruns_def kstart_def sample_create
      APIKeyMiddleware_cache_def sample_config_def duration_units)

lemma sample_row_simps:
  "mKeyID sample_row = ''k1''" "mKeyHash sample_row = ''secret''"
  "modelToAPIKey sample_row = (sample_key [''order:read''] True)\<lparr>kRateLimit := 1000\<rparr>" "mIsActive sample_row"
proof -
  have "splitScopes (joinScopes [''order:read'']) = [''order:read'']" by code_simp
  then show "modelToAPIKey sample_row = (sample_key [''order:read''] True)\<lparr>kRateLimit := 1000\<rparr>"
    by (simp add: sample_row_def gorm_stored_def key_model_def modelToAPIKey_def sample_key_def IsZero_def)
qed (simp_all add: sample_row_def gorm_stored_def key_model_def sample_key_def)

lemma sample_raw: "raw_key sample_config sample_request = ''secret''"
  by (simp add: raw_key_def sample_config_def sample_request_def)


text \<open>
  Until then the key still works: \<open>Delete\<close> does not reach the cache, so a key that a request
  has just brought into the cache keeps passing for the whole time to live after its deletion.
\<close>
theorem deleted_key_cached:
  assumes "kcache s = Some c" and "Cache_Get (kclock s) (H (raw_key config req)) c = None"
    and "fst (serve H config fault req s) = Next k" and "IsZero (kExpiresAt k)"
    and "int d \<le> ttl c"
    and "s' = kruns H config stored [Serve fault req, DoDelete (kID k), Wait d] s"
  shows "fst (serve H config fault' req s') = Next k"
proof -
  from assms(1-3) have c: "raw_key config req \<noteq> []" "check_key H config (kclock s) (raw_key config req) k = Next k"
    and sn: "snd (serve H config fault req s) = Some (Cache_Set (kclock s) (H (raw_key config req)) k c)"
    by (auto simp: serve_def APIKeyMiddleware_def Let_def check_key_Next split: sum.splits if_splits)
  from assms(6) sn have s': "kcache s' = Some (Cache_Set (kclock s) (H (raw_key config req)) k c)"
    "kclock s' = AddT (kclock s) (int d)"
    by (simp_all add: kruns_def)
  have hit: "Cache_Get (kclock s') (H (raw_key config req)) (Cache_Set (kclock s) (H (raw_key config req)) k c) = Some k"
    using assms(5) s'(2) by (simp add: Cache_Get_def Cache_Set_def time_order)
  have "check_key H config (kclock s') (raw_key config req) k = Next k"
    using c(2) assms(4) by (simp add: check_key_Next ValidateAPIKey_ok)
  with c(1) s'(1) hit show ?thesis by (simp add: serve_def APIKeyMiddleware_def Let_def)
qed

theorem deleted_key_cached_witness:
  "fst (serve (\<lambda>s. s) sample_config None sample_request
     (kruns (\<lambda>s. s) sample_config gorm_stored [Serve None sample_request, DoDelete ''k1'', Wait 60000000000] sample_sys))
   = Next ((sample_key [''order:read''] True)\<lparr>kRateLimit := 1000\<rparr>)"
proof (rule deleted_key_cached)
  let ?k = "(sample_key [''order:read''] True)\<lparr>kRateLimit := 1000\<rparr>"
  show "kcache sample_sys = Some (NewAPIKeyCache Minute)" by (simp add: sample_sys_simps)
  show "Cache_Get (kclock sample_sys) (raw_key sample_config sample_request) (NewAPIKeyCache Minute) = None"
    by (simp add: Cache_Get_def NewAPIKeyCache_def)
  have "check_key (\<lambda>s. s) sample_config (Time 0) ''secret'' ?k = Next ?k"
    by (simp add: check_key_Next ValidateAPIKey_ok HasScope_def sample_key_def sample_config_def IsZero_def)
  then show "fst (serve (\<lambda>s. s) sample_config None sample_request sample_sys) = Next ?k"
    by (simp add: serve_def APIKeyMiddleware_def Let_def sample_raw sample_sys_simps Cache_Get_def NewAPIKeyCache_def
        GetByHash_def First_def sample_row_simps)
qed (simp_all add: sample_key_def IsZero_def NewAPIKeyCache_def duration_units)

end
