(* ===== verification/ServiceClient.thy ===== *)
theory ServiceClient
  imports ApiKeys
begin

text \<open>
  The calling side of \<open>auth/apikey_middleware.go\<close>: \<open>ServiceAuthClient\<close>, and the life of a key from its
  generation (\<open>auth/apikey.go\<close>) through the store (\<open>auth/apikey_store.go\<close>) to the middleware of the
  service that is called. \<open>http.NewRequest\<close> and \<open>http.Client.Do\<close> are arguments.
\<close>

section \<open>The client\<close>







section \<open>A key from its generation to its use\<close>







end
