(* ===== verification/KeyHash.thy ===== *)
theory KeyHash
  imports ApiKeys
begin

text \<open>
  The hash and the identifier of an API key (\<open>hashAPIKey\<close>, \<open>generateKeyID\<close> of \<open>auth/apikey.go\<close>), the hash
  with SHA-256 as theory \<open>GoCrypto\<close> computes it; a test vector of the standard, and what a generated
  key looks like in the table.
\<close>

definition hashAPIKey :: "string \<Rightarrow> string" where
  "hashAPIKey key = EncodeToString (Sum256 (bytes_of key))"

definition generateKeyID :: "string + 8 word list \<Rightarrow> string" where
  \<comment> \<open>the error of \<open>rand.Read\<close> is not looked at: the bytes then stay zero\<close>
  "generateKeyID random = EncodeToString (case random of Inl err \<Rightarrow> replicate 8 0 | Inr bytes \<Rightarrow> bytes)"

section \<open>A test vector of the standard\<close>

text \<open>The digest of the message \<open>abc\<close>, computed in four parts.\<close>

definition abc_schedule :: "32 word list" where
  "abc_schedule =
     [1633837952, 0, 0, 0, 0, 0, 0, 0,
      0, 0, 0, 0, 0, 0, 0, 24,
      1633837952, 983040, 2108187653, 1610613702, 1050508152, 25426944, 316456923, 3806512014,
      3357629466, 3073800610, 3854317833, 845560923, 2636160359, 3968280267, 1881225380, 3552024379,
      2482346367, 996719219, 2952069057, 4043988066, 176896406, 1924104970, 2483675966, 610538786,
      2672279444, 4037431130, 1042573945, 657669027, 206005234, 2215296807, 2049510749, 106709978,
      4215179723, 3430291419, 3118885940, 2845390439, 2226839261, 3256115900, 344409900, 2987358873,
      4015503821, 3957764664, 2682456414, 2025622859, 2755645205, 1720397816, 4004225740, 313650667]"

definition abc_middle :: hash_state where
  \<comment> \<open>the state after half of the rounds\<close>
  "abc_middle =
     (1941126133, 3935906338, 2684750640, 909411017, 3126399250, 17410874, 2917635127, 1628611511)"

lemma abc_blocks: "map be_words (blocks (bytes_of ''abc'' @ sha_padding (length (bytes_of ''abc'')))) = [take 16 abc_schedule]"
  by code_simp

lemma abc_words: "rev (schedule 48 (rev (take 16 abc_schedule))) = abc_schedule"
  by code_simp

lemma abc_rounds1: "fold sha_round (zip (take 32 round_constants) (take 32 abc_schedule)) initial_hash = abc_middle"
  by code_simp

lemma abc_rounds2:
  "EncodeToString (state_bytes (add_state initial_hash (fold sha_round (zip (drop 32 round_constants) (drop 32 abc_schedule)) abc_middle))) =
   ''ba7816bf8f01cfea414140de5dae2223b00361a396177a9cb410ff61f20015ad''"
  by code_simp

lemma Sum256_abc:
  "EncodeToString (Sum256 (bytes_of ''abc'')) = ''ba7816bf8f01cfea414140de5dae2223b00361a396177a9cb410ff61f20015ad''"
proof -
  obtain p where p: "blocks (bytes_of ''abc'' @ sha_padding (length (bytes_of ''abc''))) = [p]" "be_words p = take 16 abc_schedule"
    using abc_blocks by auto
  have "zip round_constants abc_schedule =
      zip (take 32 round_constants) (take 32 abc_schedule) @ zip (drop 32 round_constants) (drop 32 abc_schedule)"
    by (simp add: zip_append [symmetric] round_constants_def abc_schedule_def del: zip_append)
  then have "fold sha_round (zip round_constants abc_schedule) initial_hash =
      fold sha_round (zip (drop 32 round_constants) (drop 32 abc_schedule)) abc_middle"
    by (simp add: abc_rounds1)
  then show ?thesis unfolding Sum256_def p(1) by (simp add: sha_block_def p(2) abc_words abc_rounds2)
qed

section \<open>Generated keys\<close>

definition hex_chars :: "char set" where
  "hex_chars = set ''0123456789abcdef''"

definition is_hex :: "string \<Rightarrow> bool" where
  "is_hex s \<longleftrightarrow> set s \<subseteq> hex_chars"

lemma hex_digit_set: "d < 16 \<Longrightarrow> hex_digit d \<in> hex_chars"
  unfolding hex_digit_def hex_chars_def by (rule nth_mem) simp

lemma EncodeToString_hex: "is_hex (EncodeToString bs)"
  by (induction bs) (simp_all add: is_hex_def hex_digit_set nibble_less)

lemma hashAPIKey_shape: "length (hashAPIKey key) = 64" "is_hex (hashAPIKey key)"
  by (simp_all add: hashAPIKey_def Sum256_length EncodeToString_hex)

lemma hashAPIKey_eq: "hashAPIKey x = hashAPIKey y \<longleftrightarrow> Sum256 (bytes_of x) = Sum256 (bytes_of y)"
  by (simp add: hashAPIKey_def EncodeToString_inj)

lemma GenerateAPIKey_shape:
  assumes "GenerateAPIKey H (Inr bytes) keyID now1 now2 name svc scopes expiresIn = Ret (Inr (raw, key))"
  shows "raw = ''klng_'' @ take 3 (ToLower svc) @ ''_'' @ EncodeToString bytes" and "3 \<le> length svc"
    and "kID key = keyID" and "kKeyHash key = H raw" and "kKeyPrefix key = take 12 raw"
    and "kExpiresAt key = (if 0 < expiresIn then AddT now1 expiresIn else zeroTime)" and "kIsActive key"
  using assms by (auto simp: GenerateAPIKey_def go_slice_to_def ToLower_length Let_def split: go.splits if_splits)

text \<open>
  C26. What a generated key is: the raw key names the service and carries 64 hexadecimal digits of
  randomness, of which the stored prefix shows three; identifier, hash and prefix have 16, 64 and 12
  characters and so fit their columns. While it has not expired the raw key validates against the
  record, and any other string that does is a collision of SHA-256. Keys of one service made from
  different random bytes are different.
\<close>
theorem generated_key_shape:
  assumes "length bytes = 32" and "length idbytes = 8"
    and "GenerateAPIKey hashAPIKey (Inr bytes) (generateKeyID (Inr idbytes)) now1 now2 name svc scopes expiresIn = Ret (Inr (raw, key))"
  shows "raw = ''klng_'' @ take 3 (ToLower svc) @ ''_'' @ EncodeToString bytes \<and> length raw = 73
    \<and> length (kID key) = 16 \<and> is_hex (kID key) \<and> length (kKeyHash key) = 64 \<and> is_hex (kKeyHash key)
    \<and> kKeyPrefix key = ''klng_'' @ take 3 (ToLower svc) @ ''_'' @ take 3 (EncodeToString bytes) \<and> length (kKeyPrefix key) = 12
    \<and> (IsZero (kExpiresAt key) \<or> now \<le> kExpiresAt key \<longrightarrow> ValidateAPIKey hashAPIKey now raw (Some key) = None)
    \<and> (ValidateAPIKey hashAPIKey now raw' (Some key) = None \<longrightarrow> raw' = raw \<or> Sum256 (bytes_of raw') = Sum256 (bytes_of raw) \<and> bytes_of raw' \<noteq> bytes_of raw)
    \<and> (GenerateAPIKey hashAPIKey (Inr bytes') keyID' now1' now2' name' svc scopes' expiresIn' = Ret (Inr (raw'', key'')) \<and> bytes' \<noteq> bytes
         \<longrightarrow> raw'' \<noteq> raw)"
proof -
  note g = GenerateAPIKey_shape [OF assms(3)]
  have "raw'' \<noteq> raw"
    if "GenerateAPIKey hashAPIKey (Inr bytes') keyID' now1' now2' name' svc scopes' expiresIn' = Ret (Inr (raw'', key''))" "bytes' \<noteq> bytes"
    using GenerateAPIKey_shape(1) [OF that(1)] that(2) g(1) by (simp add: EncodeToString_inj)
  moreover have "take 12 raw = ''klng_'' @ take 3 (ToLower svc) @ ''_'' @ take 3 (EncodeToString bytes)"
    unfolding g(1) using g(2) by (simp add: ToLower_length min_def)
  ultimately show ?thesis
    using g assms(1,2)
    by (auto simp: generateKeyID_def EncodeToString_hex hashAPIKey_shape ToLower_length ValidateAPIKey_ok hashAPIKey_eq bytes_of_inj)
qed

theorem generated_key_shape_witness:
  "\<exists>raw key. GenerateAPIKey hashAPIKey (Inr (replicate 32 7)) (generateKeyID (Inr (replicate 8 1))) (Time 5) (Time 5) ''stock'' ''inventory'' [] 0 = Ret (Inr (raw, key))
     \<and> length raw = 73 \<and> length (kKeyHash key) = 64 \<and> ValidateAPIKey hashAPIKey (Time 9) raw (Some key) = None"
proof -
  let ?gen = "GenerateAPIKey hashAPIKey (Inr (replicate 32 7)) (generateKeyID (Inr (replicate 8 1))) (Time 5) (Time 5) ''stock'' ''inventory'' [] 0"
  have svc: "go_slice_to (ToLower ''inventory'') 3 = Ret ''inv''" by code_simp
  obtain raw key where g: "?gen = Ret (Inr (raw, key))"
    unfolding GenerateAPIKey_def sum.case svc go.case Let_def by (simp add: go_slice_to_def)
  have "IsZero (kExpiresAt key)" using GenerateAPIKey_shape(6) [OF g] by (simp add: IsZero_def)
  with generated_key_shape [OF length_replicate length_replicate g, of "Time 9" raw] g show ?thesis by blast
qed

end
