(* ===== verification/Response.thy ===== *)
theory Response
  imports GoStrings
begin

text \<open>
  \<open>response/response.go\<close>: the JSON envelopes every handler answers with, pagination, and the
  translation of domain errors into responses that do not leak their text. A gin handler that
  answers is modelled by the answer it writes. Go's map iteration order is an argument.
\<close>

section \<open>Model\<close>

datatype gvalue =
    GNil | NilSlice string | Slice string "gvalue list" | NilMap string | GMap string "(string \<times> gvalue) list"
  | NilPtr string | GText string | GObj string
  \<comment> \<open>an \<open>interface{}\<close> as \<open>reflect\<close> sees it; the first string is the element type\<close>

record ErrorDetail =
  edCode :: string
  edMessage :: string
  edDetails :: gvalue

record Meta =
  meta_Page :: i64
  meta_Limit :: i64
  meta_TotalPages :: i64
  meta_TotalCount :: i64
  meta_Total :: i64

record Response =
  rSuccess :: bool
  rMessage :: string
  rData :: gvalue
  rError :: "ErrorDetail option"
  rMeta :: "Meta option"

datatype answer = NoAnswer | StatusOnly nat | JSON nat Response

fun emptyCollection :: "gvalue \<Rightarrow> gvalue" where
  "emptyCollection GNil = GNil"
| "emptyCollection (NilSlice t) = Slice t []"
| "emptyCollection (NilMap t) = GMap t []"
| "emptyCollection v = v"

definition Success :: "nat \<Rightarrow> string \<Rightarrow> gvalue \<Rightarrow> answer" where
  "Success status message v =
     JSON status \<lparr>rSuccess = True, rMessage = message, rData = emptyCollection v, rError = None, rMeta = None\<rparr>"

definition SuccessWithMeta :: "nat \<Rightarrow> string \<Rightarrow> gvalue \<Rightarrow> Meta option \<Rightarrow> answer" where
  "SuccessWithMeta status message v meta =
     JSON status \<lparr>rSuccess = True, rMessage = message, rData = emptyCollection v, rError = None, rMeta = meta\<rparr>"

definition ErrorResponse :: "nat \<Rightarrow> string \<Rightarrow> string \<Rightarrow> gvalue \<Rightarrow> answer" where
  "ErrorResponse status code message det =
     JSON status \<lparr>rSuccess = False, rMessage = '''', rData = GNil,
       rError = Some \<lparr>edCode = code, edMessage = message, edDetails = det\<rparr>, rMeta = None\<rparr>"

definition BadRequest :: "string \<Rightarrow> gvalue \<Rightarrow> answer" where
  "BadRequest message det = ErrorResponse 400 ''BAD_REQUEST'' message det"
definition Unauthorized :: "string \<Rightarrow> answer" where
  "Unauthorized message = ErrorResponse 401 ''UNAUTHORIZED'' message GNil"
definition Forbidden :: "string \<Rightarrow> answer" where
  "Forbidden message = ErrorResponse 403 ''FORBIDDEN'' message GNil"
definition NotFound :: "string \<Rightarrow> answer" where
  "NotFound message = ErrorResponse 404 ''NOT_FOUND'' message GNil"
definition Conflict :: "string \<Rightarrow> answer" where
  "Conflict message = ErrorResponse 409 ''CONFLICT'' message GNil"
definition InternalServerError :: "string \<Rightarrow> answer" where
  "InternalServerError message = ErrorResponse 500 ''INTERNAL_SERVER_ERROR'' message GNil"
definition Created :: "string \<Rightarrow> gvalue \<Rightarrow> answer" where
  "Created message v = Success 201 message v"
definition OK :: "string \<Rightarrow> gvalue \<Rightarrow> answer" where
  "OK message v = Success 200 message v"
definition NoContent :: answer where
  "NoContent = StatusOnly 204"

record Pagination =
  pg_Page :: i64
  pg_Limit :: i64
  pg_Total :: i64
  pg_TotalPages :: i64

definition NewPagination :: "i64 \<Rightarrow> i64 \<Rightarrow> i64 \<Rightarrow> Pagination go" where
  "NewPagination page limit count =
     (if limit = 0 then Panic ''runtime error: integer divide by zero''
      else
        (let totalPages = go_div (count + limit - 1) limit;
             totalPages = (if totalPages <s 1 then 1 else totalPages)
         in Ret \<lparr>pg_Page = page, pg_Limit = limit, pg_Total = count, pg_TotalPages = totalPages\<rparr>))"

definition SuccessWithPagination :: "string \<Rightarrow> gvalue \<Rightarrow> Pagination \<Rightarrow> answer" where
  "SuccessWithPagination message v p =
     JSON 200 \<lparr>rSuccess = True, rMessage = message, rData = emptyCollection v, rError = None,
       rMeta = Some \<lparr>meta_Page = pg_Page p, meta_Limit = pg_Limit p, meta_TotalPages = pg_TotalPages p,
                     meta_TotalCount = pg_Total p, meta_Total = pg_Total p\<rparr>\<rparr>"

definition Paginated :: "gvalue \<Rightarrow> i64 \<Rightarrow> i64 \<Rightarrow> i64 \<Rightarrow> answer go" where
  "Paginated v page limit count =
     (case NewPagination page limit count of
        Panic m \<Rightarrow> Panic m
      | Ret p \<Rightarrow> Ret (SuccessWithPagination ''Data retrieved successfully'' v p))"

definition List_response :: "string \<Rightarrow> gvalue \<Rightarrow> answer" where
  "List_response message v = OK message v"
definition Deleted :: "string \<Rightarrow> answer" where
  "Deleted message = OK message GNil"
definition Updated :: "string \<Rightarrow> gvalue \<Rightarrow> answer" where
  "Updated message v = OK message v"
definition ValidationError :: "string \<Rightarrow> gvalue \<Rightarrow> answer" where
  "ValidationError message det = ErrorResponse 422 ''VALIDATION_ERROR'' message det"
definition ServiceUnavailable :: "string \<Rightarrow> answer" where
  "ServiceUnavailable message = ErrorResponse 503 ''SERVICE_UNAVAILABLE'' message GNil"
definition TooManyRequests :: "string \<Rightarrow> gvalue \<Rightarrow> answer" where
  "TooManyRequests message det = ErrorResponse 429 ''RATE_LIMIT_EXCEEDED'' message det"

record ErrorMapping =
  HTTPStatus :: nat
  emCode :: string
  emMessage :: string

record ErrorTranslator =
  mappings :: "string \<rightharpoonup> ErrorMapping"
  fallback :: ErrorMapping

definition NewErrorTranslator :: ErrorTranslator where
  "NewErrorTranslator =
     \<lparr>mappings = Map.empty,
      fallback = \<lparr>HTTPStatus = 500, emCode = ''INTERNAL_ERROR'',
                  emMessage = ''An unexpected error occurred. Please try again later.''\<rparr>\<rparr>"

definition Register :: "string \<Rightarrow> ErrorMapping \<Rightarrow> ErrorTranslator \<Rightarrow> ErrorTranslator" where
  "Register errorText mapping t = t\<lparr>mappings := (mappings t)(errorText \<mapsto> mapping)\<rparr>"

function contains_from :: "string \<Rightarrow> string \<Rightarrow> nat \<Rightarrow> bool" where
  "contains_from s substr i =
     (if i + length substr \<le> length s
      then if take (length substr) (drop i s) = substr then True else contains_from s substr (i + 1)
      else False)"
  by pat_completeness auto
termination by (relation "measure (\<lambda>(s, substr, i). length s + 1 - i)") auto

declare contains_from.simps [simp del]

definition contains :: "string \<Rightarrow> string \<Rightarrow> bool" where
  "contains s substr = contains_from s substr 0"

definition containsPattern :: "string \<Rightarrow> string \<Rightarrow> bool" where
  "containsPattern errMsg pattern \<longleftrightarrow>
     length pattern > 0 \<and> length errMsg \<ge> length pattern \<and>
     (errMsg = pattern \<or>
      length errMsg > length pattern \<and>
        (take (length pattern) errMsg = pattern \<or>
         drop (length errMsg - length pattern) errMsg = pattern \<or>
         contains errMsg pattern))"

definition mapping_answer :: "ErrorMapping \<Rightarrow> answer" where
  "mapping_answer m = ErrorResponse (HTTPStatus m) (emCode m) (emMessage m) GNil"

fun translate_loop :: "ErrorTranslator \<Rightarrow> string \<Rightarrow> string list \<Rightarrow> answer" where
  "translate_loop t errMsg [] = mapping_answer (fallback t)"
| "translate_loop t errMsg (pattern # ps) =
     (case mappings t pattern of
        None \<Rightarrow> translate_loop t errMsg ps
      | Some mapping \<Rightarrow>
          if containsPattern errMsg pattern then mapping_answer mapping
          else translate_loop t errMsg ps)"

definition Translate :: "string list \<Rightarrow> ErrorTranslator \<Rightarrow> string option \<Rightarrow> answer" where
  \<comment> \<open>\<open>order\<close> is the order in which the range over the map visits the patterns; the error is given
     by its text\<close>
  "Translate order t err = (case err of None \<Rightarrow> NoAnswer | Some errMsg \<Rightarrow> translate_loop t errMsg order)"

definition DefaultOrderErrorTranslator :: ErrorTranslator where
  "DefaultOrderErrorTranslator =
     Register ''cart not found'' \<lparr>HTTPStatus = 404, emCode = ''CART_NOT_FOUND'', emMessage = ''Shopping cart not found.''\<rparr>
    (Register ''cart is empty'' \<lparr>HTTPStatus = 400, emCode = ''EMPTY_CART'',
       emMessage = ''Your cart is empty. Add items before placing an order.''\<rparr>
    (Register ''invalid payment'' \<lparr>HTTPStatus = 400, emCode = ''INVALID_PAYMENT'', emMessage = ''Payment validation failed.''\<rparr>
    (Register ''payment failed'' \<lparr>HTTPStatus = 402, emCode = ''PAYMENT_FAILED'',
       emMessage = ''Payment processing failed. Please try again.''\<rparr>
    (Register ''concurrent modification'' \<lparr>HTTPStatus = 409, emCode = ''CONCURRENT_MODIFICATION'',
       emMessage = ''This order was modified by another process. Please refresh and try again.''\<rparr>
    (Register ''order cannot be cancelled'' \<lparr>HTTPStatus = 400, emCode = ''CANNOT_CANCEL'',
       emMessage = ''This order can no longer be cancelled.''\<rparr>
    (Register ''invalid status transition'' \<lparr>HTTPStatus = 400, emCode = ''INVALID_STATUS_TRANSITION'',
       emMessage = ''This order cannot be updated to the requested status.''\<rparr>
    (Register ''insufficient stock'' \<lparr>HTTPStatus = 409, emCode = ''INSUFFICIENT_STOCK'',
       emMessage = ''Some items in your order are no longer available.''\<rparr>
    (Register ''unauthorized access'' \<lparr>HTTPStatus = 403, emCode = ''ACCESS_DENIED'',
       emMessage = ''You don'' @ [CHR 0x27] @ ''t have permission to access this order.''\<rparr>
    (Register ''order not found'' \<lparr>HTTPStatus = 404, emCode = ''ORDER_NOT_FOUND'',
       emMessage = ''The requested order was not found.''\<rparr>
     NewErrorTranslator)))))))))"

section \<open>Pagination\<close>

text \<open>
  \<open>NewPagination\<close> computes the least number of pages, at least one, that holds all items: with
  a positive limit and a count whose rounding does not overflow, the last page starts before the end
  and all pages together reach it; a zero limit panics.
\<close>
theorem NewPagination_pages:
  assumes "0 < sint limit" and "0 \<le> sint count" and "sint count + sint limit - 1 \<le> MaxInt64"
  shows "NewPagination page 0 count = Panic ''runtime error: integer divide by zero'' \<and>
    (\<exists>p. NewPagination page limit count = Ret p \<and> 1 \<le> sint (pg_TotalPages p)
       \<and> sint count \<le> sint (pg_TotalPages p) * sint limit
       \<and> (1 < sint (pg_TotalPages p) \<longrightarrow> (sint (pg_TotalPages p) - 1) * sint limit < sint count))"
proof -
  define l where "l = sint limit"
  define n where "n = sint count"
  have l: "0 < l" and n: "0 \<le> n" and sum: "n + l - 1 \<le> MaxInt64" using assms by (simp_all add: l_def n_def)
  have "n \<le> MaxInt64" "l \<le> MaxInt64"
    using in_i64_sint [of limit] in_i64_sint [of count] unfolding in_i64_def l_def n_def by blast+
  have s: "sint (count + limit - 1) = n + l - 1"
  proof -
    have "count + limit - 1 = word_of_int (n + l - 1)" by (simp add: n_def l_def)
    moreover have "in_i64 (n + l - 1)" using l n sum by (simp add: in_i64_def i64_limits)
    ultimately show ?thesis by (metis sint_of_int_exact)
  qed
  define q where "q = (n + l - 1) div l"
  have q: "0 \<le> q" "q \<le> n + l - 1" using l n zdiv_mono2 [of "n + l - 1" 1 l] by (auto simp: q_def pos_imp_zdiv_nonneg_iff)
  have d: "go_div (count + limit - 1) limit = word_of_int q"
    using l n by (cases "n + l - 1 = 0") (simp_all add: go_div_def s trunc_div_def q_def l_def [symmetric])
  have sq: "sint (word_of_int q :: i64) = q"
    using q sum by (intro sint_of_int_exact) (simp add: in_i64_def i64_limits)
  define r where "r = (n + l - 1) mod l"
  have "n + l - 1 = q * l + r" "0 \<le> r" "r < l" using l by (simp_all add: q_def r_def)
  then have up: "n \<le> q * l" and low: "(q - 1) * l < n" by (simp_all add: left_diff_distrib)
  show ?thesis
  proof (cases "q < 1")
    case True
    then have "NewPagination page limit count = Ret \<lparr>pg_Page = page, pg_Limit = limit, pg_Total = count, pg_TotalPages = 1\<rparr>"
      using l by (auto simp: NewPagination_def d signed_compare sq l_def)
    moreover have "n = 0" using True q up n by (cases "q = 0") auto
    ultimately show ?thesis using l by (simp add: NewPagination_def n_def l_def)
  next
    case False
    then have "NewPagination page limit count = Ret \<lparr>pg_Page = page, pg_Limit = limit, pg_Total = count, pg_TotalPages = word_of_int q\<rparr>"
      using l by (auto simp: NewPagination_def d signed_compare sq l_def)
    with False up low show ?thesis by (simp add: NewPagination_def sq n_def l_def)
  qed
qed

theorem NewPagination_pages_witness:
  "\<exists>p. NewPagination 1 20 41 = Ret p \<and> 41 \<le> sint (pg_TotalPages p) * 20"
  using NewPagination_pages [of 20 41 1] by (auto simp: i64_limits)

section \<open>Error translation\<close>

lemma contains_from_iff: "contains_from s p i \<longleftrightarrow> (\<exists>j\<ge>i. j + length p \<le> length s \<and> take (length p) (drop j s) = p)"
proof (induction s p i rule: contains_from.induct)
  case (1 s p i)
  show ?case
  proof (cases "i + length p \<le> length s \<and> take (length p) (drop i s) \<noteq> p")
    case True
    then have "contains_from s p i = contains_from s p (i + 1)" by (subst contains_from.simps) simp
    with 1 True show ?thesis by (metis Suc_eq_plus1 le_antisym not_less_eq_eq Suc_leD)
  next
    case False
    then show ?thesis by (subst contains_from.simps) (auto intro: exI [of _ i])
  qed
qed

lemma contains_iff: "contains s p \<longleftrightarrow> sublist p s"
proof
  assume "contains s p"
  then obtain j where "take (length p) (drop j s) = p" by (auto simp: contains_def contains_from_iff)
  then have "s = take j s @ p @ drop (length p) (drop j s)" by (metis append_take_drop_id)
  then show "sublist p s" by (metis sublist_def)
next
  assume "sublist p s"
  then obtain a b where "s = a @ p @ b" by (auto simp: sublist_def)
  then show "contains s p" by (auto simp: contains_def contains_from_iff intro!: exI [of _ "length a"])
qed

lemma containsPattern_iff: "containsPattern msg p \<longleftrightarrow> p \<noteq> '''' \<and> sublist p msg"
proof -
  have "sublist p msg" if "take (length p) msg = p" using that take_is_prefix by (metis prefix_imp_sublist)
  moreover have "sublist p msg" if "drop (length msg - length p) msg = p" using that suffix_drop by (metis suffix_imp_sublist)
  moreover have "length p \<le> length msg" if "sublist p msg" using that by (rule sublist_length_le)
  moreover have "msg = p" if "sublist p msg" "length msg = length p"
    using that by (auto simp: sublist_def)
  ultimately show ?thesis unfolding containsPattern_def contains_iff by (auto simp: le_less)
qed

lemma translate_loop_cases:
  "translate_loop t msg order = mapping_answer (fallback t)
     \<and> (\<forall>p\<in>set order. mappings t p \<noteq> None \<longrightarrow> \<not> containsPattern msg p)
   \<or> (\<exists>p m. p \<in> set order \<and> mappings t p = Some m \<and> containsPattern msg p \<and> translate_loop t msg order = mapping_answer m)"
  by (induction order) (auto split: option.splits)

text \<open>
  \<open>Translate\<close> never puts the error's text into the answer: the answer is one of the registered
  mappings, and then its pattern occurs in the text, or the fallback, and then no registered
  pattern does. With one occurring pattern it does not depend on the map's iteration order.
\<close>
theorem Translate_registered_only:
  assumes "set order = dom (mappings t)"
  shows "case err of
     None \<Rightarrow> Translate order t err = NoAnswer
   | Some msg \<Rightarrow>
       (let hits = {p \<in> dom (mappings t). p \<noteq> '''' \<and> sublist p msg} in
          (if hits = {} then Translate order t err = mapping_answer (fallback t)
           else Translate order t err \<in> {mapping_answer m |m p. p \<in> hits \<and> mappings t p = Some m})
        \<and> (\<forall>p m. hits = {p} \<and> mappings t p = Some m \<longrightarrow> Translate order t err = mapping_answer m))"
proof (cases err)
  case None
  then show ?thesis by (simp add: Translate_def)
next
  case (Some msg)
  define hits where "hits = {p \<in> dom (mappings t). p \<noteq> '''' \<and> sublist p msg}"
  have tr: "Translate order t err = translate_loop t msg order" by (simp add: Translate_def Some)
  have c: "translate_loop t msg order = mapping_answer (fallback t) \<and> hits = {}
      \<or> (\<exists>p m. p \<in> hits \<and> mappings t p = Some m \<and> translate_loop t msg order = mapping_answer m)"
    using translate_loop_cases [of t msg order] assms
    unfolding hits_def containsPattern_iff by (auto simp: dom_def)
  then have "if hits = {} then translate_loop t msg order = mapping_answer (fallback t)
      else translate_loop t msg order \<in> {mapping_answer m |m p. p \<in> hits \<and> mappings t p = Some m}" by auto
  moreover have "translate_loop t msg order = mapping_answer m" if "hits = {p}" "mappings t p = Some m" for p m
    using c that by auto
  ultimately show ?thesis unfolding tr hits_def [symmetric] Let_def by (auto simp: Some hits_def [symmetric] split: if_splits)
qed

theorem Translate_registered_only_witness:
  "Translate [''cart is empty''] (Register ''cart is empty'' \<lparr>HTTPStatus = 400, emCode = ''EMPTY_CART'', emMessage = ''Empty.''\<rparr> NewErrorTranslator)
     (Some ''db: secret host'') = ErrorResponse 500 ''INTERNAL_ERROR'' ''An unexpected error occurred. Please try again later.'' GNil"
proof -
  let ?t = "Register ''cart is empty'' \<lparr>HTTPStatus = 400, emCode = ''EMPTY_CART'', emMessage = ''Empty.''\<rparr> NewErrorTranslator"
  have d: "set [''cart is empty''] = dom (mappings ?t)" by (simp add: Register_def NewErrorTranslator_def)
  have "\<not> sublist ''cart is empty'' ''db: secret host''" by (simp flip: Contains_iff)
  then have "{p \<in> dom (mappings ?t). p \<noteq> '''' \<and> sublist p ''db: secret host''} = {}"
    by (auto simp: Register_def NewErrorTranslator_def)
  with Translate_registered_only [OF d, of "Some ''db: secret host''"] show ?thesis
    by (simp add: Let_def mapping_answer_def Register_def NewErrorTranslator_def)
qed

text \<open>
  Two patterns of the order service that occur in one error text give an answer that depends on
  the map's iteration order, which Go leaves open.
\<close>
theorem Translate_order_dependent:
  "\<exists>o1 o2 msg. set o1 = dom (mappings DefaultOrderErrorTranslator) \<and> set o2 = dom (mappings DefaultOrderErrorTranslator)
     \<and> distinct o1 \<and> distinct o2
     \<and> Translate o1 DefaultOrderErrorTranslator (Some msg) \<noteq> Translate o2 DefaultOrderErrorTranslator (Some msg)"
proof -
  let ?rest = "[''unauthorized access'', ''insufficient stock'', ''invalid status transition'', ''order cannot be cancelled'',
     ''concurrent modification'', ''payment failed'', ''invalid payment'', ''cart is empty'']"
  let ?o1 = "''order not found'' # ''cart not found'' # ?rest" and ?o2 = "''cart not found'' # ''order not found'' # ?rest"
  let ?msg = "''order not found, cart not found''"
  have "containsPattern ?msg ''order not found''" "containsPattern ?msg ''cart not found''"
    unfolding containsPattern_iff by (simp_all flip: Contains_iff)
  then have "Translate ?o1 DefaultOrderErrorTranslator (Some ?msg) \<noteq> Translate ?o2 DefaultOrderErrorTranslator (Some ?msg)"
    by (simp add: Translate_def DefaultOrderErrorTranslator_def Register_def mapping_answer_def ErrorResponse_def)
  moreover have "set ?o1 = dom (mappings DefaultOrderErrorTranslator)" "set ?o2 = dom (mappings DefaultOrderErrorTranslator)"
    by (auto simp: DefaultOrderErrorTranslator_def Register_def NewErrorTranslator_def)
  moreover have "distinct ?o1" "distinct ?o2" by simp_all
  ultimately show ?thesis by blast
qed

end
