(* ===== verification/Jwt.thy ===== *)
theory Jwt
  imports GoFloat GoStrings "HOL-Library.Countable"
begin

text \<open>
  \<open>auth/jwt.go\<close>: minting and validation of access, refresh and temporary tokens. The JWT package
  is the record \<open>jwt\<close>, with the documented behaviour the manager relies on in \<open>jwt_laws\<close>: dates
  are cut to seconds, a token signed with HS256 parses back to its claims under a key function that
  gives the same secret, the time claims are checked after the signature, and a token whose method
  the key function refuses does not parse. Clock readings and UUIDs are arguments.
\<close>

section \<open>Model\<close>

datatype token_error = ErrInvalidToken | ErrExpiredToken | ErrWrongTokenType

datatype signing_method = SigningMethodHMAC nat | SigningMethodOther string

abbreviation HS256 :: signing_method where
  "HS256 \<equiv> SigningMethodHMAC 256"

record Claims =
  UserID :: string
  Email :: string
  Role :: string
  TokenType :: string
  Purpose :: string
  ExpiresAt :: "Time option"
  IssuedAt :: "Time option"
  NotBefore :: "Time option"
  cID :: string
  Subject :: string

datatype parse_fault = ErrTokenExpired | ErrTokenNotValidYet | ErrTokenUnverifiable | ErrTokenOther string

record jwt =
  NewNumericDate :: "Time \<Rightarrow> Time"
  SignedString :: "signing_method \<Rightarrow> string \<Rightarrow> Claims \<Rightarrow> string + string"
  ParseWithClaims :: "(signing_method \<Rightarrow> token_error + string) \<Rightarrow> Time \<Rightarrow> string \<Rightarrow> parse_fault list + Claims \<times> bool"
  ParseUnverified :: "string \<Rightarrow> parse_fault list + signing_method \<times> Claims"

record TokenPair =
  AccessToken :: string
  RefreshToken :: string
  ExpiresIn :: i64

record JWTManager =
  secretKey :: string
  accessTokenTTL :: Duration
  refreshTokenTTL :: Duration

definition TokenTypeAccess :: string where
  "TokenTypeAccess = ''access''"
definition TokenTypeRefresh :: string where
  "TokenTypeRefresh = ''refresh''"
definition TokenTypeTemp :: string where
  "TokenTypeTemp = ''temp''"

definition NewJWTManager :: "string \<Rightarrow> Duration \<Rightarrow> Duration \<Rightarrow> JWTManager" where
  "NewJWTManager secret access refresh =
     \<lparr>secretKey = secret, accessTokenTTL = access, refreshTokenTTL = refresh\<rparr>"

definition token_claims ::
  "jwt \<Rightarrow> Time \<Rightarrow> string \<Rightarrow> string \<Rightarrow> string \<Rightarrow> string \<Rightarrow> string \<Rightarrow> Duration \<Rightarrow> string \<Rightarrow> Claims" where
  "token_claims J now newID userID email role purpose ttl tokenType =
     \<lparr>UserID = userID, Email = email, Role = role, TokenType = tokenType, Purpose = purpose,
      ExpiresAt = Some (NewNumericDate J (AddT now ttl)), IssuedAt = Some (NewNumericDate J now),
      NotBefore = Some (NewNumericDate J now), cID = newID, Subject = userID\<rparr>"

definition generateToken ::
  "jwt \<Rightarrow> Time \<Rightarrow> string \<Rightarrow> JWTManager \<Rightarrow> string \<Rightarrow> string \<Rightarrow> string \<Rightarrow> string \<Rightarrow> Duration \<Rightarrow> string \<Rightarrow> string + string" where
  "generateToken J now newID m userID email role purpose ttl tokenType =
     SignedString J HS256 (secretKey m) (token_claims J now newID userID email role purpose ttl tokenType)"

definition Seconds :: "Duration \<Rightarrow> float64" where
  \<comment> \<open>\<open>Duration.Seconds\<close>\<close>
  "Seconds d = (let sec = trunc_div d Second; nsec = d - sec * Second
                in fadd (float_of_int sec) (fdiv (float_of_int nsec) (float_of_int 1000000000)))"

definition GenerateTokenPair ::
  "jwt \<Rightarrow> (float64 \<Rightarrow> i64) \<Rightarrow> Time \<Rightarrow> string \<Rightarrow> Time \<Rightarrow> string \<Rightarrow> JWTManager \<Rightarrow> string \<Rightarrow> string \<Rightarrow> string
     \<Rightarrow> string + TokenPair" where
  "GenerateTokenPair J conv now1 id1 now2 id2 m userID email role =
     (case generateToken J now1 id1 m userID email role '''' (accessTokenTTL m) TokenTypeAccess of
        Inl err \<Rightarrow> Inl err
      | Inr accessToken \<Rightarrow>
          (case generateToken J now2 id2 m userID email role '''' (refreshTokenTTL m) TokenTypeRefresh of
             Inl err \<Rightarrow> Inl err
           | Inr refreshToken \<Rightarrow>
               Inr \<lparr>AccessToken = accessToken, RefreshToken = refreshToken,
                    ExpiresIn = to_int64 conv (Seconds (accessTokenTTL m))\<rparr>))"

definition GenerateTempToken ::
  "jwt \<Rightarrow> Time \<Rightarrow> string \<Rightarrow> JWTManager \<Rightarrow> string \<Rightarrow> string \<Rightarrow> string \<Rightarrow> string + string" where
  "GenerateTempToken J now newID m userID email purpose =
     generateToken J now newID m userID email purpose purpose (5 * Minute) TokenTypeTemp"

definition key_func :: "JWTManager \<Rightarrow> signing_method \<Rightarrow> token_error + string" where
  "key_func m method =
     (case method of SigningMethodHMAC _ \<Rightarrow> Inr (secretKey m) | SigningMethodOther _ \<Rightarrow> Inl ErrInvalidToken)"

definition parseToken :: "jwt \<Rightarrow> JWTManager \<Rightarrow> Time \<Rightarrow> string \<Rightarrow> token_error + Claims" where
  \<comment> \<open>the claims have the type they were parsed into\<close>
  "parseToken J m now tokenString =
     (case ParseWithClaims J (key_func m) now tokenString of
        Inl errs \<Rightarrow> if ErrTokenExpired \<in> set errs then Inl ErrExpiredToken else Inl ErrInvalidToken
      | Inr (claims, valid) \<Rightarrow> if \<not> valid then Inl ErrInvalidToken else Inr claims)"

definition ValidateTokenOfType :: "jwt \<Rightarrow> JWTManager \<Rightarrow> Time \<Rightarrow> string \<Rightarrow> string \<Rightarrow> token_error + Claims" where
  "ValidateTokenOfType J m now tokenString want =
     (case parseToken J m now tokenString of
        Inl err \<Rightarrow> Inl err
      | Inr claims \<Rightarrow> if TokenType claims \<noteq> want then Inl ErrWrongTokenType else Inr claims)"

definition ValidateToken :: "jwt \<Rightarrow> JWTManager \<Rightarrow> Time \<Rightarrow> string \<Rightarrow> token_error + Claims" where
  "ValidateToken J m now tokenString = ValidateTokenOfType J m now tokenString TokenTypeAccess"

definition ExtractClaims :: "jwt \<Rightarrow> string \<Rightarrow> parse_fault list + Claims" where
  "ExtractClaims J tokenString =
     (case ParseUnverified J tokenString of Inl err \<Rightarrow> Inl err | Inr (method, claims) \<Rightarrow> Inr claims)"

section \<open>What the JWT package promises\<close>

definition to_second :: "Time \<Rightarrow> Time" where
  "to_second t = Time (nanos t - nanos t mod Second)"

definition ascii :: "string \<Rightarrow> bool" where
  "ascii s \<longleftrightarrow> (\<forall>c \<in> set s. (of_char c :: nat) < 128)"

definition ascii_claims :: "Claims \<Rightarrow> bool" where
  "ascii_claims c \<longleftrightarrow> (\<forall>s \<in> {UserID c, Email c, Role c, TokenType c, Purpose c, cID c, Subject c}. ascii s)"

definition time_faults :: "Time \<Rightarrow> Claims \<Rightarrow> parse_fault list" where
  "time_faults now c =
     (case ExpiresAt c of None \<Rightarrow> [] | Some e \<Rightarrow> if now < e then [] else [ErrTokenExpired])
     @ (case NotBefore c of None \<Rightarrow> [] | Some b \<Rightarrow> if now < b then [ErrTokenNotValidYet] else [])"

definition jwt_laws :: "jwt \<Rightarrow> bool" where
  "jwt_laws J \<longleftrightarrow>
     (\<forall>t. NewNumericDate J t = to_second t)
     \<and> (\<forall>secret c tok. ascii_claims c \<longrightarrow> SignedString J HS256 secret c = Inr tok \<longrightarrow>
          ParseUnverified J tok = Inr (HS256, c)
          \<and> (\<forall>kf now. kf HS256 = Inr secret \<longrightarrow> ParseWithClaims J kf now tok =
               (if time_faults now c = [] then Inr (c, True) else Inl (time_faults now c))))
     \<and> (\<forall>tok method c kf now err. ParseUnverified J tok = Inr (method, c) \<longrightarrow> kf method = Inl err \<longrightarrow>
          ParseWithClaims J kf now tok = Inl [ErrTokenUnverifiable])"

section \<open>Tokens are accepted for their purpose only\<close>

lemma jwt_lawsD:
  assumes "jwt_laws J"
  shows "NewNumericDate J t = to_second t"
    and "ascii_claims c \<Longrightarrow> SignedString J HS256 secret c = Inr tok \<Longrightarrow> ParseUnverified J tok = Inr (HS256, c)"
    and "ascii_claims c \<Longrightarrow> SignedString J HS256 secret c = Inr tok \<Longrightarrow> kf HS256 = Inr secret \<Longrightarrow>
      ParseWithClaims J kf now tok = (if time_faults now c = [] then Inr (c, True) else Inl (time_faults now c))"
    and "ParseUnverified J tok = Inr (method, c) \<Longrightarrow> kf method = Inl err \<Longrightarrow>
      ParseWithClaims J kf now tok = Inl [ErrTokenUnverifiable]"
  using assms unfolding jwt_laws_def by blast+

lemma generated_token:
  assumes "jwt_laws J" and "generateToken J t newID m userID email role purpose ttl typ = Inr tok"
    and "ascii_claims (token_claims J t newID userID email role purpose ttl typ)"
  shows "ValidateTokenOfType J m now tok want =
     (if to_second (AddT t ttl) \<le> now then Inl ErrExpiredToken
      else if now < to_second t then Inl ErrInvalidToken
      else if typ = want then Inr (token_claims J t newID userID email role purpose ttl typ)
      else Inl ErrWrongTokenType)"
proof -
  let ?c = "token_claims J t newID userID email role purpose ttl typ"
  have "ParseWithClaims J (key_func m) now tok
      = (if time_faults now ?c = [] then Inr (?c, True) else Inl (time_faults now ?c))"
    using assms(2,3) by (intro jwt_lawsD(3) [OF assms(1), where secret = "secretKey m"])
      (simp_all add: generateToken_def key_func_def)
  moreover have "time_faults now ?c = (if to_second (AddT t ttl) \<le> now then [ErrTokenExpired] else [])
      @ (if now < to_second t then [ErrTokenNotValidYet] else [])"
    by (simp add: time_faults_def token_claims_def jwt_lawsD(1) [OF assms(1)] not_le)
  moreover have "TokenType ?c = typ" by (simp add: token_claims_def)
  ultimately show ?thesis by (simp add: ValidateTokenOfType_def parseToken_def)
qed

lemma ascii_parts:
  assumes "\<forall>s \<in> {userID, email, role, purpose, newID}. ascii s" and "typ \<in> {TokenTypeAccess, TokenTypeRefresh, TokenTypeTemp}"
  shows "ascii_claims (token_claims J t newID userID email role purpose ttl typ)"
proof -
  have "ascii TokenTypeAccess" "ascii TokenTypeRefresh" "ascii TokenTypeTemp" by code_simp+
  with assms show ?thesis by (auto simp: ascii_claims_def token_claims_def)
qed

lemma ascii_Nil [simp]: "ascii []"
  by (simp add: ascii_def)

text \<open>
  C17. Purpose: of the tokens a manager mints, \<open>ValidateToken\<close> accepts the access token, from the
  second it was minted until its lifetime, cut to seconds, has passed, and returns the user's
  identity and role. An unexpired refresh token or temporary token is refused with
  \<open>ErrWrongTokenType\<close>, and a refresh token passes only where one is asked for.
\<close>
theorem token_purposes:
  assumes "jwt_laws J" and "\<forall>s \<in> {userID, email, role, purpose, id1, id2, id3}. ascii s"
    and "GenerateTokenPair J conv t1 id1 t2 id2 m userID email role = Inr pair"
    and "GenerateTempToken J t3 id3 m userID email purpose = Inr temp"
  shows "ValidateToken J m now (AccessToken pair) =
       (if to_second (AddT t1 (accessTokenTTL m)) \<le> now then Inl ErrExpiredToken
        else if now < to_second t1 then Inl ErrInvalidToken
        else Inr (token_claims J t1 id1 userID email role '''' (accessTokenTTL m) TokenTypeAccess))
     \<and> ValidateToken J m now (RefreshToken pair) =
       (if to_second (AddT t2 (refreshTokenTTL m)) \<le> now then Inl ErrExpiredToken
        else if now < to_second t2 then Inl ErrInvalidToken else Inl ErrWrongTokenType)
     \<and> ValidateToken J m now temp =
       (if to_second (AddT t3 (5 * Minute)) \<le> now then Inl ErrExpiredToken
        else if now < to_second t3 then Inl ErrInvalidToken else Inl ErrWrongTokenType)
     \<and> ((\<exists>c. ValidateTokenOfType J m now (RefreshToken pair) want = Inr c) \<longleftrightarrow>
          want = TokenTypeRefresh \<and> to_second t2 \<le> now \<and> now < to_second (AddT t2 (refreshTokenTTL m)))"
proof -
  have types: "TokenTypeAccess \<noteq> TokenTypeRefresh" "TokenTypeTemp \<noteq> TokenTypeAccess"
    by (simp_all add: TokenTypeAccess_def TokenTypeRefresh_def TokenTypeTemp_def)
  from assms(3) have
    a: "generateToken J t1 id1 m userID email role '''' (accessTokenTTL m) TokenTypeAccess = Inr (AccessToken pair)"
    and r: "generateToken J t2 id2 m userID email role '''' (refreshTokenTTL m) TokenTypeRefresh = Inr (RefreshToken pair)"
    by (auto simp: GenerateTokenPair_def split: sum.splits)
  note a' = generated_token [OF assms(1) a ascii_parts]
    and r' = generated_token [OF assms(1) r ascii_parts]
    and t' = generated_token [OF assms(1) assms(4) [unfolded GenerateTempToken_def] ascii_parts]
  have A: "ValidateTokenOfType J m now (AccessToken pair) TokenTypeAccess =
       (if to_second (AddT t1 (accessTokenTTL m)) \<le> now then Inl ErrExpiredToken
        else if now < to_second t1 then Inl ErrInvalidToken
        else Inr (token_claims J t1 id1 userID email role '''' (accessTokenTTL m) TokenTypeAccess))"
    using assms(2) by (subst a') simp_all
  have R: "ValidateTokenOfType J m now (RefreshToken pair) w =
       (if to_second (AddT t2 (refreshTokenTTL m)) \<le> now then Inl ErrExpiredToken
        else if now < to_second t2 then Inl ErrInvalidToken
        else if TokenTypeRefresh = w then Inr (token_claims J t2 id2 userID email role '''' (refreshTokenTTL m) TokenTypeRefresh)
        else Inl ErrWrongTokenType)" for w
    using assms(2) by (subst r') simp_all
  have T: "ValidateTokenOfType J m now temp TokenTypeAccess =
       (if to_second (AddT t3 (5 * Minute)) \<le> now then Inl ErrExpiredToken
        else if now < to_second t3 then Inl ErrInvalidToken else Inl ErrWrongTokenType)"
    using assms(2) types by (subst t') simp_all
  show ?thesis unfolding ValidateToken_def A R T using types by (auto simp: not_le not_less)
qed

lemma foreign_method_refused:
  assumes "jwt_laws J" and "ParseUnverified J tok = Inr (SigningMethodOther alg, c)"
  shows "ValidateTokenOfType J m now tok want = Inl ErrInvalidToken"
  using jwt_lawsD(4) [OF assms, of "key_func m" ErrInvalidToken now]
  by (simp add: ValidateTokenOfType_def parseToken_def key_func_def)

section \<open>A JWT package that keeps the laws\<close>

text \<open>
  Claims and secret are numbered and the number is written in unary, so every token decodes to the
  claims and the secret it was made with.
\<close>

definition pack :: "Claims \<Rightarrow> (string list \<times> int option list)" where
  "pack c = ([UserID c, Email c, Role c, TokenType c, Purpose c, cID c, Subject c],
     [map_option nanos (ExpiresAt c), map_option nanos (IssuedAt c), map_option nanos (NotBefore c)])"

definition unpack :: "string list \<times> int option list \<Rightarrow> Claims" where
  "unpack p = (let (s, t) = p in
     \<lparr>UserID = s ! 0, Email = s ! 1, Role = s ! 2, TokenType = s ! 3, Purpose = s ! 4,
      ExpiresAt = map_option Time (t ! 0), IssuedAt = map_option Time (t ! 1),
      NotBefore = map_option Time (t ! 2), cID = s ! 5, Subject = s ! 6\<rparr>)"

lemma unpack_pack [simp]: "unpack (pack c) = c"
  by (cases c) (simp add: unpack_def pack_def option.map_comp option.map_ident o_def)

definition unary_token :: "string \<Rightarrow> Claims \<Rightarrow> string" where
  "unary_token secret c = replicate (to_nat (secret, pack c)) CHR ''a''"

definition token_parts :: "string \<Rightarrow> string \<times> Claims" where
  "token_parts tok = (let (secret, p) = from_nat (length tok) in (secret, unpack p))"

lemma token_parts [simp]: "token_parts (unary_token secret c) = (secret, c)"
  by (simp add: token_parts_def unary_token_def)

definition unary_jwt :: jwt where
  "unary_jwt =
     \<lparr>NewNumericDate = to_second,
      SignedString = \<lambda>method secret c. if method = HS256 then Inr (unary_token secret c) else Inl ''unavailable'',
      ParseWithClaims = \<lambda>kf now tok.
        (case kf HS256 of
           Inl err \<Rightarrow> Inl [ErrTokenUnverifiable]
         | Inr secret \<Rightarrow>
             (let (signer, c) = token_parts tok
              in if signer \<noteq> secret then Inl [ErrTokenOther ''signature is invalid'']
                 else if time_faults now c = [] then Inr (c, True) else Inl (time_faults now c))),
      ParseUnverified = \<lambda>tok. Inr (HS256, snd (token_parts tok))\<rparr>"

lemma unary_jwt_laws: "jwt_laws unary_jwt"
  by (auto simp: jwt_laws_def unary_jwt_def)

lemma unary_sign [simp]: "SignedString unary_jwt HS256 secret c = Inr (unary_token secret c)"
  by (simp add: unary_jwt_def)

definition sample_manager :: JWTManager where
  "sample_manager = NewJWTManager ''s3cret'' (15 * Minute) (24 * Hour)"

definition sample_pair :: TokenPair where
  "sample_pair =
     \<lparr>AccessToken = unary_token ''s3cret'' (token_claims unary_jwt (Time 0) ''i1'' ''u1'' ''a@b.my'' ''admin'' '''' (15 * Minute) TokenTypeAccess),
      RefreshToken = unary_token ''s3cret'' (token_claims unary_jwt (Time 0) ''i2'' ''u1'' ''a@b.my'' ''admin'' '''' (24 * Hour) TokenTypeRefresh),
      ExpiresIn = to_int64 (\<lambda>_. 0) (Seconds (15 * Minute))\<rparr>"

theorem token_purposes_witness:
  "(\<exists>c. ValidateToken unary_jwt sample_manager (Time Minute) (AccessToken sample_pair) = Inr c \<and> Role c = ''admin'')
   \<and> ValidateToken unary_jwt sample_manager (Time (16 * Minute)) (AccessToken sample_pair) = Inl ErrExpiredToken
   \<and> ValidateToken unary_jwt sample_manager (Time Minute) (RefreshToken sample_pair) = Inl ErrWrongTokenType"
proof -
  have a: "\<forall>s \<in> {''u1'', ''a@b.my'', ''admin'', ''2fa_pending'', ''i1'', ''i2'', ''i3''}. ascii s" by code_simp
  have p: "GenerateTokenPair unary_jwt (\<lambda>_. 0) (Time 0) ''i1'' (Time 0) ''i2'' sample_manager ''u1'' ''a@b.my'' ''admin'' = Inr sample_pair"
    by (simp add: GenerateTokenPair_def generateToken_def sample_manager_def NewJWTManager_def sample_pair_def)
  have "\<exists>temp. GenerateTempToken unary_jwt (Time 0) ''i3'' sample_manager ''u1'' ''a@b.my'' ''2fa_pending'' = Inr temp"
    by (simp add: GenerateTempToken_def generateToken_def)
  then obtain temp where
    t: "GenerateTempToken unary_jwt (Time 0) ''i3'' sample_manager ''u1'' ''a@b.my'' ''2fa_pending'' = Inr temp" by blast
  note purposes = token_purposes [OF unary_jwt_laws a p t]
  show ?thesis
    using purposes [of "Time Minute" TokenTypeAccess] purposes [of "Time (16 * Minute)" TokenTypeAccess]
    by (simp add: sample_manager_def NewJWTManager_def to_second_def time_order duration_units token_claims_def)
qed

end
