(* ===== verification/HttpContext.thy ===== *)
theory HttpContext
  imports Response Jwt
begin

text \<open>
  The part of gin that the middleware packages use: a request with its headers and cookies, the
  values middleware stores in the context, the response headers set so far, and the handler chain.
  A handler passes the context on (\<open>c.Next()\<close>) or answers and aborts. The interface of the guards,
  the handlers that only decide, is the locale \<open>guard\<close>.
\<close>

section \<open>Requests, contexts, handlers\<close>

record http_request =
  rMethod :: string
  rPath :: string
  rHeader :: "string \<rightharpoonup> string"
  rCookie :: "string \<rightharpoonup> string"
  rClientIP :: string

datatype cvalue = CString string | CClaims Claims | CMap "string \<rightharpoonup> string" | COther
  \<comment> \<open>values under a context key, as far as the library's type assertions tell them apart; \<open>CMap\<close> is
     a \<open>map[string]interface{}\<close> reduced to its string entries\<close>

record http_context =
  creq :: http_request
  ckeys :: "string \<rightharpoonup> cvalue"
  cout :: "string \<rightharpoonup> string"

datatype verdict = Continue http_context | Stop answer http_context

type_synonym handler = "http_context \<Rightarrow> verdict"

definition GetHeader :: "string \<Rightarrow> http_context \<Rightarrow> string" where
  "GetHeader name c = (case rHeader (creq c) name of None \<Rightarrow> '''' | Some v \<Rightarrow> v)"

definition Cookie :: "string \<Rightarrow> http_context \<Rightarrow> string option" where
  \<comment> \<open>\<open>None\<close> is the error of an absent cookie\<close>
  "Cookie name c = rCookie (creq c) name"

definition SetKey :: "string \<Rightarrow> cvalue \<Rightarrow> http_context \<Rightarrow> http_context" where
  "SetKey k v c = c\<lparr>ckeys := (ckeys c)(k \<mapsto> v)\<rparr>"

definition SetHeader :: "string \<Rightarrow> string \<Rightarrow> http_context \<Rightarrow> http_context" where
  "SetHeader k v c = c\<lparr>cout := (cout c)(k \<mapsto> v)\<rparr>"

fun chain :: "handler list \<Rightarrow> handler" where
  "chain [] c = Continue c"
| "chain (h # hs) c = (case h c of Continue c' \<Rightarrow> chain hs c' | Stop a c' \<Rightarrow> Stop a c')"

definition start :: "http_request \<Rightarrow> http_context" where
  "start r = \<lparr>creq = r, ckeys = Map.empty, cout = Map.empty\<rparr>"

lemma ctx_simps [simp]:
  "creq (SetKey k v c) = creq c" "cout (SetKey k v c) = cout c" "ckeys (SetKey k v c) = (ckeys c)(k \<mapsto> v)"
  "creq (SetHeader k w c) = creq c" "ckeys (SetHeader k w c) = ckeys c" "cout (SetHeader k w c) = (cout c)(k \<mapsto> w)"
  by (simp_all add: SetKey_def SetHeader_def)

lemma chain_append: "chain (gs @ hs) c = (case chain gs c of Continue c' \<Rightarrow> chain hs c' | Stop a c' \<Rightarrow> Stop a c')"
  by (induction gs arbitrary: c) (auto split: verdict.splits)

definition passes :: "handler \<Rightarrow> http_context \<Rightarrow> bool" where
  "passes h c \<longleftrightarrow> (\<exists>c'. h c = Continue c')"

fun answer_status :: "answer \<Rightarrow> nat option" where
  "answer_status NoAnswer = None"
| "answer_status (StatusOnly n) = Some n"
| "answer_status (JSON n r) = Some n"

section \<open>Interface: a guard\<close>

text \<open>
  A guard decides on a request and leaves everything else alone: it passes the context on as it is,
  or refuses it with status 401 or 403.
\<close>

locale guard =
  fixes h :: handler
  assumes pass_same: "h c = Continue c' \<Longrightarrow> c' = c"
    and stop_same: "h c = Stop a c' \<Longrightarrow> c' = c"
    and stop_status: "h c = Stop a c' \<Longrightarrow> answer_status a = Some 401 \<or> answer_status a = Some 403"
begin

lemma cases: "h c = Continue c \<or> (\<exists>a. h c = Stop a c \<and> \<not> passes h c)"
  by (cases "h c") (auto simp: passes_def dest: pass_same stop_same)

lemma passed: "passes h c \<Longrightarrow> h c = Continue c"
  using cases by (auto simp: passes_def)

lemma passes_iff: "h c = Continue c' \<longleftrightarrow> passes h c \<and> c' = c"
  using passed pass_same by (auto simp: passes_def)

lemma chain_front: "chain (h # hs) c = Continue c' \<longleftrightarrow> passes h c \<and> chain hs c = Continue c'"
  using cases [of c] by (auto simp: passes_def)

lemma chain_back: "chain (gs @ [h]) c = Continue c' \<longleftrightarrow> chain gs c = Continue c' \<and> passes h c'"
  unfolding chain_append by (cases "chain gs c") (auto simp: passes_iff passed split: verdict.splits)

end

end
