(* ===== verification/RateLimit.thy ===== *)
theory RateLimit
  imports GoFloat HttpContext
begin

text \<open>
  \<open>middleware/ratelimit.go\<close>: one token bucket per client address, and one such table per endpoint.
  The bucket itself (\<open>golang.org/x/time/rate\<close>) is the record \<open>rate_pkg\<close> of its two operations over
  an arbitrary state. A limiter is shared by pointer, so \<open>Allow\<close> writes its new state back into the
  table.
\<close>

section \<open>Model\<close>

record 'l rate_pkg =
  NewLimiter :: "float64 \<Rightarrow> int \<Rightarrow> 'l"
  Allow :: "Time \<Rightarrow> 'l \<Rightarrow> bool \<times> 'l"

text \<open>
  Of the channel \<open>done\<close> the model keeps whether it is closed (\<open>shut\<close>), and of the cleanup goroutines
  how many run on the limiter.
\<close>

record 'l RateLimiter =
  limiters :: "string \<rightharpoonup> 'l"
  lrate :: float64
  burst :: int
  shut :: bool
  cleaners :: nat

definition NewRateLimiter :: "int \<Rightarrow> int \<Rightarrow> 'l RateLimiter" where
  "NewRateLimiter requestsPerSecond b =
     \<lparr>limiters = Map.empty, lrate = float_of_int requestsPerSecond, burst = b, shut = False, cleaners = 0\<rparr>"

definition getLimiter :: "'l rate_pkg \<Rightarrow> string \<Rightarrow> 'l RateLimiter \<Rightarrow> 'l \<times> 'l RateLimiter" where
  "getLimiter P key rl =
     (case limiters rl key of
        Some limiter \<Rightarrow> (limiter, rl)
      | None \<Rightarrow>
          (let limiter = NewLimiter P (lrate rl) (burst rl)
           in (limiter, rl\<lparr>limiters := (limiters rl)(key \<mapsto> limiter)\<rparr>)))"

definition allow_ip :: "'l rate_pkg \<Rightarrow> Time \<Rightarrow> string \<Rightarrow> 'l RateLimiter \<Rightarrow> bool \<times> 'l RateLimiter" where
  "allow_ip P now ip rl =
     (let (limiter, rl) = getLimiter P ip rl; (ok, limiter) = Allow P now limiter
      in (ok, rl\<lparr>limiters := (limiters rl)(ip \<mapsto> limiter)\<rparr>))"

datatype limit_verdict = Passed | TooMany string

definition RateLimit :: "'l rate_pkg \<Rightarrow> Time \<Rightarrow> http_request \<Rightarrow> 'l RateLimiter \<Rightarrow> limit_verdict \<times> 'l RateLimiter" where
  \<comment> \<open>status 429 with its message, or the request passed on\<close>
  "RateLimit P now r rl =
     (let (ok, rl) = allow_ip P now (rClientIP r) rl
      in (if \<not> ok then TooMany ''Too many requests. Please try again later.'' else Passed, rl))"

definition CleanupLimiters :: "'l RateLimiter \<Rightarrow> 'l RateLimiter" where
  \<comment> \<open>starts a cleanup goroutine\<close>
  "CleanupLimiters rl = rl\<lparr>cleaners := cleaners rl + 1\<rparr>"

datatype cleanup_wake = Tick | Closed

fun cleanup_round :: "cleanup_wake \<Rightarrow> 'l RateLimiter \<Rightarrow> 'l RateLimiter" where
  \<comment> \<open>one round of its \<open>select\<close>: the hourly tick, or the closed channel, at which it returns\<close>
  "cleanup_round Tick rl = rl\<lparr>limiters := Map.empty\<rparr>"
| "cleanup_round Closed rl = rl\<lparr>cleaners := cleaners rl - 1\<rparr>"

definition Shutdown :: "'l RateLimiter \<Rightarrow> 'l RateLimiter go" where
  "Shutdown rl = (if shut rl then Panic ''close of closed channel'' else Ret (rl\<lparr>shut := True\<rparr>))"

type_synonym 'l EndpointRateLimiter = "string \<rightharpoonup> 'l RateLimiter"

definition NewEndpointRateLimiter :: "'l EndpointRateLimiter" where
  "NewEndpointRateLimiter = Map.empty"

definition endpoint_limiter :: "int \<Rightarrow> int \<Rightarrow> 'l RateLimiter" where
  "endpoint_limiter requestsPerMinute b =
     (let rps = fdiv (float_of_int requestsPerMinute) (Fin 60);
          rps = (if fless rps (round64 (1 / 10)) then round64 (1 / 10) else rps)
      in CleanupLimiters \<lparr>limiters = Map.empty, lrate = rps, burst = b, shut = False, cleaners = 0\<rparr>)"

definition Configure :: "string \<Rightarrow> int \<Rightarrow> int \<Rightarrow> 'l EndpointRateLimiter \<Rightarrow> 'l EndpointRateLimiter" where
  "Configure endpoint requestsPerMinute b erl = erl(endpoint \<mapsto> endpoint_limiter requestsPerMinute b)"

definition Limit ::
  "'l rate_pkg \<Rightarrow> Time \<Rightarrow> string \<Rightarrow> int \<Rightarrow> http_request \<Rightarrow> 'l EndpointRateLimiter
     \<Rightarrow> limit_verdict \<times> 'l EndpointRateLimiter" where
  "Limit P now endpoint defaultRPM r erl =
     (let erl = (if erl endpoint = None then Configure endpoint defaultRPM (trunc_div defaultRPM 10 + 1) erl else erl);
          (ok, limiter) = allow_ip P now (rClientIP r) (the (erl endpoint))
      in (if \<not> ok then TooMany ''Too many requests. Please slow down and try again.'' else Passed,
          erl(endpoint \<mapsto> limiter)))"

fun shutdown_loop :: "string list \<Rightarrow> 'l EndpointRateLimiter \<Rightarrow> 'l EndpointRateLimiter go" where
  "shutdown_loop [] erl = Ret erl"
| "shutdown_loop (e # order) erl =
     (case erl e of
        None \<Rightarrow> shutdown_loop order erl
      | Some limiter \<Rightarrow>
          (case Shutdown limiter of
             Panic p \<Rightarrow> Panic p
           | Ret limiter \<Rightarrow> shutdown_loop order (erl(e \<mapsto> limiter))))"

definition Endpoint_Shutdown :: "string list \<Rightarrow> 'l EndpointRateLimiter \<Rightarrow> 'l EndpointRateLimiter go" where
  \<comment> \<open>\<open>order\<close> is the order in which \<open>range\<close> yields the endpoints\<close>
  "Endpoint_Shutdown order erl = shutdown_loop order erl"

definition PaymentRateLimiter :: "'l EndpointRateLimiter" where
  "PaymentRateLimiter =
     Configure ''/api/v1/payment/webhook'' 100 20
       (Configure ''/api/v1/payment/curlec/verify'' 10 3
         (Configure ''/api/v1/payment/curlec/initiate'' 3 1
           (Configure ''/api/v1/payment/process'' 5 2 NewEndpointRateLimiter)))"

section \<open>A table of limiters is a registry\<close>

definition limiter_get :: "'l rate_pkg \<Rightarrow> string \<Rightarrow> float64 \<times> int \<Rightarrow> (string \<rightharpoonup> 'l) \<Rightarrow> 'l \<times> (string \<rightharpoonup> 'l)" where
  "limiter_get P key c m =
     (let (l, rl) = getLimiter P key \<lparr>limiters = m, lrate = fst c, burst = snd c, shut = False, cleaners = 0\<rparr> in (l, limiters rl))"

interpretation limiters: registry "limiter_get P" "\<lambda>key c. NewLimiter P (fst c) (snd c)" for P
  by unfold_locales (simp_all add: limiter_get_def getLimiter_def Let_def)

lemma getLimiter_get:
  "getLimiter P key rl =
     (let (l, m) = limiter_get P key (lrate rl, burst rl) (limiters rl) in (l, rl\<lparr>limiters := m\<rparr>))"
  by (auto simp: limiter_get_def getLimiter_def Let_def split: option.splits)

section \<open>Clients do not influence each other\<close>

definition bucket :: "'l rate_pkg \<Rightarrow> string \<Rightarrow> 'l RateLimiter \<Rightarrow> 'l" where
  \<comment> \<open>the bucket of a client, existing or to be created\<close>
  "bucket P ip rl = (case limiters rl ip of Some l \<Rightarrow> l | None \<Rightarrow> NewLimiter P (lrate rl) (burst rl))"

fun serve_all :: "'l rate_pkg \<Rightarrow> (Time \<times> http_request) list \<Rightarrow> 'l RateLimiter \<Rightarrow> (string \<times> bool) list" where
  \<comment> \<open>who was let through, in the order of the requests\<close>
  "serve_all P [] rl = []"
| "serve_all P ((now, r) # reqs) rl =
     (let (v, rl) = RateLimit P now r rl in (rClientIP r, v = Passed) # serve_all P reqs rl)"

fun bucket_run :: "'l rate_pkg \<Rightarrow> Time list \<Rightarrow> 'l \<Rightarrow> bool list" where
  "bucket_run P [] l = []"
| "bucket_run P (now # ts) l = (let (ok, l) = Allow P now l in ok # bucket_run P ts l)"

lemma allow_ip_bucket:
  "allow_ip P now ip rl =
     (let (ok, l) = Allow P now (bucket P ip rl) in (ok, rl\<lparr>limiters := (limiters rl)(ip \<mapsto> l)\<rparr>))"
  by (simp add: allow_ip_def getLimiter_def bucket_def Let_def split: option.splits prod.splits)

lemma RateLimit_step:
  "RateLimit P now r rl =
     (let (ok, l) = Allow P now (bucket P (rClientIP r) rl)
      in (if ok then Passed else TooMany ''Too many requests. Please try again later.'',
          rl\<lparr>limiters := (limiters rl)(rClientIP r \<mapsto> l)\<rparr>))"
  by (simp add: RateLimit_def allow_ip_bucket Let_def split: prod.splits)

lemma bucket_upd:
  "bucket P ip (rl\<lparr>limiters := (limiters rl)(i \<mapsto> l)\<rparr>) = (if ip = i then l else bucket P ip rl)"
  by (simp add: bucket_def split: option.splits)

text \<open>
  C20. Isolation: whatever requests of other clients are interleaved, a client is let through exactly
  at those of its requests at which a token bucket of its own, with the configured rate and burst,
  would let it through.
\<close>
theorem rate_limit_isolated:
  "map snd (filter (\<lambda>x. fst x = ip) (serve_all P reqs rl)) =
     bucket_run P (map fst (filter (\<lambda>x. rClientIP (snd x) = ip) reqs)) (bucket P ip rl)"
proof (induction reqs arbitrary: rl)
  case Nil
  then show ?case by simp
next
  case (Cons x reqs)
  obtain now r where x: "x = (now, r)" by fastforce
  obtain ok l where a: "Allow P now (bucket P (rClientIP r) rl) = (ok, l)" by fastforce
  have step: "RateLimit P now r rl = (if ok then Passed else TooMany ''Too many requests. Please try again later.'',
      rl\<lparr>limiters := (limiters rl)(rClientIP r \<mapsto> l)\<rparr>)"
    by (simp add: RateLimit_step a)
  show ?case
    using Cons.IH [of "rl\<lparr>limiters := (limiters rl)(rClientIP r \<mapsto> l)\<rparr>"] a
    by (auto simp: x step bucket_upd)
qed

section \<open>The rates in force\<close>

lemma nearest_near:
  assumes "1 / 1000 \<le> x" and "x \<le> 1"
  shows "\<bar>nearest x - x\<bar> \<le> 1 / 2 ^ 53" and "round64 x = Fin (nearest x)"
proof -
  have "pow2 (- 1022) \<le> pow2 (- 10)" by (rule pow2_mono) simp
  also have "pow2 (- 10) = 1 / 1024" by (simp add: pow2_def power_int_minus)
  finally have "pow2 (- 1022) \<le> \<bar>x\<bar>" using assms(1) by simp
  with nearest_rel_error [of x] assms show "\<bar>nearest x - x\<bar> \<le> 1 / 2 ^ 53" by simp
  show "round64 x = Fin (nearest x)" using assms by (intro round64_finite) simp
qed

lemma rate_of_minute:
  assumes "1 \<le> n" and "n \<le> 6"
  shows "fdiv (float_of_int n) (Fin 60) = round64 (of_int n / 60)"
    and "n < 6 \<Longrightarrow> fless (fdiv (float_of_int n) (Fin 60)) (round64 (1 / 10))"
proof -
  have n: "float_of_int n = Fin (of_int n)" using assms by (intro float_of_int_exact) simp
  show rps: "fdiv (float_of_int n) (Fin 60) = round64 (of_int n / 60)" by (simp add: n)
  assume "n < 6"
  then have q: "1 / 60 \<le> (of_int n :: rat) / 60" "(of_int n :: rat) / 60 \<le> 1 / 12"
    using assms(1) by (simp_all add: divide_le_eq le_divide_eq)
  have "nearest (of_int n / 60) < nearest (1 / 10)"
  proof -
    have "\<bar>nearest (of_int n / 60) - of_int n / 60\<bar> \<le> 1 / 1000"
      by (rule order_trans [OF nearest_near(1)]) (use q in simp_all)
    moreover have "\<bar>nearest (1 / 10) - 1 / 10\<bar> \<le> (1 / 1000 :: rat)"
      by (rule order_trans [OF nearest_near(1)]) simp_all
    ultimately show ?thesis using q(2) by linarith
  qed
  then show "fless (fdiv (float_of_int n) (Fin 60)) (round64 (1 / 10))"
    using nearest_near(2) [of "of_int n / 60"] nearest_near(2) [of "1 / 10"] q by (simp add: rps)
qed

text \<open>
  The two strictest payment limits are not the ones written down: the floor of a tenth of a
  request per second turns 5 and 3 requests per minute into 6.
\<close>
theorem payment_limits_floor:
  "\<exists>p q s. PaymentRateLimiter ''/api/v1/payment/process'' = Some p
     \<and> PaymentRateLimiter ''/api/v1/payment/curlec/initiate'' = Some q
     \<and> Configure e 6 1 NewEndpointRateLimiter e = Some s
     \<and> lrate p = lrate s \<and> lrate q = lrate s \<and> lrate s = round64 (1 / 10)"
proof -
  have "fless (fdiv (float_of_int 5) (Fin 60)) (round64 (1 / 10))"
    "fless (fdiv (float_of_int 3) (Fin 60)) (round64 (1 / 10))"
    "fdiv (float_of_int 6) (Fin 60) = round64 (1 / 10)"
    using rate_of_minute(2) [of 5] rate_of_minute(2) [of 3] rate_of_minute(1) [of 6] by simp_all
  then show ?thesis by (simp add: PaymentRateLimiter_def Configure_def endpoint_limiter_def CleanupLimiters_def Let_def)
qed

end
