(* ===== verification/RateLimitLife.thy ===== *)
theory RateLimitLife
  imports RateLimit
begin

text \<open>
  \<open>middleware/ratelimit.go\<close> with its pointers: the limiters of an \<open>EndpointRateLimiter\<close> are objects on a
  heap, each with the cleanup goroutine that \<open>Configure\<close> starts on it, and the table of endpoints
  refers to them. The operations of theory \<open>RateLimit\<close> are what one sees through the table (\<open>seen\<close>).
  The lemmas say which goroutines \<open>Shutdown\<close> ends, and what happens to the first requests of an
  endpoint that is configured on demand.
\<close>

section \<open>Limiters on a heap\<close>

record 'l limiter_heap =
  lheap :: "nat \<rightharpoonup> 'l RateLimiter"
  ltab :: "string \<rightharpoonup> nat"
  lnext :: nat

definition no_limiters :: "'l limiter_heap" where
  "no_limiters = \<lparr>lheap = Map.empty, ltab = Map.empty, lnext = 0\<rparr>"

definition hConfigure :: "string \<Rightarrow> int \<Rightarrow> int \<Rightarrow> 'l limiter_heap \<Rightarrow> 'l limiter_heap" where
  "hConfigure endpoint requestsPerMinute b s =
     s\<lparr>lheap := (lheap s)(lnext s \<mapsto> endpoint_limiter requestsPerMinute b),
       ltab := (ltab s)(endpoint \<mapsto> lnext s), lnext := lnext s + 1\<rparr>"

fun hShutdown :: "string list \<Rightarrow> 'l limiter_heap \<Rightarrow> 'l limiter_heap go" where
  "hShutdown [] s = Ret s"
| "hShutdown (e # order) s =
     (case ltab s e of
        None \<Rightarrow> hShutdown order s
      | Some a \<Rightarrow>
          (case Shutdown (the (lheap s a)) of
             Panic p \<Rightarrow> Panic p
           | Ret limiter \<Rightarrow> hShutdown order (s\<lparr>lheap := (lheap s)(a \<mapsto> limiter)\<rparr>)))"

definition seen :: "'l limiter_heap \<Rightarrow> 'l EndpointRateLimiter" where
  "seen s = (\<lambda>e. Option.bind (ltab s e) (lheap s))"

inductive life_step :: "'l rate_pkg \<Rightarrow> 'l limiter_heap \<Rightarrow> 'l limiter_heap \<Rightarrow> bool" for P where
  configure: "life_step P s (hConfigure e rpm b s)"
| serve: "lheap s a = Some rl \<Longrightarrow> life_step P s (s\<lparr>lheap := (lheap s)(a \<mapsto> snd (allow_ip P now ip rl))\<rparr>)"
| goroutine: "lheap s a = Some rl \<Longrightarrow> 0 < cleaners rl \<Longrightarrow> w = Closed \<longrightarrow> shut rl \<Longrightarrow>
    life_step P s (s\<lparr>lheap := (lheap s)(a \<mapsto> cleanup_round w rl)\<rparr>)"
| shutdown: "set order = dom (ltab s) \<Longrightarrow> hShutdown order s = Ret t \<Longrightarrow> life_step P s t"

section \<open>Well-formed heaps\<close>

definition limiter_ok :: "'l RateLimiter \<Rightarrow> bool" where
  "limiter_ok rl \<longleftrightarrow> cleaners rl \<le> 1 \<and> (\<not> shut rl \<longrightarrow> cleaners rl = 1)"

definition heap_ok :: "'l limiter_heap \<Rightarrow> bool" where
  "heap_ok s \<longleftrightarrow> dom (lheap s) = {..<lnext s} \<and> ran (ltab s) \<subseteq> {..<lnext s}
     \<and> inj_on (ltab s) (dom (ltab s)) \<and> (\<forall>a rl. lheap s a = Some rl \<longrightarrow> limiter_ok rl)"

lemma allow_ip_life [simp]:
  "shut (snd (allow_ip P now ip rl)) = shut rl" "cleaners (snd (allow_ip P now ip rl)) = cleaners rl"
  by (simp_all add: allow_ip_bucket split: prod.splits)

lemma endpoint_limiter_life [simp]:
  "\<not> shut (endpoint_limiter rpm b)" "cleaners (endpoint_limiter rpm b) = 1"
  by (simp_all add: endpoint_limiter_def CleanupLimiters_def Let_def)

lemma heap_ok_upd:
  "heap_ok s \<Longrightarrow> lheap s a \<noteq> None \<Longrightarrow> limiter_ok rl \<Longrightarrow> heap_ok (s\<lparr>lheap := (lheap s)(a \<mapsto> rl)\<rparr>)"
  by (auto simp: heap_ok_def split: if_splits)

lemma heap_ok_Configure: "heap_ok s \<Longrightarrow> heap_ok (hConfigure e rpm b s)"
  by (auto simp: heap_ok_def hConfigure_def limiter_ok_def inj_on_def ran_def split: if_splits)

lemma heap_ok_ref: "heap_ok s \<Longrightarrow> ltab s e = Some a \<Longrightarrow> \<exists>rl. lheap s a = Some rl \<and> limiter_ok rl"
  unfolding heap_ok_def by (metis domD lessThan_iff ranI subset_iff)

lemma hShutdown_effect:
  assumes "hShutdown order s = Ret t" and "heap_ok s"
  shows "heap_ok t \<and> ltab t = ltab s \<and> lnext t = lnext s \<and>
    (\<forall>a. lheap t a = (if a \<in> {a. \<exists>e\<in>set order. ltab s e = Some a}
                      then map_option (\<lambda>rl. rl\<lparr>shut := True\<rparr>) (lheap s a) else lheap s a))"
  using assms
proof (induction order s rule: hShutdown.induct)
  case (2 e order s)
  show ?case
  proof (cases "ltab s e")
    case None
    then show ?thesis using "2.IH"(1) [OF None] "2.prems" by auto
  next
    case (Some a)
    obtain rl where rl: "lheap s a = Some rl" "limiter_ok rl" using heap_ok_ref [OF "2.prems"(2) Some] by blast
    let ?s = "s\<lparr>lheap := (lheap s)(a \<mapsto> rl\<lparr>shut := True\<rparr>)\<rparr>"
    have sh: "Shutdown rl = Ret (rl\<lparr>shut := True\<rparr>)" and rest: "hShutdown order ?s = Ret t"
      using "2.prems"(1) Some rl(1) by (auto simp: Shutdown_def split: if_splits)
    have ok: "heap_ok ?s" using heap_ok_upd [OF "2.prems"(2)] rl by (simp add: limiter_ok_def)
    have "Shutdown (the (lheap s a)) = Ret (rl\<lparr>shut := True\<rparr>)" using sh rl(1) by simp
    from "2.IH"(2) [OF Some this rest ok] show ?thesis using Some rl(1) by auto
  qed
qed simp

lemma life_step_ok: "life_step P s t \<Longrightarrow> heap_ok s \<Longrightarrow> heap_ok t"
proof (induction rule: life_step.induct)
  case (configure s e rpm b)
  then show ?case by (rule heap_ok_Configure)
next
  case (serve s a rl now ip)
  then show ?case by (intro heap_ok_upd) (auto simp: heap_ok_def limiter_ok_def)
next
  case (goroutine s a rl w)
  then show ?case by (intro heap_ok_upd; cases w) (auto simp: heap_ok_def limiter_ok_def)
next
  case (shutdown order s t)
  then show ?case using hShutdown_effect by blast
qed

lemma no_limiters_ok: "heap_ok no_limiters"
  by (simp add: heap_ok_def no_limiters_def)

lemma life_ok: "(life_step P)\<^sup>*\<^sup>* no_limiters s \<Longrightarrow> heap_ok s"
  by (induction rule: rtranclp_induct) (blast intro: no_limiters_ok life_step_ok)+

section \<open>What one sees through the table\<close>

lemma seen_upd:
  assumes "heap_ok s" and "ltab s e = Some a"
  shows "seen (s\<lparr>lheap := (lheap s)(a \<mapsto> rl)\<rparr>) = (seen s)(e \<mapsto> rl)"
proof
  fix e'
  have "e' = e" if "ltab s e' = Some a"
    using assms that by (auto simp: heap_ok_def inj_on_def dom_def)
  then show "seen (s\<lparr>lheap := (lheap s)(a \<mapsto> rl)\<rparr>) e' = ((seen s)(e \<mapsto> rl)) e'"
    using assms(2) by (cases "ltab s e'") (auto simp: seen_def)
qed

lemma seen_Configure: "heap_ok s \<Longrightarrow> seen (hConfigure e rpm b s) = Configure e rpm b (seen s)"
  by (rule ext) (auto simp: seen_def hConfigure_def Configure_def heap_ok_def ran_def split: bind_splits)

lemma seen_Shutdown: "heap_ok s \<Longrightarrow> map_go seen (hShutdown order s) = Endpoint_Shutdown order (seen s)"
  unfolding Endpoint_Shutdown_def
proof (induction order s rule: hShutdown.induct)
  case (2 e order s)
  show ?case
  proof (cases "ltab s e")
    case None
    then show ?thesis using "2.IH"(1) [OF None] "2.prems" by (simp add: seen_def)
  next
    case (Some a)
    obtain rl where rl: "lheap s a = Some rl" "limiter_ok rl" using heap_ok_ref [OF "2.prems" Some] by blast
    have "seen s e = Some rl" using Some rl(1) by (simp add: seen_def)
    moreover have "heap_ok (s\<lparr>lheap := (lheap s)(a \<mapsto> rl\<lparr>shut := True\<rparr>)\<rparr>)"
      using heap_ok_upd [OF "2.prems"] rl by (simp add: limiter_ok_def)
    ultimately show ?thesis
      using Some rl(1) "2.IH"(2) [OF Some] seen_upd [OF "2.prems" Some]
      by (auto simp: Shutdown_def fun_upd_def)
  qed
qed simp

section \<open>Which goroutines end\<close>

definition orphan :: "nat \<Rightarrow> 'l limiter_heap \<Rightarrow> bool" where
  \<comment> \<open>an open limiter that no endpoint refers to\<close>
  "orphan a s \<longleftrightarrow> a \<notin> ran (ltab s) \<and> (\<exists>rl. lheap s a = Some rl \<and> \<not> shut rl)"

lemma orphan_kept: "life_step P s t \<Longrightarrow> heap_ok s \<Longrightarrow> orphan a s \<Longrightarrow> orphan a t"
proof (induction rule: life_step.induct)
  case (configure s e rpm b)
  then have "a \<noteq> lnext s" by (auto simp: heap_ok_def orphan_def)
  with configure show ?case by (auto simp: orphan_def hConfigure_def ran_def split: if_splits)
next
  case (serve s b rl now ip)
  then show ?case by (auto simp: orphan_def)
next
  case (goroutine s b rl w)
  then show ?case by (cases w) (auto simp: orphan_def)
next
  case (shutdown order s t)
  note e = hShutdown_effect [OF shutdown(2,3)]
  have "lheap t a = lheap s a" using e shutdown(4) by (auto simp: orphan_def ran_def)
  then show ?case using e shutdown(4) by (simp add: orphan_def)
qed

lemma orphan_runs:
  assumes "(life_step P)\<^sup>*\<^sup>* s t" and "heap_ok s" and "orphan a s"
  shows "\<exists>rl. lheap t a = Some rl \<and> cleaners rl = 1"
proof -
  have "heap_ok t \<and> orphan a t"
    using assms by (induction rule: rtranclp_induct) (blast intro: life_step_ok orphan_kept)+
  then show ?thesis by (auto simp: heap_ok_def orphan_def limiter_ok_def)
qed

lemma replaced_orphan:
  "heap_ok s \<Longrightarrow> ltab s e = Some a \<Longrightarrow> lheap s a = Some rl \<Longrightarrow> \<not> shut rl \<Longrightarrow> orphan a (hConfigure e rpm b s)"
  by (auto simp: orphan_def hConfigure_def heap_ok_def ran_def inj_on_def dom_def split: if_splits)

lemma hShutdown_closed:
  assumes "heap_ok s" and "e \<in> set order" and "ltab s e = Some a" and "lheap s a = Some rl" and "shut rl"
  shows "\<exists>p. hShutdown order s = Panic p"
  using assms
proof (induction order s arbitrary: rl rule: hShutdown.induct)
  case (2 e' order s)
  show ?case
  proof (cases "ltab s e'")
    case None
    then show ?thesis using "2.IH"(1) [OF None] "2.prems" by auto
  next
    case (Some b)
    obtain r where r: "lheap s b = Some r" "limiter_ok r" using heap_ok_ref [OF "2.prems"(1) Some] by blast
    show ?thesis
    proof (cases "shut r")
      case True
      then show ?thesis using Some r by (simp add: Shutdown_def)
    next
      case False
      then have sh: "Shutdown (the (lheap s b)) = Ret (r\<lparr>shut := True\<rparr>)" and ne: "a \<noteq> b" "e \<noteq> e'"
        using r(1) "2.prems" Some by (auto simp: Shutdown_def)
      have "heap_ok (s\<lparr>lheap := (lheap s)(b \<mapsto> r\<lparr>shut := True\<rparr>)\<rparr>)"
        using heap_ok_upd [OF "2.prems"(1)] r by (simp add: limiter_ok_def)
      from "2.IH"(2) [OF Some sh this] show ?thesis using "2.prems" ne Some sh by auto
    qed
  qed
qed simp

text \<open>
  C21. Shutting down: after the first \<open>Shutdown\<close> every limiter in the table is closed and its cleanup
  goroutine has ended or can end with its next round, in whatever order the table was walked; a second
  one panics as soon as an endpoint is configured. But \<open>Configure\<close> on an endpoint that has an open
  limiter drops the only reference to it, and its goroutine then runs for ever, whatever is called.
\<close>
theorem limiter_goroutines:
  assumes "(life_step P)\<^sup>*\<^sup>* no_limiters s" and "set order = dom (ltab s)" and "hShutdown order s = Ret t"
  shows "Endpoint_Shutdown order (seen s) = Ret (seen t)
    \<and> (ltab t e = Some a \<longrightarrow> (\<exists>rl. lheap t a = Some rl \<and> shut rl
         \<and> (cleaners rl = 0 \<or> (\<exists>u. life_step P t u \<and> (\<exists>rl'. lheap u a = Some rl' \<and> cleaners rl' = 0))))
         \<and> (\<exists>p. hShutdown order t = Panic p))
    \<and> (ltab s e = Some a \<and> (life_step P)\<^sup>*\<^sup>* (hConfigure e rpm b s) u \<longrightarrow>
         (\<exists>rl. lheap u a = Some rl \<and> cleaners rl = 1))"
proof -
  have ok: "heap_ok s" by (rule life_ok [OF assms(1)])
  note eff = hShutdown_effect [OF assms(3) ok]
  have "(\<exists>rl. lheap t a = Some rl \<and> shut rl
      \<and> (cleaners rl = 0 \<or> (\<exists>u. life_step P t u \<and> (\<exists>rl'. lheap u a = Some rl' \<and> cleaners rl' = 0))))
      \<and> (\<exists>p. hShutdown order t = Panic p)" if e: "ltab t e = Some a"
  proof -
    obtain rl where rl: "lheap t a = Some rl" "limiter_ok rl" using heap_ok_ref [OF _ e] eff by blast
    have in_order: "e \<in> set order" "ltab s e = Some a" using e eff assms(2) by auto
    then have sh: "shut rl" using eff rl(1) by (fastforce split: if_splits)
    have "\<exists>u. life_step P t u \<and> (\<exists>rl'. lheap u a = Some rl' \<and> cleaners rl' = 0)" if "cleaners rl \<noteq> 0"
      using life_step.goroutine [OF rl(1), of Closed P] that sh rl(2) by (fastforce simp: limiter_ok_def)
    with hShutdown_closed [OF conjunct1 [OF eff] in_order(1) e rl(1) sh] rl(1) sh show ?thesis
      by (cases "cleaners rl = 0") simp_all
  qed
  moreover have "\<exists>rl. lheap u a = Some rl \<and> cleaners rl = 1"
    if e: "ltab s e = Some a" and u: "(life_step P)\<^sup>*\<^sup>* (hConfigure e rpm b s) u"
  proof -
    obtain rl where rl: "lheap s a = Some rl" using heap_ok_ref [OF ok e] by blast
    have "e \<in> set order" using e assms(2) by auto
    then have "\<not> shut rl" using hShutdown_closed [OF ok _ e rl, of order] assms(3) by auto
    from orphan_runs [OF u heap_ok_Configure [OF ok] replaced_orphan [OF ok e rl this]] show ?thesis .
  qed
  ultimately show ?thesis using seen_Shutdown [OF ok, of order] assms(3) by simp
qed

definition still_bucket :: "int rate_pkg" where
  \<comment> \<open>a bucket between two refills\<close>
  "still_bucket = \<lparr>NewLimiter = \<lambda>r b. b, Allow = \<lambda>now n. (0 < n, n - 1)\<rparr>"

theorem limiter_goroutines_witness:
  "\<exists>t p rl. hShutdown [''/pay''] (hConfigure ''/pay'' 60 5 (no_limiters :: int limiter_heap)) = Ret t \<and> hShutdown [''/pay''] t = Panic p
     \<and> lheap (hConfigure ''/pay'' 90 5 (hConfigure ''/pay'' 60 5 (no_limiters :: int limiter_heap))) 0 = Some rl \<and> cleaners rl = 1"
proof -
  let ?s = "hConfigure ''/pay'' 60 5 (no_limiters :: int limiter_heap)"
  have run: "(life_step still_bucket)\<^sup>*\<^sup>* no_limiters ?s" by (intro r_into_rtranclp life_step.configure)
  have tab: "ltab ?s = [''/pay'' \<mapsto> 0]" by (simp add: hConfigure_def no_limiters_def)
  obtain t where t: "hShutdown [''/pay''] ?s = Ret t"
    by (simp add: hConfigure_def no_limiters_def Shutdown_def)
  have "ltab t = ltab ?s" using hShutdown_effect [OF t life_ok [OF run]] by blast
  with limiter_goroutines [OF run _ t, of "''/pay''" 0 90 5 "hConfigure ''/pay'' 90 5 ?s"] t tab
  show ?thesis by auto
qed

section \<open>Endpoints configured on demand\<close>

definition hAllow :: "'l rate_pkg \<Rightarrow> Time \<Rightarrow> string \<Rightarrow> string \<Rightarrow> 'l limiter_heap \<Rightarrow> bool \<times> 'l limiter_heap" where
  \<comment> \<open>the second half of \<open>Limit\<close>, from the lookup of the limiter on\<close>
  "hAllow P now ip endpoint s =
     (let a = the (ltab s endpoint); (ok, limiter) = allow_ip P now ip (the (lheap s a))
      in (ok, s\<lparr>lheap := (lheap s)(a \<mapsto> limiter)\<rparr>))"

definition hLimit :: "'l rate_pkg \<Rightarrow> Time \<Rightarrow> string \<Rightarrow> int \<Rightarrow> http_request \<Rightarrow> 'l limiter_heap \<Rightarrow> bool \<times> 'l limiter_heap" where
  "hLimit P now endpoint defaultRPM r s =
     (let s = (if ltab s endpoint = None then hConfigure endpoint defaultRPM (trunc_div defaultRPM 10 + 1) s else s)
      in hAllow P now (rClientIP r) endpoint s)"

lemma seen_Allow:
  assumes "heap_ok s" and "ltab s e = Some a"
  shows "fst (hAllow P now ip e s) = fst (allow_ip P now ip (the (seen s e)))"
    and "seen (snd (hAllow P now ip e s)) = (seen s)(e \<mapsto> snd (allow_ip P now ip (the (seen s e))))"
proof -
  obtain rl where rl: "lheap s a = Some rl" using heap_ok_ref [OF assms] by blast
  then have v: "seen s e = Some rl" using assms(2) by (simp add: seen_def)
  show "fst (hAllow P now ip e s) = fst (allow_ip P now ip (the (seen s e)))"
    "seen (snd (hAllow P now ip e s)) = (seen s)(e \<mapsto> snd (allow_ip P now ip (the (seen s e))))"
    using assms(2) rl v seen_upd [OF assms] by (simp_all add: hAllow_def Let_def split: prod.splits)
qed

lemma hLimit_refines:
  assumes "heap_ok s"
  shows "(fst (hLimit P now e d r s) \<longleftrightarrow> fst (Limit P now e d r (seen s)) = Passed)
    \<and> seen (snd (hLimit P now e d r s)) = snd (Limit P now e d r (seen s))"
proof (cases "ltab s e")
  case None
  let ?s = "hConfigure e d (trunc_div d 10 + 1) s"
  have "ltab ?s e = Some (lnext s)" by (simp add: hConfigure_def)
  note al = seen_Allow [OF heap_ok_Configure [OF assms] this, of P now "rClientIP r"]
  have "seen s e = None" using None by (simp add: seen_def)
  with al None seen_Configure [OF assms] show ?thesis
    by (simp add: hLimit_def Limit_def Let_def Configure_def split: prod.splits)
next
  case (Some a)
  obtain rl where "lheap s a = Some rl" using heap_ok_ref [OF assms Some] by blast
  then have "seen s e = Some rl" using Some by (simp add: seen_def)
  with seen_Allow [OF assms Some, of P now "rClientIP r"] Some show ?thesis
    by (simp add: hLimit_def Limit_def Let_def split: prod.splits)
qed

text \<open>
  One request after the other, the second request of a client with a burst of one is refused. When
  both looked the endpoint up before either configured it, each configures a limiter of its own, the
  second replaces the first, and both pass.
\<close>
lemma first_requests_race:
  fixes s0 :: "int limiter_heap"
  defines "s0 \<equiv> no_limiters"
  defines "s1 \<equiv> hConfigure ''/pay'' 5 1 s0"
  shows "fst (hAllow still_bucket now ip ''/pay'' s1)"
    and "\<not> fst (hAllow still_bucket now ip ''/pay'' (snd (hAllow still_bucket now ip ''/pay'' s1)))"
    and "fst (hAllow still_bucket now ip ''/pay'' (hConfigure ''/pay'' 5 1 (snd (hAllow still_bucket now ip ''/pay'' s1))))"
  by (simp_all add: s0_def s1_def hAllow_def hConfigure_def no_limiters_def allow_ip_bucket bucket_def still_bucket_def
      endpoint_limiter_def CleanupLimiters_def Let_def)

end
