(* ===== verification/Upload.thy ===== *)
theory Upload
  imports GoStrings
begin

text \<open>
  \<open>storage/validator.go\<close>: validation of uploaded files by size, extension and leading bytes, and
  sanitising of file names. An upload is its header and its content; a read from the start fills the
  buffer as far as the content goes, or fails with an error that is an argument.
\<close>

section \<open>Model\<close>

type_synonym byte = "8 word"

datatype FileType = FileTypeImage | FileTypeDocument | FileTypeVideo

record FileValidator =
  MaxSize :: i64
  AllowedTypes :: "string \<Rightarrow> bool"
  vFileType :: FileType

record FileHeader =
  Size :: i64
  Filename :: string

datatype file_error =
    FileTooLarge int
  | TypeNotAllowed string
  | ReadFailed string
  | FileTooSmall
  | NotWebP
  | ContentMismatch string

definition magicNumbers :: "string \<rightharpoonup> byte list" where
  "magicNumbers =
     [''.jpg'' \<mapsto> [0xFF, 0xD8, 0xFF],
      ''.jpeg'' \<mapsto> [0xFF, 0xD8, 0xFF],
      ''.png'' \<mapsto> [0x89, 0x50, 0x4E, 0x47, 0x0D, 0x0A, 0x1A, 0x0A],
      ''.gif'' \<mapsto> [0x47, 0x49, 0x46, 0x38],
      ''.webp'' \<mapsto> [0x52, 0x49, 0x46, 0x46],
      ''.bmp'' \<mapsto> [0x42, 0x4D],
      ''.pdf'' \<mapsto> [0x25, 0x50, 0x44, 0x46],
      ''.docx'' \<mapsto> [0x50, 0x4B, 0x03, 0x04],
      ''.xlsx'' \<mapsto> [0x50, 0x4B, 0x03, 0x04],
      ''.zip'' \<mapsto> [0x50, 0x4B, 0x03, 0x04],
      ''.mp4'' \<mapsto> [0x00, 0x00, 0x00, 0x18, 0x66, 0x74, 0x79, 0x70],
      ''.avi'' \<mapsto> [0x52, 0x49, 0x46, 0x46],
      ''.mov'' \<mapsto> [0x00, 0x00, 0x00, 0x14, 0x66, 0x74, 0x79, 0x70]]"

definition image_types :: "string list" where
  "image_types = [''.jpg'', ''.jpeg'', ''.png'', ''.gif'', ''.webp'', ''.bmp'']"

definition document_types :: "string list" where
  "document_types = [''.pdf'', ''.doc'', ''.docx'', ''.xls'', ''.xlsx'', ''.txt'']"

definition NewImageValidator :: "i64 \<Rightarrow> FileValidator" where
  "NewImageValidator maxSizeMB =
     \<lparr>MaxSize = maxSizeMB * 1024 * 1024, AllowedTypes = (\<lambda>e. e \<in> set image_types), vFileType = FileTypeImage\<rparr>"

definition NewDocumentValidator :: "i64 \<Rightarrow> FileValidator" where
  "NewDocumentValidator maxSizeMB =
     \<lparr>MaxSize = maxSizeMB * 1024 * 1024, AllowedTypes = (\<lambda>e. e \<in> set document_types), vFileType = FileTypeDocument\<rparr>"

fun ext_back :: "string \<Rightarrow> string \<Rightarrow> string" where
  \<comment> \<open>the scan of \<open>filepath.Ext\<close> from the end\<close>
  "ext_back seen [] = ''''"
| "ext_back seen (c # cs) =
     (if c = CHR ''/'' then '''' else if c = CHR ''.'' then CHR ''.'' # seen else ext_back (c # seen) cs)"

definition Ext :: "string \<Rightarrow> string" where
  "Ext path = ext_back [] (rev path)"

definition ReadFull :: "nat \<Rightarrow> byte list \<Rightarrow> byte list \<times> nat" where
  \<comment> \<open>a buffer of n bytes after \<open>Read\<close>, and the number of bytes read\<close>
  "ReadFull n content = (take n content @ replicate (n - length content) 0, min n (length content))"

definition verifyFileContent :: "string option \<Rightarrow> byte list \<Rightarrow> string \<Rightarrow> file_error option" where
  \<comment> \<open>\<open>fault\<close> is an error of the first read other than the end of the file\<close>
  "verifyFileContent fault content ext =
     (case magicNumbers ext of
        None \<Rightarrow> None
      | Some magic \<Rightarrow>
          (case fault of
             Some err \<Rightarrow> Some (ReadFailed err)
           | None \<Rightarrow>
               (let (buffer, n) = ReadFull (length magic) content
                in if n < length magic then Some FileTooSmall
                   else if ext = ''.webp'' then
                     (let (buffer2, _) = ReadFull 12 content
                      in if take 4 buffer2 \<noteq> [0x52, 0x49, 0x46, 0x46] \<or> take 4 (drop 8 buffer2) \<noteq> [0x57, 0x45, 0x42, 0x50]
                         then Some NotWebP else None)
                   else if take (length magic) buffer \<noteq> magic then Some (ContentMismatch ext)
                   else None)))"

definition ValidateFile :: "string option \<Rightarrow> FileValidator \<Rightarrow> byte list \<Rightarrow> FileHeader \<Rightarrow> file_error option" where
  "ValidateFile fault v content header =
     (if sint (MaxSize v) < sint (Size header) then Some (FileTooLarge (trunc_div (sint (MaxSize v)) (1024 * 1024)))
      else
        (let ext = ToLower (Ext (Filename header))
         in if \<not> AllowedTypes v ext then Some (TypeNotAllowed ext)
            else (case verifyFileContent fault content ext of
                    Some err \<Rightarrow> Some err
                  | None \<Rightarrow> None)))"

definition ValidateImageFile :: "string option \<Rightarrow> byte list \<Rightarrow> FileHeader \<Rightarrow> file_error option" where
  "ValidateImageFile fault = ValidateFile fault (NewImageValidator 5)"

definition ValidateDocumentFile :: "string option \<Rightarrow> byte list \<Rightarrow> FileHeader \<Rightarrow> file_error option" where
  "ValidateDocumentFile fault = ValidateFile fault (NewDocumentValidator 10)"

definition Base :: "string \<Rightarrow> string" where
  \<comment> \<open>\<open>filepath.Base\<close> on Unix\<close>
  "Base path =
     (if path = '''' then ''.''
      else (let path = rev (dropWhile (\<lambda>c. c = CHR ''/'') (rev path));
                path = rev (takeWhile (\<lambda>c. c \<noteq> CHR ''/'') (rev path))
            in if path = '''' then ''/'' else path))"

definition dangerous :: "char list" where
  "dangerous = [CHR ''/'', CHR 0x5C, CHR '':'', CHR ''*'', CHR ''?'', CHR 0x22, CHR ''<'', CHR ''>'', CHR ''|'', CHR 0x00]"

fun replacer :: "string \<Rightarrow> string" where
  \<comment> \<open>\<open>strings.NewReplacer("..", "", "/", "", ...)\<close>: one pass from left to right\<close>
  "replacer [] = []"
| "replacer [c] = (if c \<in> set dangerous then [] else [c])"
| "replacer (c # d # cs) =
     (if c = CHR ''.'' \<and> d = CHR ''.'' then replacer cs
      else if c \<in> set dangerous then replacer (d # cs)
      else c # replacer (d # cs))"

definition SanitizeFilename :: "string \<Rightarrow> string" where
  "SanitizeFilename filename = replacer (Base filename)"

section \<open>What an accepted file looks like\<close>

definition content_ok :: "byte list \<Rightarrow> string \<Rightarrow> bool" where
  \<comment> \<open>the signature of the extension's type, where one is known\<close>
  "content_ok content ext \<longleftrightarrow>
     (case magicNumbers ext of
        None \<Rightarrow> True
      | Some magic \<Rightarrow>
          if ext = ''.webp'' then prefix magic content \<and> prefix [0x57, 0x45, 0x42, 0x50] (drop 8 content)
          else prefix magic content)"

lemma take_prefix_iff: "length xs \<le> length ys \<Longrightarrow> take (length xs) ys = xs \<longleftrightarrow> prefix xs ys"
  by (metis append_eq_conv_conj prefixE prefixI take_is_prefix)

lemma prefix_long: "prefix xs ys \<Longrightarrow> length xs \<le> length ys"
  by (rule prefix_length_le)

lemma ReadFull_padding: "length content \<le> n \<Longrightarrow> fst (ReadFull (Suc n) content) ! n = 0"
  by (simp add: ReadFull_def nth_append)

lemma webp_signature:
  assumes "4 \<le> length content"
  shows "take 4 (fst (ReadFull 12 content)) = [0x52, 0x49, 0x46, 0x46]
      \<and> take 4 (drop 8 (fst (ReadFull 12 content))) = [0x57, 0x45, 0x42, 0x50] \<longleftrightarrow>
   prefix [0x52, 0x49, 0x46, 0x46] content \<and> prefix [0x57, 0x45, 0x42, 0x50] (drop 8 content)"
proof (cases "12 \<le> length content")
  case True
  then have "fst (ReadFull 12 content) = take 12 content" by (simp add: ReadFull_def)
  moreover have "prefix xs content \<longleftrightarrow> take 4 content = xs" if "length xs = 4" for xs
    using take_prefix_iff [of xs content] that assms by auto
  moreover have "prefix xs (drop 8 content) \<longleftrightarrow> take 4 (drop 8 content) = xs" if "length xs = 4" for xs
    using take_prefix_iff [of xs "drop 8 content"] that True by auto
  ultimately show ?thesis by (simp add: take_drop min_def)
next
  case False
  let ?b = "fst (ReadFull 12 content)"
  have "length ?b = 12" using False by (simp add: ReadFull_def)
  then have "take 4 (drop 8 ?b) ! 3 = ?b ! 11" by simp
  also have "\<dots> = 0" using ReadFull_padding [of content 11] False by (simp add: eval_nat_numeral)
  finally have "take 4 (drop 8 ?b) \<noteq> [0x57, 0x45, 0x42, 0x50]" by (auto dest: arg_cong [where f = "\<lambda>x. x ! 3"])
  moreover have "\<not> prefix [0x57, 0x45, 0x42, 0x50] (drop 8 content)"
    using False by (auto dest!: prefix_length_le)
  ultimately show ?thesis by blast
qed

lemma magic_read:
  "(let (buffer, n) = ReadFull (length magic) content in \<not> n < length magic \<and> take (length magic) buffer = magic)
     \<longleftrightarrow> prefix magic content"
  using take_prefix_iff [of magic content] by (auto simp: ReadFull_def not_less min_def dest: prefix_length_le)

lemma magic_webp [simp]: "magicNumbers ''.webp'' = Some [0x52, 0x49, 0x46, 0x46]"
  by (simp add: magicNumbers_def)

lemma verifyFileContent_ok: "verifyFileContent None content ext = None \<longleftrightarrow> content_ok content ext"
proof (cases "ext = ''.webp''")
  case True
  have "verifyFileContent None content ''.webp'' = None \<longleftrightarrow> 4 \<le> length content
      \<and> take 4 (fst (ReadFull 12 content)) = [0x52, 0x49, 0x46, 0x46]
      \<and> take 4 (drop 8 (fst (ReadFull 12 content))) = [0x57, 0x45, 0x42, 0x50]"
    by (auto simp: verifyFileContent_def ReadFull_def)
  moreover have "content_ok content ''.webp'' \<longleftrightarrow> 4 \<le> length content
      \<and> prefix [0x52, 0x49, 0x46, 0x46] content \<and> prefix [0x57, 0x45, 0x42, 0x50] (drop 8 content)"
    by (auto simp: content_ok_def dest: prefix_length_le)
  ultimately show ?thesis unfolding True using webp_signature [of content] by blast
next
  case False
  show ?thesis
  proof (cases "magicNumbers ext")
    case None
    then show ?thesis by (simp add: verifyFileContent_def content_ok_def)
  next
    case (Some magic)
    with False magic_read [of magic content] show ?thesis
      by (auto simp: verifyFileContent_def content_ok_def Let_def split: prod.splits)
  qed
qed

text \<open>
  A file is accepted exactly when it is not larger than the limit, its lower-cased extension is
  allowed and its content starts with the signature of that extension, where the validator knows
  one. An image is therefore accepted only with an image signature; a document with the extension
  \<open>.doc\<close>, \<open>.xls\<close> or \<open>.txt\<close> is accepted with any content.
\<close>
theorem ValidateFile_ok:
  "(ValidateFile None v content header = None \<longleftrightarrow>
      sint (Size header) \<le> sint (MaxSize v) \<and> AllowedTypes v (ToLower (Ext (Filename header)))
      \<and> content_ok content (ToLower (Ext (Filename header))))
   \<and> (\<forall>e \<in> set image_types. \<exists>magic. magicNumbers e = Some magic \<and> magic \<noteq> [])
   \<and> (\<forall>e \<in> {''.doc'', ''.xls'', ''.txt''}. e \<in> set document_types \<and> content_ok content e)"
proof -
  have "ValidateFile None v content header = None \<longleftrightarrow>
      sint (Size header) \<le> sint (MaxSize v) \<and> AllowedTypes v (ToLower (Ext (Filename header)))
      \<and> content_ok content (ToLower (Ext (Filename header)))"
    unfolding verifyFileContent_ok [symmetric] by (auto simp: ValidateFile_def Let_def split: option.splits)
  moreover have "\<forall>e \<in> set image_types. \<exists>magic. magicNumbers e = Some magic \<and> magic \<noteq> []"
    by (simp add: image_types_def magicNumbers_def)
  moreover have "\<forall>e \<in> {''.doc'', ''.xls'', ''.txt''}. e \<in> set document_types \<and> content_ok content e"
    by (simp add: document_types_def content_ok_def magicNumbers_def)
  ultimately show ?thesis by blast
qed

theorem ValidateFile_ok_witness:
  "ValidateFile None (NewImageValidator 5) [0xFF, 0xD8, 0xFF, 0xE0] \<lparr>Size = 4, Filename = ''Cat.JPG''\<rparr> = None
   \<and> ValidateFile None (NewImageValidator 5) [0x4D, 0x5A] \<lparr>Size = 2, Filename = ''Cat.JPG''\<rparr> \<noteq> None"
proof -
  have e: "ToLower (Ext ''Cat.JPG'') = ''.jpg''" by code_simp
  have "content_ok [0xFF, 0xD8, 0xFF, 0xE0] ''.jpg''" "\<not> content_ok [0x4D, 0x5A] ''.jpg''"
    by (simp_all add: content_ok_def magicNumbers_def)
  moreover have "sint (Size \<lparr>Size = 4, Filename = ''Cat.JPG''\<rparr>) \<le> sint (MaxSize (NewImageValidator 5))"
    unfolding NewImageValidator_def by code_simp
  ultimately show ?thesis
    using ValidateFile_ok [of "NewImageValidator 5" "[0xFF, 0xD8, 0xFF, 0xE0]" "\<lparr>Size = 4, Filename = ''Cat.JPG''\<rparr>"]
      ValidateFile_ok [of "NewImageValidator 5" "[0x4D, 0x5A]" "\<lparr>Size = 2, Filename = ''Cat.JPG''\<rparr>"]
    by (simp add: e NewImageValidator_def image_types_def)
qed

section \<open>File names\<close>

lemma replacer_clean: "set (replacer s) \<inter> set dangerous = {}"
  by (induction s rule: replacer.induct) auto

lemma replacer_subset: "set (replacer s) \<subseteq> set s"
  by (induction s rule: replacer.induct) auto

text \<open>
  A sanitised name contains no path separator and none of the other dangerous characters, so it
  names something in the directory it is joined to; but it can be the parent directory itself:
  removing the characters in one pass lets two dots that were apart meet.
\<close>
theorem SanitizeFilename_clean:
  "set (SanitizeFilename s) \<inter> {CHR ''/'', CHR 0x5C, CHR '':'', CHR ''*'', CHR ''?'', CHR 0x22, CHR ''<'', CHR ''>'', CHR ''|'', CHR 0x00} = {}
   \<and> SanitizeFilename ''.:.'' = ''..''"
proof
  show "set (SanitizeFilename s) \<inter> {CHR ''/'', CHR 0x5C, CHR '':'', CHR ''*'', CHR ''?'', CHR 0x22, CHR ''<'', CHR ''>'', CHR ''|'', CHR 0x00} = {}"
    using replacer_clean [of "Base s"] by (simp only: SanitizeFilename_def dangerous_def list.set)
  show "SanitizeFilename ''.:.'' = ''..''" by code_simp
qed

end
