(* ===== verification/GoRegexp.thy ===== *)
theory GoRegexp
  imports GoStrings
begin

text \<open>
  Go's \<open>regexp\<close> for the patterns the library compiles: character classes, concatenation,
  alternation, repetition and the flag \<open>(?i)\<close>, on bytes, with case folding of the ASCII letters.
  \<open>lang\<close> says which strings an expression denotes; \<open>accepts\<close> and \<open>MatchString\<close> decide it with
  derivatives, and the lemmas at the end show that they do. A reluctant repetition (\<open>.*?\<close>) denotes
  the same strings as the greedy one.
\<close>

section \<open>Expressions\<close>

datatype rexp =
    RNone
  | REps
  | RClass "char \<Rightarrow> bool"
  | RSeq rexp rexp
  | RAlt rexp rexp
  | RStar rexp

definition conc :: "string set \<Rightarrow> string set \<Rightarrow> string set" where
  "conc A B = {u @ v | u v. u \<in> A \<and> v \<in> B}"

inductive_set star :: "string set \<Rightarrow> string set" for A :: "string set" where
  empty: "[] \<in> star A"
| more: "u \<in> A \<Longrightarrow> v \<in> star A \<Longrightarrow> u @ v \<in> star A"

primrec lang :: "rexp \<Rightarrow> string set" where
  "lang RNone = {}"
| "lang REps = {[]}"
| "lang (RClass P) = {[c] | c. P c}"
| "lang (RSeq r s) = conc (lang r) (lang s)"
| "lang (RAlt r s) = lang r \<union> lang s"
| "lang (RStar r) = star (lang r)"

definition RPlus :: "rexp \<Rightarrow> rexp" where
  "RPlus r = RSeq r (RStar r)"

definition ROpt :: "rexp \<Rightarrow> rexp" where
  "ROpt r = RAlt REps r"

definition RSeqs :: "rexp list \<Rightarrow> rexp" where
  "RSeqs rs = foldr RSeq rs REps"

definition RAlts :: "rexp list \<Rightarrow> rexp" where
  "RAlts rs = foldr RAlt rs RNone"

definition RRepeat :: "nat \<Rightarrow> nat \<Rightarrow> rexp \<Rightarrow> rexp" where
  \<comment> \<open>\<open>r{m,n}\<close>\<close>
  "RRepeat m n r = RSeqs (replicate m r @ replicate (n - m) (ROpt r))"

definition chr :: "char \<Rightarrow> rexp" where
  "chr c = RClass (\<lambda>x. x = c)"

definition ichr :: "char \<Rightarrow> rexp" where
  \<comment> \<open>a literal under \<open>(?i)\<close>\<close>
  "ichr c = RClass (\<lambda>x. lower x = lower c)"

definition itext :: "string \<Rightarrow> rexp" where
  "itext s = RSeqs (map ichr s)"

definition between :: "char \<Rightarrow> char \<Rightarrow> char \<Rightarrow> bool" where
  "between a b c \<longleftrightarrow> (of_char a :: nat) \<le> of_char c \<and> (of_char c :: nat) \<le> of_char b"

definition is_digit :: "char \<Rightarrow> bool" where
  "is_digit c \<longleftrightarrow> between CHR ''0'' CHR ''9'' c"

definition is_letter :: "char \<Rightarrow> bool" where
  "is_letter c \<longleftrightarrow> between CHR ''a'' CHR ''z'' c \<or> between CHR ''A'' CHR ''Z'' c"

definition is_word :: "char \<Rightarrow> bool" where
  \<comment> \<open>\<open>\w\<close>\<close>
  "is_word c \<longleftrightarrow> is_digit c \<or> is_letter c \<or> c = CHR ''_''"

definition is_blank :: "char \<Rightarrow> bool" where
  \<comment> \<open>\<open>\s\<close>: tab, newline, form feed, carriage return, space\<close>
  "is_blank c \<longleftrightarrow> (of_char c :: nat) \<in> {9, 10, 12, 13, 32}"

definition RAny :: rexp where
  \<comment> \<open>\<open>.\<close> without the flag \<open>s\<close>\<close>
  "RAny = RClass (\<lambda>c. c \<noteq> CHR 0x0A)"

section \<open>Matching\<close>

primrec nullable :: "rexp \<Rightarrow> bool" where
  "nullable RNone = False"
| "nullable REps = True"
| "nullable (RClass P) = False"
| "nullable (RSeq r s) = (nullable r \<and> nullable s)"
| "nullable (RAlt r s) = (nullable r \<or> nullable s)"
| "nullable (RStar r) = True"

fun mk_seq :: "rexp \<Rightarrow> rexp \<Rightarrow> rexp" where
  "mk_seq RNone s = RNone"
| "mk_seq REps s = s"
| "mk_seq r s = RSeq r s"

fun mk_alt :: "rexp \<Rightarrow> rexp \<Rightarrow> rexp" where
  "mk_alt RNone s = s"
| "mk_alt r RNone = r"
| "mk_alt r s = RAlt r s"

primrec deriv :: "char \<Rightarrow> rexp \<Rightarrow> rexp" where
  "deriv c RNone = RNone"
| "deriv c REps = RNone"
| "deriv c (RClass P) = (if P c then REps else RNone)"
| "deriv c (RSeq r s) =
     (if nullable r then mk_alt (mk_seq (deriv c r) s) (deriv c s) else mk_seq (deriv c r) s)"
| "deriv c (RAlt r s) = mk_alt (deriv c r) (deriv c s)"
| "deriv c (RStar r) = mk_seq (deriv c r) (RStar r)"

fun accepts :: "rexp \<Rightarrow> string \<Rightarrow> bool" where
  \<comment> \<open>a pattern between \<open>^\<close> and \<open>$\<close>\<close>
  "accepts r [] = nullable r"
| "accepts r (c # cs) = accepts (deriv c r) cs"

fun accepts_front :: "rexp \<Rightarrow> string \<Rightarrow> bool" where
  "accepts_front r [] = nullable r"
| "accepts_front r (c # cs) = (nullable r \<or> accepts_front (deriv c r) cs)"

fun MatchString :: "rexp \<Rightarrow> string \<Rightarrow> bool" where
  \<comment> \<open>an unanchored pattern: a match anywhere in the input\<close>
  "MatchString r [] = nullable r"
| "MatchString r (c # cs) = (accepts_front r (c # cs) \<or> MatchString r cs)"

text \<open>The tests on characters, bit by bit, for evaluation.\<close>

definition letter_bits :: "bool \<Rightarrow> bool \<Rightarrow> bool \<Rightarrow> bool \<Rightarrow> bool \<Rightarrow> bool" where
  \<comment> \<open>the low five bits count from 1 to 26\<close>
  "letter_bits b0 b1 b2 b3 b4 \<longleftrightarrow> (b0 \<or> b1 \<or> b2 \<or> b3 \<or> b4) \<and> \<not> (b4 \<and> b3 \<and> (b2 \<or> (b1 \<and> b0)))"

lemma lower_code [code]:
  "lower (Char b0 b1 b2 b3 b4 b5 b6 b7) =
     (if b6 \<and> \<not> b5 \<and> \<not> b7 \<and> letter_bits b0 b1 b2 b3 b4 then Char b0 b1 b2 b3 b4 True b6 b7
      else Char b0 b1 b2 b3 b4 b5 b6 b7)"
  by (cases b0; cases b1; cases b2; cases b3; cases b4; cases b5; cases b6; cases b7)
    (simp_all add: lower_def letter_bits_def char_of_def of_char_def Let_def bit_0)

lemma is_letter_code [code]:
  "is_letter (Char b0 b1 b2 b3 b4 b5 b6 b7) \<longleftrightarrow> b6 \<and> \<not> b7 \<and> letter_bits b0 b1 b2 b3 b4"
  by (cases b0; cases b1; cases b2; cases b3; cases b4; cases b5; cases b6; cases b7)
    (simp_all add: is_letter_def between_def letter_bits_def)

lemma is_digit_code [code]:
  "is_digit (Char b0 b1 b2 b3 b4 b5 b6 b7) \<longleftrightarrow> \<not> b7 \<and> \<not> b6 \<and> b5 \<and> b4 \<and> \<not> (b3 \<and> (b2 \<or> b1))"
  by (cases b0; cases b1; cases b2; cases b3; cases b4; cases b5; cases b6; cases b7)
    (simp_all add: is_digit_def between_def)

lemma is_blank_code [code]:
  "is_blank c \<longleftrightarrow> c = CHR '' '' \<or> c = CHR 0x09 \<or> c = CHR 0x0A \<or> c = CHR 0x0C \<or> c = CHR 0x0D"
proof (cases c)
  case (Char b0 b1 b2 b3 b4 b5 b6 b7)
  show ?thesis unfolding Char
    by (cases b0; cases b1; cases b2; cases b3; cases b4; cases b5; cases b6; cases b7) (simp_all add: is_blank_def)
qed

section \<open>The matcher decides the language\<close>

lemma conc_simps [simp]: "conc {} B = {}" "conc {[]} B = B" "[] \<in> conc A B \<longleftrightarrow> [] \<in> A \<and> [] \<in> B"
  by (auto simp: conc_def)

lemma conc_Cons:
  "c # w \<in> conc A B \<longleftrightarrow> w \<in> conc {u. c # u \<in> A} B \<or> ([] \<in> A \<and> c # w \<in> B)"
  unfolding conc_def by (auto simp: Cons_eq_append_conv)

lemma conc_Nil_right [simp]: "conc A {[]} = A"
  by (auto simp: conc_def)

lemma conc_class [simp]: "conc {[c] | c. P c} B = {c # s | c s. P c \<and> s \<in> B}"
  unfolding conc_def by (auto, metis append_Cons append_Nil)

lemma conc_insert_Nil [simp]: "conc (insert [] A) B = B \<union> conc A B"
  by (force simp: conc_def)

lemma star_Cons: "c # w \<in> star A \<longleftrightarrow> w \<in> conc {u. c # u \<in> A} (star A)"
proof
  assume "c # w \<in> star A"
  then show "w \<in> conc {u. c # u \<in> A} (star A)"
  proof (induction "c # w" arbitrary: w)
    case (more u v)
    then show ?case by (cases u) (auto simp: conc_def)
  qed
next
  assume "w \<in> conc {u. c # u \<in> A} (star A)"
  then obtain u v where "w = u @ v" "c # u \<in> A" "v \<in> star A" by (auto simp: conc_def)
  then show "c # w \<in> star A" using star.more [of "c # u" A v] by simp
qed

lemma lang_mk_seq [simp]: "lang (mk_seq r s) = conc (lang r) (lang s)"
  by (cases "(r, s)" rule: mk_seq.cases) auto

lemma lang_mk_alt [simp]: "lang (mk_alt r s) = lang r \<union> lang s"
  by (cases "(r, s)" rule: mk_alt.cases) auto

lemma nullable_iff: "nullable r \<longleftrightarrow> [] \<in> lang r"
  by (induction r) (auto intro: star.empty)

lemma lang_deriv: "lang (deriv c r) = {w. c # w \<in> lang r}"
  by (induction r) (auto simp: conc_Cons star_Cons nullable_iff)

lemma accepts_iff: "accepts r s \<longleftrightarrow> s \<in> lang r"
  by (induction r s rule: accepts.induct) (auto simp: nullable_iff lang_deriv)

lemma accepts_front_iff: "accepts_front r s \<longleftrightarrow> (\<exists>u v. s = u @ v \<and> u \<in> lang r)"
proof (induction r s rule: accepts_front.induct)
  case (2 r c cs)
  show ?case
    by (auto simp: 2 nullable_iff lang_deriv Cons_eq_append_conv)
qed (auto simp: nullable_iff)

lemma MatchString_iff: "MatchString r s \<longleftrightarrow> (\<exists>u v w. s = u @ v @ w \<and> v \<in> lang r)"
proof (induction r s rule: MatchString.induct)
  case (2 r c cs)
  have "(\<exists>u v w. c # cs = u @ v @ w \<and> v \<in> lang r) \<longleftrightarrow>
      (\<exists>v w. c # cs = v @ w \<and> v \<in> lang r) \<or> (\<exists>u v w. cs = u @ v @ w \<and> v \<in> lang r)"
    (is "?any \<longleftrightarrow> ?front \<or> ?later")
  proof
    assume ?any
    then obtain u v w where m: "c # cs = u @ v @ w" "v \<in> lang r" by blast
    then show "?front \<or> ?later" by (cases u) auto
  next
    assume "?front \<or> ?later"
    then show ?any by (metis append_Cons append_Nil)
  qed
  with 2 show ?case by (simp add: accepts_front_iff)
qed (auto simp: nullable_iff)

section \<open>Languages of the derived forms\<close>

lemma conc_Collect: "w \<in> conc A B \<longleftrightarrow> (\<exists>u v. w = u @ v \<and> u \<in> A \<and> v \<in> B)"
  by (auto simp: conc_def)

lemma lang_RSeqs: "lang (RSeqs rs) = foldr (\<lambda>r. conc (lang r)) rs {[]}"
  by (induction rs) (auto simp: RSeqs_def)

lemma lang_RAlts [simp]: "lang (RAlts rs) = \<Union> (lang ` set rs)"
  by (induction rs) (auto simp: RAlts_def)

lemma RSeqs_simps [simp]: "lang (RSeqs []) = {[]}" "lang (RSeqs (r # rs)) = conc (lang r) (lang (RSeqs rs))"
  by (simp_all add: lang_RSeqs)

lemma lang_chr [simp]: "lang (chr c) = {[c]}" "lang (ichr c) = {[x] | x. lower x = lower c}"
  by (auto simp: chr_def ichr_def)

lemma lang_itext [simp]: "lang (itext t) = {s. ToLower s = ToLower t}"
proof (induction t)
  case (Cons c t)
  have "lang (itext (c # t)) = {x # s | x s. lower x = lower c \<and> s \<in> lang (itext t)}"
    by (simp add: itext_def)
  then show ?case unfolding Cons by (auto simp: ToLower_def map_eq_Cons_conv)
qed (auto simp: itext_def ToLower_def)

lemma lang_ROpt [simp]: "lang (ROpt r) = insert [] (lang r)"
  by (auto simp: ROpt_def)

lemma lang_star_class: "star {[c] | c. P c} = {s. list_all P s}"
proof (intro set_eqI iffI CollectI)
  fix s assume "s \<in> star {[c] | c. P c}"
  then show "list_all P s" by induction auto
next
  fix s assume "s \<in> {s. list_all P s}"
  then have "list_all P s" by simp
  then show "s \<in> star {[c] | c. P c}"
  proof (induction s)
    case (Cons c s)
    then show ?case using star.more [of "[c]" "{[c] | c. P c}" s] by simp
  qed (rule star.empty)
qed

lemma lang_RStar_class [simp]: "lang (RStar (RClass P)) = {s. list_all P s}"
  by (simp add: lang_star_class)

lemma lang_RPlus_class: "lang (RPlus (RClass P)) = {s. s \<noteq> [] \<and> list_all P s}"
  by (auto simp: RPlus_def lang_star_class neq_Nil_conv)

lemma lang_repeat_opt_class:
  "lang (RSeqs (replicate n (ROpt (RClass P)))) = {s. length s \<le> n \<and> list_all P s}"
proof (induction n)
  case (Suc n)
  have "lang (RSeqs (replicate (Suc n) (ROpt (RClass P)))) =
      {s. length s \<le> n \<and> list_all P s} \<union> {c # s | c s. P c \<and> s \<in> {s. length s \<le> n \<and> list_all P s}}"
    by (simp only: replicate_Suc RSeqs_simps lang_ROpt lang.simps conc_insert_Nil conc_class Suc)
  also have "\<dots> = {s. length s \<le> Suc n \<and> list_all P s}"
    by (auto simp: le_Suc_eq length_Suc_conv)
  finally show ?case .
qed auto

lemma lang_repeat_class:
  "lang (RSeqs (replicate m (RClass P) @ rs)) = conc {s. length s = m \<and> list_all P s} (lang (RSeqs rs))"
proof (induction m)
  case 0
  have "{s. s = [] \<and> list_all P s} = {[]}" by auto
  then show ?case by simp
next
  case (Suc m)
  have "conc {[c] | c. P c} (conc {s. length s = m \<and> list_all P s} L) = conc {s. length s = Suc m \<and> list_all P s} L"
    (is "?lhs = ?rhs") for L
  proof (intro set_eqI iffI)
    fix w assume "w \<in> ?lhs"
    then obtain c u v where "P c" "w = c # u @ v" "length u = m" "list_all P u" "v \<in> L" by (auto simp: conc_Collect)
    then show "w \<in> ?rhs" unfolding conc_Collect by (intro exI [of _ "c # u"] exI [of _ v]) simp
  next
    fix w assume "w \<in> ?rhs"
    then obtain u v where u: "w = u @ v" "length u = Suc m" "list_all P u" "v \<in> L" by (auto simp: conc_Collect)
    then obtain c u' where "u = c # u'" by (cases u) auto
    with u show "w \<in> ?lhs" by (auto simp: conc_Collect)
  qed
  with Suc show ?case by simp
qed

lemma lang_RRepeat_class:
  assumes "m \<le> n"
  shows "lang (RRepeat m n (RClass P)) = {s. m \<le> length s \<and> length s \<le> n \<and> list_all P s}"
proof -
  have "s \<in> conc {s. length s = m \<and> list_all P s} {s. length s \<le> n - m \<and> list_all P s}"
    if "m \<le> length s" "length s \<le> n" "list_all P s" for s
    using that unfolding conc_Collect
    by (intro exI [of _ "take m s"] exI [of _ "drop m s"]) (auto simp: list_all_iff dest: in_set_takeD in_set_dropD)
  with assms show ?thesis
    unfolding RRepeat_def lang_repeat_class lang_repeat_opt_class by (auto simp: conc_def)
qed

end
