(* ===== verification/Validation.thy ===== *)
theory Validation
  imports GoRegexp HttpContext
begin

text \<open>
  \<open>middleware/validation.go\<close> (the request filter; \<open>SanitizeInput\<close> is in the theory of the other
  middleware) and \<open>validator/validator.go\<close>. A map of query or form values is the list of its entries in
  the order the loop visits them. \<open>ParseForm\<close> fills \<open>PostForm\<close> from an urlencoded body only: a
  multipart body is read by \<open>ParseMultipartForm\<close>, which the code does not call.
\<close>

section \<open>The patterns\<close>

definition quote_r :: rexp where
  \<comment> \<open>\<open>((\%27)|('))\<close>\<close>
  "quote_r = RAlt (itext ''%27'') (ichr CHR 0x27)"

definition o_r :: rexp where
  \<comment> \<open>\<open>((\%6F)|o|(\%4F))\<close>\<close>
  "o_r = RAlts [itext ''%6F'', ichr CHR ''o'', itext ''%4F'']"

definition r_r :: rexp where
  \<comment> \<open>\<open>((\%72)|r|(\%52))\<close>\<close>
  "r_r = RAlts [itext ''%72'', ichr CHR ''r'', itext ''%52'']"

definition gap :: "string \<Rightarrow> string \<Rightarrow> rexp" where
  \<comment> \<open>\<open>a.*b\<close>\<close>
  "gap a b = RSeqs [itext a, RStar RAny, itext b]"

definition sqlInjectionPatterns :: "rexp list" where
  "sqlInjectionPatterns =
    [RSeqs [quote_r, RStar (RClass is_blank), o_r, r_r],
     RSeqs [RStar (RClass is_word), quote_r, o_r, r_r],
     RSeqs [quote_r, itext ''union''],
     RSeqs [itext ''exec'', RPlus (RAlt (RClass is_blank) (chr CHR ''+'')), RAlt (ichr CHR ''s'') (ichr CHR ''x''),
       ichr CHR ''p'', RPlus (RClass is_word)],
     gap ''UNION'' ''SELECT'',
     gap ''SELECT'' ''FROM'',
     gap ''INSERT'' ''INTO'',
     gap ''DELETE'' ''FROM'',
     gap ''DROP'' ''TABLE'',
     gap ''UPDATE'' ''SET'',
     RAlts [itext '';'', itext ''--'', itext ''/*'', itext ''*/'', itext ''xp_'']]"

definition element :: "string \<Rightarrow> rexp" where
  \<comment> \<open>\<open><name[^>]*>\<close>\<close>
  "element name = RSeqs [itext (''<'' @ name), RStar (RClass (\<lambda>c. c \<noteq> CHR ''>'')), itext ''>'']"

definition xssPatterns :: "rexp list" where
  "xssPatterns =
    [RSeqs [element ''script'', RStar RAny, itext ''</script>''],
     RSeqs [element ''iframe'', RStar RAny, itext ''</iframe>''],
     itext ''javascript:'',
     RSeqs [itext ''on'', RPlus (RClass is_word), RStar (RClass is_blank), itext ''=''],
     element ''embed'',
     element ''object'']"

section \<open>The filter\<close>

definition isMalicious :: "string \<Rightarrow> bool" where
  "isMalicious input =
     (let input = ToLower input
      in list_ex (\<lambda>pattern. MatchString pattern input) sqlInjectionPatterns
         \<or> list_ex (\<lambda>pattern. MatchString pattern input) xssPatterns)"

type_synonym form_values = "(string \<times> string list) list"

datatype filtered = NextHandler | BadInput string
  \<comment> \<open>the request goes on, or is answered with 400 and the name of the field\<close>

fun check_values :: "form_values \<Rightarrow> string option" where
  \<comment> \<open>the field of the first value that is refused\<close>
  "check_values [] = None"
| "check_values ((key, values) # rest) = (if list_ex isMalicious values then Some key else check_values rest)"

definition media_type :: "string \<Rightarrow> string" where
  \<comment> \<open>\<open>mime.ParseMediaType\<close>: the type without parameters, in lower case\<close>
  "media_type ct = ToLower (TrimSpace (takeWhile (\<lambda>c. c \<noteq> CHR '';'') ct))"

definition ParseForm :: "string \<Rightarrow> form_values \<Rightarrow> form_values" where
  \<comment> \<open>\<open>PostForm\<close> after \<open>Request.ParseForm\<close>, given the values of the body when it is read as urlencoded\<close>
  "ParseForm contentType body =
     (if media_type contentType = ''application/x-www-form-urlencoded'' then body else [])"

definition InputValidation :: "form_values \<Rightarrow> form_values \<Rightarrow> http_context \<Rightarrow> filtered" where
  "InputValidation query body c =
     (case check_values query of
        Some key \<Rightarrow> BadInput key
      | None \<Rightarrow>
          (let contentType = GetHeader ''Content-Type'' c; method = rMethod (creq c)
           in if method = ''POST'' \<or> method = ''PUT'' \<or> method = ''PATCH''
              then if Contains contentType ''application/x-www-form-urlencoded''
                      \<or> Contains contentType ''multipart/form-data''
                   then (case check_values (ParseForm contentType body) of
                           Some key \<Rightarrow> BadInput key
                         | None \<Rightarrow> NextHandler)
                   else NextHandler
              else NextHandler))"

section \<open>What the filter refuses\<close>







definition form_post :: "string \<Rightarrow> http_context" where
  "form_post contentType =
     start \<lparr>rMethod = ''POST'', rPath = ''/search'', rHeader = [''Content-Type'' \<mapsto> contentType],
            rCookie = Map.empty, rClientIP = ''10.0.0.1''\<rparr>"


text \<open>
  What slips through: a statement with a line break between its keywords is not recognised; the
  values of a multipart form are never looked at; and a form whose content type is written in capital
  letters is not looked at either, although it is parsed as a form all the same.
\<close>
theorem InputValidation_gaps:
  "isMalicious ''select name from users'' \<and> \<not> isMalicious (''select name'' @ [CHR 0x0A] @ ''from users'')
   \<and> isMalicious ''<script>x</script>''
   \<and> InputValidation [] [(''q'', [''<script>x</script>''])] (form_post ''application/x-www-form-urlencoded'') = BadInput ''q''
   \<and> InputValidation [] [(''q'', [''<script>x</script>''])] (form_post ''multipart/form-data; boundary=b'') = NextHandler
   \<and> InputValidation [] [(''q'', [''<script>x</script>''])] (form_post ''Application/x-www-form-urlencoded'') = NextHandler
   \<and> ParseForm ''Application/x-www-form-urlencoded'' [(''q'', [''<script>x</script>''])] = [(''q'', [''<script>x</script>''])]"
  by code_simp

section \<open>Field validators\<close>

definition email_char :: "char \<Rightarrow> bool" where
  "email_char c \<longleftrightarrow> is_letter c \<or> is_digit c \<or> c \<in> {CHR ''.'', CHR ''_'', CHR ''%'', CHR ''+'', CHR ''-''}"

definition domain_char :: "char \<Rightarrow> bool" where
  "domain_char c \<longleftrightarrow> is_letter c \<or> is_digit c \<or> c \<in> {CHR ''.'', CHR ''-''}"

definition emailRegex :: rexp where
  \<comment> \<open>\<open>[a-zA-Z0-9._%+-]+@[a-zA-Z0-9.-]+\.[a-zA-Z]{2,}\<close>, anchored\<close>
  "emailRegex =
     RSeqs [RPlus (RClass email_char), chr CHR ''@'', RPlus (RClass domain_char), chr CHR ''.'',
            RClass is_letter, RPlus (RClass is_letter)]"

definition phoneRegex :: rexp where
  \<comment> \<open>\<open>\+?[1-9]\d{1,14}\<close>, anchored\<close>
  "phoneRegex =
     RSeqs [ROpt (chr CHR ''+''), RClass (between CHR ''1'' CHR ''9''), RRepeat 1 14 (RClass is_digit)]"

definition validateEmail :: "string \<Rightarrow> bool" where
  "validateEmail field = accepts emailRegex field"

definition validatePhone :: "string \<Rightarrow> bool" where
  "validatePhone field = accepts phoneRegex field"

record FieldError =
  feField :: string
  feTag :: string
  feParam :: string

definition formatErrorMessage :: "FieldError \<Rightarrow> string" where
  "formatErrorMessage e =
     (if feTag e = ''required'' then ''This field is required''
      else if feTag e = ''email'' then ''Invalid email address''
      else if feTag e = ''phone'' then ''Invalid phone number''
      else if feTag e = ''min'' then ''Value is too short''
      else if feTag e = ''max'' then ''Value is too long''
      else if feTag e = ''gte'' then ''Value must be greater than or equal to '' @ feParam e
      else if feTag e = ''lte'' then ''Value must be less than or equal to '' @ feParam e
      else ''Invalid value'')"

datatype validate_error = ValidationErrors "FieldError list" | OtherError string

fun FormatValidationErrors :: "validate_error \<Rightarrow> (string \<rightharpoonup> string)" where
  "FormatValidationErrors (ValidationErrors es) = foldl (\<lambda>m e. m(feField e \<mapsto> formatErrorMessage e)) Map.empty es"
| "FormatValidationErrors (OtherError _) = Map.empty"

text \<open>
  The validators accept exactly what they document: a phone number is an optional plus sign, a
  digit from 1 to 9 and one to fourteen more digits (E.164); an email address is a local part, an at
  sign, and a domain that ends in a dot and two or more letters, with no other character anywhere.
\<close>
theorem validators_iff:
  "(validatePhone s \<longleftrightarrow>
      (\<exists>plus d ds. s = plus @ d # ds \<and> plus \<in> {'''', ''+''} \<and> between CHR ''1'' CHR ''9'' d
         \<and> 1 \<le> length ds \<and> length ds \<le> 14 \<and> list_all is_digit ds))
   \<and> (validateEmail s \<longleftrightarrow>
      (\<exists>user host tld. s = user @ ''@'' @ host @ ''.'' @ tld \<and> user \<noteq> '''' \<and> host \<noteq> '''' \<and> 2 \<le> length tld
         \<and> list_all email_char user \<and> list_all domain_char host \<and> list_all is_letter tld))"
proof
  have rr: "lang (RRepeat 1 14 (RClass is_digit)) = {s. 1 \<le> length s \<and> length s \<le> 14 \<and> list_all is_digit s}"
    by (rule lang_RRepeat_class) simp
  have l: "lang phoneRegex = (let B = {c # s | c s. between CHR ''1'' CHR ''9'' c \<and> s \<in> lang (RRepeat 1 14 (RClass is_digit))}
      in B \<union> conc {''+''} B)"
    by (simp add: phoneRegex_def Let_def)
  have p: "conc {''+''} B = {CHR ''+'' # w | w. w \<in> B}" for B by (auto simp: conc_def)
  have e: "(\<exists>plus d ds. s = plus @ d # ds \<and> plus \<in> {[], ''+''} \<and> Q d ds) \<longleftrightarrow>
      (\<exists>d ds. s = d # ds \<and> Q d ds) \<or> (\<exists>d ds. s = CHR ''+'' # d # ds \<and> Q d ds)" for Q
    by (metis append_Cons append_Nil empty_iff insert_iff)
  have "validatePhone s \<longleftrightarrow>
      (\<exists>d ds. s = d # ds \<and> between CHR ''1'' CHR ''9'' d \<and> 1 \<le> length ds \<and> length ds \<le> 14 \<and> list_all is_digit ds)
    \<or> (\<exists>d ds. s = CHR ''+'' # d # ds \<and> between CHR ''1'' CHR ''9'' d \<and> 1 \<le> length ds \<and> length ds \<le> 14 \<and> list_all is_digit ds)"
    unfolding validatePhone_def accepts_iff l rr Let_def p Un_iff mem_Collect_eq
    by (rule iffI; elim disjE exE conjE; metis)
  then show "validatePhone s \<longleftrightarrow>
      (\<exists>plus d ds. s = plus @ d # ds \<and> plus \<in> {'''', ''+''} \<and> between CHR ''1'' CHR ''9'' d
         \<and> 1 \<le> length ds \<and> length ds \<le> 14 \<and> list_all is_digit ds)"
    by (simp only: e)
next
  have two: "conc {[c] | c. is_letter c} {s. s \<noteq> [] \<and> list_all is_letter s} = {s. 2 \<le> length s \<and> list_all is_letter s}"
    by (auto simp: Suc_le_length_iff numeral_2_eq_2 neq_Nil_conv)
  show "validateEmail s \<longleftrightarrow>
      (\<exists>user host tld. s = user @ ''@'' @ host @ ''.'' @ tld \<and> user \<noteq> '''' \<and> host \<noteq> '''' \<and> 2 \<le> length tld
         \<and> list_all email_char user \<and> list_all domain_char host \<and> list_all is_letter tld)"
    unfolding validateEmail_def accepts_iff emailRegex_def RSeqs_simps lang_RPlus_class lang_chr lang.simps
      conc_Nil_right two conc_Collect mem_Collect_eq singleton_iff
    by (rule iffI; elim exE conjE; metis append_assoc)
qed

end
