(* ===== verification/BizDay.thy ===== *)
theory BizDay
  imports GoRegexp
begin

text \<open>
  \<open>bizday/bizday.go\<close>: the business time zone and the SQL fragments that carry its name. The time zone
  database is the argument \<open>LoadLocation\<close>; civil dates in a location are the arguments \<open>In\<close> (year,
  month and day of an instant there), \<open>Date\<close> (midnight of a day there) and \<open>Parse\<close>
  (\<open>time.ParseInLocation\<close> with the date layout). The process-wide variables are the record \<open>bizday_vars\<close>.
\<close>

section \<open>Zones\<close>

definition DefaultZone :: string where
  "DefaultZone = ''Asia/Kuala_Lumpur''"

definition EnvVar :: string where
  "EnvVar = ''BUSINESS_TIMEZONE''"

definition zone_char :: "char \<Rightarrow> bool" where
  "zone_char c \<longleftrightarrow> is_letter c \<or> is_digit c \<or> c \<in> {CHR ''_'', CHR ''+'', CHR ''-''}"

definition zoneName :: rexp where
  \<comment> \<open>\<open>[A-Za-z][A-Za-z0-9_+-]*(/[A-Za-z0-9_+-]+)*\<close>, anchored\<close>
  "zoneName =
     RSeqs [RClass is_letter, RStar (RClass zone_char), RStar (RSeqs [chr CHR ''/'', RPlus (RClass zone_char)])]"

record 'l Zone =
  zname :: string
  zloc :: "'l option"
    \<comment> \<open>\<open>None\<close>: the nil location of the zero Zone\<close>

datatype zone_error = NotAZoneName string | UnknownZone string string

definition zeroZone :: "'l Zone" where
  "zeroZone = \<lparr>zname = '''', zloc = None\<rparr>"

definition Load :: "(string \<Rightarrow> string + 'l) \<Rightarrow> string \<Rightarrow> 'l Zone \<times> zone_error option" where
  "Load LoadLocation name =
     (let name = (if name = '''' then DefaultZone else name)
      in if \<not> accepts zoneName name then (zeroZone, Some (NotAZoneName name))
         else case LoadLocation name of
                Inl err \<Rightarrow> (zeroZone, Some (UnknownZone name err))
              | Inr loc \<Rightarrow> (\<lparr>zname = name, zloc = Some loc\<rparr>, None))"

definition resolve :: "(string \<Rightarrow> string + 'l) \<Rightarrow> string \<Rightarrow> 'l Zone \<times> zone_error option" where
  "resolve LoadLocation configured =
     (case Load LoadLocation configured of
        (z, Some err) \<Rightarrow> (fst (Load LoadLocation DefaultZone), Some err)
      | (z, None) \<Rightarrow> (z, None))"

record 'l bizday_vars =
  onceDone :: bool
  current :: "'l Zone"
  currentErr :: "zone_error option"

definition bizday_init :: "'l bizday_vars" where
  "bizday_init = \<lparr>onceDone = False, current = zeroZone, currentErr = None\<rparr>"

definition Current ::
  "(string \<Rightarrow> string + 'l) \<Rightarrow> (string \<Rightarrow> string) \<Rightarrow> 'l bizday_vars \<Rightarrow> 'l Zone \<times> 'l bizday_vars" where
  \<comment> \<open>\<open>Getenv\<close> is the environment at the time of the call\<close>
  "Current LoadLocation Getenv v =
     (let v' = (if onceDone v then v
                else let (z, err) = resolve LoadLocation (Getenv EnvVar)
                     in \<lparr>onceDone = True, current = z, currentErr = err\<rparr>)
      in (current v', v'))"

definition ConfigError ::
  "(string \<Rightarrow> string + 'l) \<Rightarrow> (string \<Rightarrow> string) \<Rightarrow> 'l bizday_vars \<Rightarrow> zone_error option \<times> 'l bizday_vars" where
  "ConfigError LoadLocation Getenv v =
     (let v' = snd (Current LoadLocation Getenv v) in (currentErr v', v'))"

section \<open>Days and SQL\<close>

definition Zone_Name :: "'l Zone \<Rightarrow> string" where
  "Zone_Name z = zname z"

definition Zone_Location :: "'l Zone \<Rightarrow> 'l option" where
  "Zone_Location z = zloc z"

definition ParseDate :: "('l option \<Rightarrow> string \<Rightarrow> string + Time) \<Rightarrow> 'l Zone \<Rightarrow> string \<Rightarrow> string + Time" where
  "ParseDate Parse z s = Parse (zloc z) s"

definition StartOfDay ::
  "('l option \<Rightarrow> Time \<Rightarrow> int \<times> nat \<times> nat) \<Rightarrow> ('l option \<Rightarrow> int \<times> nat \<times> nat \<Rightarrow> Time) \<Rightarrow> 'l Zone \<Rightarrow> Time \<Rightarrow> Time" where
  "StartOfDay In Date z t = Date (zloc z) (In (zloc z) t)"

definition zone_local :: "'l Zone \<Rightarrow> string \<Rightarrow> string" where
  "zone_local z col = ''('' @ col @ '' AT TIME ZONE '' @ [CHR 0x27] @ zname z @ [CHR 0x27] @ '')''"

definition SQLDate :: "'l Zone \<Rightarrow> string \<Rightarrow> string" where
  "SQLDate z col = zone_local z col @ ''::date''"

definition SQLTrunc :: "'l Zone \<Rightarrow> string \<Rightarrow> string \<Rightarrow> string go" where
  "SQLTrunc z unit col =
     (if unit \<in> {''day'', ''week'', ''month'', ''year''}
      then Ret (''date_trunc('' @ [CHR 0x27] @ unit @ [CHR 0x27] @ '', '' @ zone_local z col @ '')'')
      else Panic (''bizday: unsupported date_trunc unit '' @ unit))"

definition SQLStartOf :: "'l Zone \<Rightarrow> string \<Rightarrow> string go" where
  "SQLStartOf z unit =
     (case SQLTrunc z unit ''now()'' of
        Panic msg \<Rightarrow> Panic msg
      | Ret s \<Rightarrow> Ret (''('' @ s @ '' AT TIME ZONE '' @ [CHR 0x27] @ zname z @ [CHR 0x27] @ '')''))"

section \<open>The zone name in SQL\<close>

definition name_char :: "char \<Rightarrow> bool" where
  "name_char c \<longleftrightarrow> zone_char c \<or> c = CHR ''/''"

lemma star_list_all: "w \<in> star A \<Longrightarrow> (\<And>u. u \<in> A \<Longrightarrow> list_all P u) \<Longrightarrow> list_all P w"
  by (induction rule: star.induct) auto

lemma zone_chars_name: "list_all zone_char s \<Longrightarrow> list_all name_char s"
  by (simp add: list_all_iff name_char_def)

lemma zoneName_chars:
  assumes "accepts zoneName s"
  shows "list_all name_char s"
proof -
  from assms obtain c u v where s: "s = [c] @ u @ v" and c: "is_letter c" and u: "list_all zone_char u"
    and v: "v \<in> star (lang (RSeqs [chr CHR ''/'', RPlus (RClass zone_char)]))"
    by (auto simp: accepts_iff zoneName_def conc_Collect lang_star_class simp del: lang_chr)
  have "list_all name_char x" if "x \<in> lang (RSeqs [chr CHR ''/'', RPlus (RClass zone_char)])" for x
    using that by (auto simp: lang_RPlus_class conc_Collect name_char_def dest: zone_chars_name)
  then have "list_all name_char v" by (rule star_list_all [OF v])
  moreover have "list_all name_char u" using u by (rule zone_chars_name)
  ultimately show ?thesis using c by (simp add: s name_char_def zone_char_def)
qed

lemma Load_chars: "list_all name_char (zname (fst (Load LoadLocation name)))"
  by (auto simp: Load_def Let_def zeroZone_def split: sum.splits intro: zoneName_chars)

lemma resolve_chars: "list_all name_char (zname (fst (resolve LoadLocation configured)))"
  unfolding resolve_def
  using Load_chars [of LoadLocation configured] Load_chars [of LoadLocation DefaultZone]
  by (cases "Load LoadLocation configured") (auto split: option.splits)

lemma name_char_no_quote: "list_all name_char s \<Longrightarrow> count_list s CHR 0x27 = 0"
  unfolding count_list_0_iff
  by (auto simp: list_all_iff name_char_def zone_char_def is_letter_def is_digit_def between_def)

text \<open>
  C37. Whatever the environment variable holds, the zone in use has a name of letters, digits,
  underscores, signs and slashes, so it cannot end the SQL literal it is written into: every fragment
  has exactly the quotes of its own text and of the column expression. A refused value leaves the
  default zone in force and its reason in \<open>ConfigError\<close>, and the zone never changes once it was read,
  whatever becomes of the environment.
\<close>
theorem zone_literal_closed:
  fixes LoadLocation :: "string \<Rightarrow> string + 'l" and Getenv Getenv' :: "string \<Rightarrow> string"
  defines "v \<equiv> snd (Current LoadLocation Getenv bizday_init)"
  shows "list_all name_char (zname (current v))
    \<and> count_list (SQLDate (current v) col) CHR 0x27 = count_list col CHR 0x27 + 2
    \<and> (\<forall>s. SQLTrunc (current v) unit col = Ret s \<longrightarrow> count_list s CHR 0x27 = count_list col CHR 0x27 + 4)
    \<and> (\<forall>s. SQLStartOf (current v) unit = Ret s \<longrightarrow> count_list s CHR 0x27 = 6)
    \<and> Current LoadLocation Getenv' v = (current v, v)
    \<and> ConfigError LoadLocation Getenv' v = (snd (resolve LoadLocation (Getenv EnvVar)), v)
    \<and> (currentErr v \<noteq> None \<longrightarrow> current v = fst (Load LoadLocation DefaultZone))"
proof -
  have v: "current v = fst (resolve LoadLocation (Getenv EnvVar))" "currentErr v = snd (resolve LoadLocation (Getenv EnvVar))"
    "onceDone v"
    by (simp_all add: v_def Current_def bizday_init_def Let_def split_beta)
  have n: "list_all name_char (zname (current v))" unfolding v by (rule resolve_chars)
  note q = name_char_no_quote [OF n]
  have d: "count_list (SQLDate (current v) col) CHR 0x27 = count_list col CHR 0x27 + 2"
    by (simp add: SQLDate_def zone_local_def q)
  have t: "\<forall>s. SQLTrunc (current v) unit col = Ret s \<longrightarrow> count_list s CHR 0x27 = count_list col CHR 0x27 + 4"
    by (auto simp: SQLTrunc_def zone_local_def q split: if_splits)
  have st: "\<forall>s. SQLStartOf (current v) unit = Ret s \<longrightarrow> count_list s CHR 0x27 = 6"
    by (auto simp: SQLStartOf_def SQLTrunc_def zone_local_def q split: if_splits)
  have c: "Current LoadLocation Getenv' v = (current v, v)"
    "ConfigError LoadLocation Getenv' v = (snd (resolve LoadLocation (Getenv EnvVar)), v)"
    by (simp_all add: Current_def ConfigError_def v)
  have "currentErr v \<noteq> None \<longrightarrow> current v = fst (Load LoadLocation DefaultZone)"
    unfolding v by (auto simp: resolve_def split: prod.splits option.splits)
  with n d t st c show ?thesis by blast
qed

theorem zone_literal_closed_witness:
  "current (snd (Current (\<lambda>_. Inr ()) (\<lambda>_. [CHR 0x27] @ ''; DROP TABLE orders'') bizday_init))
     = \<lparr>zname = ''Asia/Kuala_Lumpur'', zloc = Some ()\<rparr>"
proof -
  let ?env = "\<lambda>_ :: string. [CHR 0x27] @ ''; DROP TABLE orders''"
  let ?v = "snd (Current (\<lambda>_. Inr ()) ?env bizday_init) :: unit bizday_vars"
  have "currentErr ?v \<noteq> None" by code_simp
  with zone_literal_closed [of "\<lambda>_. Inr ()" ?env "''created_at''" "''day''" ?env]
  have "current ?v = fst (Load (\<lambda>_. Inr ()) DefaultZone)" by blast
  moreover have "fst (Load (\<lambda>_. Inr ()) DefaultZone) = \<lparr>zname = ''Asia/Kuala_Lumpur'', zloc = Some ()\<rparr>" by code_simp
  ultimately show ?thesis by simp
qed

end
