(* ===== verification/TrustedProxies.thy ===== *)
theory TrustedProxies
  imports GoStrings
begin

text \<open>
  \<open>middleware/trusted_proxies.go\<close>: which proxies may set the client address. Addresses and prefixes
  are those of \<open>net/netip\<close>, as words; the readers and the printer of their texts (\<open>parse_prefix\<close>,
  \<open>parse_addr\<close>, \<open>show_prefix\<close>) are arguments, of which only the reading of the six constant ranges is
  assumed. gin's \<open>SetTrustedProxies\<close> is an argument, too.
\<close>

section \<open>Addresses and prefixes\<close>

datatype addr = V4 "32 word" | V6 "128 word" string
  \<comment> \<open>the string is the zone of an IPv6 address\<close>

record Prefix =
  pAddr :: addr
  pBits :: nat

fun BitLen :: "addr \<Rightarrow> nat" where
  "BitLen (V4 w) = 32"
| "BitLen (V6 w z) = 128"

fun withoutZone :: "addr \<Rightarrow> addr" where
  "withoutZone (V4 w) = V4 w"
| "withoutZone (V6 w z) = V6 w ''''"

definition PrefixFrom :: "addr \<Rightarrow> nat \<Rightarrow> Prefix" where
  "PrefixFrom ip bits = \<lparr>pAddr = withoutZone ip, pBits = bits\<rparr>"

fun mask_addr :: "nat \<Rightarrow> addr \<Rightarrow> addr" where
  "mask_addr n (V4 w) = V4 (push_bit (32 - n) (drop_bit (32 - n) w))"
| "mask_addr n (V6 w z) = V6 (push_bit (128 - n) (drop_bit (128 - n) w)) z"

definition Masked :: "Prefix \<Rightarrow> Prefix" where
  "Masked p = \<lparr>pAddr = mask_addr (pBits p) (pAddr p), pBits = pBits p\<rparr>"

fun same_front :: "nat \<Rightarrow> addr \<Rightarrow> addr \<Rightarrow> bool" where
  \<comment> \<open>the first n bits agree; the families never mix, and a zoned address is in no prefix\<close>
  "same_front n (V4 a) (V4 b) = (drop_bit (32 - n) a = drop_bit (32 - n) b)"
| "same_front n (V6 a _) (V6 b z) = (z = '''' \<and> drop_bit (128 - n) a = drop_bit (128 - n) b)"
| "same_front n _ _ = False"

definition pContains :: "Prefix \<Rightarrow> addr \<Rightarrow> bool" where
  "pContains p ip \<longleftrightarrow> same_front (pBits p) (pAddr p) ip"

section \<open>The configuration\<close>

definition DefaultTrustedProxies :: string where
  "DefaultTrustedProxies = ''127.0.0.0/8,::1/128,10.0.0.0/8,172.16.0.0/12,192.168.0.0/16,fc00::/7''"

fun find_boundary :: "(string \<Rightarrow> Prefix option) \<Rightarrow> Prefix \<Rightarrow> string list \<Rightarrow> bool go" where
  "find_boundary parse_prefix pfx [] = Ret False"
| "find_boundary parse_prefix pfx (rangeText # rest) =
     (case parse_prefix rangeText of
        None \<Rightarrow> Panic ''netip: MustParsePrefix''
      | Some boundary \<Rightarrow>
          if pContains boundary (pAddr pfx) \<and> pBits pfx \<ge> pBits boundary then Ret True
          else find_boundary parse_prefix pfx rest)"

definition read_entry :: "(string \<Rightarrow> Prefix option) \<Rightarrow> (string \<Rightarrow> addr option) \<Rightarrow> string \<Rightarrow> Prefix option" where
  "read_entry parse_prefix parse_addr entry =
     (case parse_prefix entry of
        Some p \<Rightarrow> Some (Masked p)
      | None \<Rightarrow>
          (case parse_addr entry of
             None \<Rightarrow> None
           | Some ip \<Rightarrow> Some (Masked (PrefixFrom ip (BitLen ip)))))"

fun proxy_loop ::
  "(string \<Rightarrow> Prefix option) \<Rightarrow> (string \<Rightarrow> addr option) \<Rightarrow> (Prefix \<Rightarrow> string) \<Rightarrow> string list \<Rightarrow> string list
     \<Rightarrow> string list \<Rightarrow> (string + string list) go" where
  "proxy_loop parse_prefix parse_addr show_prefix allowed proxies [] = Ret (Inr proxies)"
| "proxy_loop parse_prefix parse_addr show_prefix allowed proxies (raw # rest) =
     (let entry = TrimSpace raw
      in case read_entry parse_prefix parse_addr entry of
           None \<Rightarrow> Ret (Inl (''invalid TRUSTED_PROXIES entry '' @ entry))
         | Some pfx \<Rightarrow>
             (case find_boundary parse_prefix pfx allowed of
                Panic msg \<Rightarrow> Panic msg
              | Ret private \<Rightarrow>
                  if \<not> private
                  then Ret (Inl (''TRUSTED_PROXIES entry '' @ entry @ '' must be contained in a loopback or private range''))
                  else proxy_loop parse_prefix parse_addr show_prefix allowed (proxies @ [show_prefix pfx]) rest))"

definition privateProxyList ::
  "(string \<Rightarrow> Prefix option) \<Rightarrow> (string \<Rightarrow> addr option) \<Rightarrow> (Prefix \<Rightarrow> string) \<Rightarrow> string \<Rightarrow> (string + string list) go" where
  "privateProxyList parse_prefix parse_addr show_prefix value =
     (if TrimSpace value = '''' then Ret (Inr [])
      else proxy_loop parse_prefix parse_addr show_prefix (Split DefaultTrustedProxies CHR '','') []
             (Split value CHR '',''))"

record Engine =
  eTrusted :: "string list"
    \<comment> \<open>the proxies whose headers gin believes\<close>
  TrustedPlatform :: string
  AppEngine :: bool
  RemoteIPHeaders :: "string list"
  ForwardedByClientIP :: bool

definition ConfigureTrustedProxies ::
  "(string list \<Rightarrow> Engine \<Rightarrow> string option \<times> Engine) \<Rightarrow> (string \<Rightarrow> Prefix option) \<Rightarrow> (string \<Rightarrow> addr option)
     \<Rightarrow> (Prefix \<Rightarrow> string) \<Rightarrow> string option \<Rightarrow> Engine \<Rightarrow> (string option \<times> Engine) go" where
  \<comment> \<open>the \<open>string option\<close> is \<open>os.LookupEnv("TRUSTED_PROXIES")\<close>\<close>
  "ConfigureTrustedProxies SetTrustedProxies parse_prefix parse_addr show_prefix env router =
     (case SetTrustedProxies [] router of
        (Some err, r) \<Rightarrow> Ret (Some (''disable trusted proxies: '' @ err), r)
      | (None, r) \<Rightarrow>
          (let r = r\<lparr>TrustedPlatform := '''', AppEngine := False, RemoteIPHeaders := [''X-Forwarded-For''],
                     ForwardedByClientIP := True\<rparr>;
               value = (case env of None \<Rightarrow> DefaultTrustedProxies | Some v \<Rightarrow> v)
           in case privateProxyList parse_prefix parse_addr show_prefix value of
                Panic msg \<Rightarrow> Panic msg
              | Ret (Inl err) \<Rightarrow> Ret (Some err, r)
              | Ret (Inr proxies) \<Rightarrow>
                  (case SetTrustedProxies proxies r of
                     (Some err, r') \<Rightarrow> Ret (Some (''configure trusted proxies: '' @ err), r')
                   | (None, r') \<Rightarrow> Ret (None, r'))))"

section \<open>Only private ranges are trusted\<close>

definition private_ranges :: "Prefix list" where
  "private_ranges =
    [\<lparr>pAddr = V4 0x7F000000, pBits = 8\<rparr>, \<lparr>pAddr = V6 1 '''', pBits = 128\<rparr>, \<lparr>pAddr = V4 0x0A000000, pBits = 8\<rparr>,
     \<lparr>pAddr = V4 0xAC100000, pBits = 12\<rparr>, \<lparr>pAddr = V4 0xC0A80000, pBits = 16\<rparr>,
     \<lparr>pAddr = V6 0xFC000000000000000000000000000000 '''', pBits = 7\<rparr>]"

definition reads_ranges :: "(string \<Rightarrow> Prefix option) \<Rightarrow> bool" where
  \<comment> \<open>netip reads the six constants as the ranges they denote\<close>
  "reads_ranges parse_prefix \<longleftrightarrow>
     map parse_prefix (Split DefaultTrustedProxies CHR '','') = map Some private_ranges"

definition inside :: "Prefix \<Rightarrow> Prefix \<Rightarrow> bool" where
  "inside p b \<longleftrightarrow> (\<forall>a. pContains p a \<longrightarrow> pContains b a)"

lemma drop_bit_coarser:
  fixes a b :: "'a::len word"
  assumes "drop_bit k a = drop_bit k b" and "k \<le> l"
  shows "drop_bit l a = drop_bit l b"
proof -
  have "drop_bit l x = drop_bit (l - k) (drop_bit k x)" for x :: "'a word"
    using assms(2) by (simp add: drop_bit_drop_bit)
  then show ?thesis by (metis assms(1))
qed

lemma same_front_coarser:
  assumes "same_front m b p" and "same_front n p a" and "m \<le> n"
  shows "same_front m b a"
proof -
  have "32 - n \<le> 32 - m" "128 - n \<le> 128 - m" using assms(3) by auto
  with assms(1,2) show ?thesis
    by (cases b; cases p; cases a) (auto dest: drop_bit_coarser)
qed

lemma boundary_inside: "pContains b (pAddr p) \<Longrightarrow> pBits b \<le> pBits p \<Longrightarrow> inside p b"
  unfolding inside_def pContains_def using same_front_coarser by blast

lemma find_boundary_ranges:
  assumes "map parse_prefix texts = map Some bs"
  shows "find_boundary parse_prefix p texts = Ret (list_ex (\<lambda>b. pContains b (pAddr p) \<and> pBits b \<le> pBits p) bs)"
  using assms
proof (induction bs arbitrary: texts)
  case (Cons b bs)
  then show ?case by (cases texts) auto
qed simp

lemma proxy_loop_inside:
  assumes "map parse_prefix allowed = map Some bs"
  shows "proxy_loop parse_prefix parse_addr show_prefix allowed acc es = Ret (Inr out) \<Longrightarrow>
    \<exists>ps. out = acc @ map show_prefix ps \<and> length ps = length es \<and> (\<forall>p\<in>set ps. \<exists>b\<in>set bs. inside p b)"
proof (induction es arbitrary: acc)
  case (Cons e es)
  let ?r = "read_entry parse_prefix parse_addr (TrimSpace e)"
  obtain p where p: "?r = Some p" using Cons.prems by (auto simp: Let_def split: option.splits)
  have ok: "list_ex (\<lambda>b. pContains b (pAddr p) \<and> pBits b \<le> pBits p) bs"
    and rest: "proxy_loop parse_prefix parse_addr show_prefix allowed (acc @ [show_prefix p]) es = Ret (Inr out)"
    using Cons.prems by (auto simp: Let_def p find_boundary_ranges [OF assms] split: if_splits)
  from ok obtain b where "b \<in> set bs" "inside p b" by (auto simp: list_ex_iff intro: boundary_inside)
  moreover from Cons.IH [OF rest] obtain ps where "out = (acc @ [show_prefix p]) @ map show_prefix ps"
    "length ps = length es" "\<forall>p\<in>set ps. \<exists>b\<in>set bs. inside p b" by blast
  ultimately show ?case by (intro exI [of _ "p # ps"]) auto
qed simp

lemma privateProxyList_inside:
  assumes "reads_ranges parse_prefix" and "privateProxyList parse_prefix parse_addr show_prefix value = Ret (Inr out)"
  shows "\<exists>ps. out = map show_prefix ps \<and> (\<forall>p\<in>set ps. \<exists>b\<in>set private_ranges. inside p b)"
proof (cases "TrimSpace value = ''''")
  case True
  with assms(2) show ?thesis by (auto simp: privateProxyList_def)
next
  case False
  with assms(2) proxy_loop_inside [OF assms(1) [unfolded reads_ranges_def]] show ?thesis
    by (fastforce simp: privateProxyList_def)
qed

lemma proxy_loop_no_panic:
  assumes "map parse_prefix allowed = map Some bs"
  shows "\<exists>r. proxy_loop parse_prefix parse_addr show_prefix allowed acc es = Ret r"
  by (induction es arbitrary: acc) (auto simp: Let_def find_boundary_ranges [OF assms] split: option.splits)

definition installs :: "(string list \<Rightarrow> Engine \<Rightarrow> string option \<times> Engine) \<Rightarrow> bool" where
  \<comment> \<open>gin: when \<open>SetTrustedProxies\<close> succeeds, exactly the given proxies are trusted\<close>
  "installs SetTrustedProxies \<longleftrightarrow> (\<forall>ps r r'. SetTrustedProxies ps r = (None, r') \<longrightarrow> eTrusted r' = ps)"

text \<open>
  C18. Only loopback and private ranges are ever trusted: when the configuration succeeds, every trusted
  entry is a prefix all of whose addresses lie in one of the six ranges, so no public address can set
  the client address. The configuration never panics; and when an entry is refused, nobody is trusted
  although the function returns an error.
\<close>
theorem trusted_proxies_private:
  assumes "reads_ranges parse_prefix" and "installs SetTrustedProxies"
  shows "\<exists>err r. ConfigureTrustedProxies SetTrustedProxies parse_prefix parse_addr show_prefix env router = Ret (err, r)
    \<and> (err = None \<longrightarrow>
         (\<exists>ps. eTrusted r = map show_prefix ps \<and> (\<forall>p\<in>set ps. \<exists>b\<in>set private_ranges. inside p b)))
    \<and> (\<forall>e. privateProxyList parse_prefix parse_addr show_prefix
              (case env of None \<Rightarrow> DefaultTrustedProxies | Some v \<Rightarrow> v) = Ret (Inl e)
            \<and> fst (SetTrustedProxies [] router) = None \<longrightarrow> err = Some e \<and> eTrusted r = [])"
proof -
  define val where "val = (case env of None \<Rightarrow> DefaultTrustedProxies | Some v \<Rightarrow> v)"
  obtain e0 r0 where r0: "SetTrustedProxies [] router = (e0, r0)" by fastforce
  obtain res where res: "privateProxyList parse_prefix parse_addr show_prefix val = Ret res"
    using proxy_loop_no_panic [OF assms(1) [unfolded reads_ranges_def]] unfolding privateProxyList_def by metis
  let ?r = "r0\<lparr>TrustedPlatform := '''', AppEngine := False, RemoteIPHeaders := [''X-Forwarded-For''],
      ForwardedByClientIP := True\<rparr>"
  show ?thesis
  proof (cases e0)
    case (Some e)
    then show ?thesis by (simp add: ConfigureTrustedProxies_def r0)
  next
    case None
    then have t: "eTrusted ?r = []" using assms(2) r0 by (auto simp: installs_def)
    show ?thesis
    proof (cases res)
      case (Inl e)
      with None t res show ?thesis by (simp add: ConfigureTrustedProxies_def r0 Let_def flip: val_def)
    next
      case (Inr out)
      obtain e1 r1 where r1: "SetTrustedProxies out ?r = (e1, r1)" by fastforce
      then have "e1 = None \<Longrightarrow> eTrusted r1 = out" using assms(2) by (auto simp: installs_def)
      with privateProxyList_inside [OF assms(1)] res Inr None r1 show ?thesis
        by (cases e1) (auto simp: ConfigureTrustedProxies_def r0 Let_def simp flip: val_def)
    qed
  qed
qed

definition sample_prefix :: "string \<Rightarrow> Prefix option" where
  "sample_prefix s =
     map_of (zip (Split DefaultTrustedProxies CHR '','') private_ranges
       @ [(''10.1.0.0/16'', \<lparr>pAddr = V4 0x0A010000, pBits = 16\<rparr>), (''8.8.8.0/24'', \<lparr>pAddr = V4 0x08080800, pBits = 24\<rparr>)]) s"

definition sample_show :: "Prefix \<Rightarrow> string" where
  "sample_show p = (if pBits p = 16 then ''private'' else ''other'')"

definition sample_set :: "string list \<Rightarrow> Engine \<Rightarrow> string option \<times> Engine" where
  "sample_set ps r = (None, r\<lparr>eTrusted := ps\<rparr>)"

definition trust_all :: Engine where
  "trust_all = \<lparr>eTrusted = [''0.0.0.0/0''], TrustedPlatform = ''X'', AppEngine = True, RemoteIPHeaders = [],
     ForwardedByClientIP = False\<rparr>"

lemma sample_reads: "reads_ranges sample_prefix" "installs sample_set"
proof -
  show "reads_ranges sample_prefix" by code_simp
  show "installs sample_set" by (auto simp: installs_def sample_set_def)
qed

theorem trusted_proxies_private_witness:
  "\<exists>r. ConfigureTrustedProxies sample_set sample_prefix (\<lambda>_. None) sample_show (Some '' 10.1.0.0/16 , 8.8.8.0/24'') trust_all
     = Ret (Some ''TRUSTED_PROXIES entry 8.8.8.0/24 must be contained in a loopback or private range'', r) \<and> eTrusted r = []"
proof -
  have e: "privateProxyList sample_prefix (\<lambda>_. None) sample_show '' 10.1.0.0/16 , 8.8.8.0/24''
      = Ret (Inl ''TRUSTED_PROXIES entry 8.8.8.0/24 must be contained in a loopback or private range'')" by code_simp
  have "fst (sample_set [] trust_all) = None" by (simp add: sample_set_def)
  with e trusted_proxies_private [OF sample_reads, of "\<lambda>_. None" sample_show "Some '' 10.1.0.0/16 , 8.8.8.0/24''" trust_all]
  show ?thesis by auto
qed

end
