(* ===== verification/InternalToken.thy ===== *)
theory InternalToken
  imports Response GoCrypto
begin

text \<open>
  \<open>auth/internal_token.go\<close> and \<open>auth/internal_token_client.go\<close>: the shared token that guards the
  internal routes, how a service reads it from its environment, and the client transport that
  sends it. The environment variable's value, the underlying transport and the tokens' bytes are
  arguments. The texts of the start-up errors are represented by their cause.
\<close>

section \<open>Model\<close>

definition InternalTokenHeader :: string where
  "InternalTokenHeader = ''X-Internal-Token''"
definition DevInternalToken :: string where
  "DevInternalToken = ''dev-internal-token''"
definition PlaceholderInternalToken :: string where
  "PlaceholderInternalToken = ''CHANGE_ME_GENERATE_WITH_openssl_rand_base64_32''"
definition PlaceholderPrefix :: string where
  "PlaceholderPrefix = ''CHANGE_ME''"
definition MinInternalTokenLength :: nat where
  "MinInternalTokenLength = 24"

type_synonym header = "string \<rightharpoonup> string"

definition HeaderValue :: "string \<Rightarrow> header \<Rightarrow> string" where
  \<comment> \<open>\<open>c.HeaderValue\<close>: the empty string when the header is absent\<close>
  "HeaderValue name hdr = (case hdr name of None \<Rightarrow> '''' | Some v \<Rightarrow> v)"

datatype gate = Refused answer | Passed

definition InternalToken :: "string \<Rightarrow> header \<Rightarrow> gate" where
  "InternalToken expected hdr =
     (if length expected = 0 then Refused (Unauthorized ''Internal API is not configured on this service'')
      else
        (let presented = HeaderValue InternalTokenHeader hdr
         in if presented = '''' then Refused (Unauthorized ''Internal service token required'')
            else if ConstantTimeCompare (bytes_of presented) (bytes_of expected) \<noteq> 1
                 then Refused (Unauthorized ''Invalid internal service token'')
            else Passed))"

definition IsDevEnv :: "string \<Rightarrow> bool" where
  "IsDevEnv appEnv \<longleftrightarrow>
     ToLower (TrimSpace appEnv) \<in> set ['''', ''dev'', ''development'', ''local'', ''test'']"

datatype resolve_error =
    TokenRequired string
  | TokenIsDevPlaceholder string
  | TokenIsPlaceholder string
  | TokenTooShort nat string

definition ResolveInternalToken :: "string \<Rightarrow> string \<Rightarrow> resolve_error + string" where
  \<comment> \<open>\<open>env\<close> is the value of \<open>INTERNAL_API_TOKEN\<close>, empty when unset\<close>
  "ResolveInternalToken env appEnv =
     (let token = TrimSpace env
      in if IsDevEnv appEnv then (if token = '''' then Inr DevInternalToken else Inr token)
         else if token = '''' then Inl (TokenRequired appEnv)
         else if token = DevInternalToken then Inl (TokenIsDevPlaceholder appEnv)
         else if HasPrefix (ToUpper token) PlaceholderPrefix then Inl (TokenIsPlaceholder appEnv)
         else if length token < MinInternalTokenLength then Inl (TokenTooShort (length token) appEnv)
         else Inr token)"

definition MustResolveInternalToken :: "(resolve_error \<Rightarrow> string) \<Rightarrow> string \<Rightarrow> string \<Rightarrow> string go" where
  \<comment> \<open>\<open>text\<close> is \<open>err.Error()\<close>\<close>
  "MustResolveInternalToken text env appEnv =
     (case ResolveInternalToken env appEnv of
        Inl err \<Rightarrow> Panic (''SECURITY: '' @ text err)
      | Inr token \<Rightarrow> Ret token)"

record InternalTokenTransport =
  tToken :: string

definition RoundTrip :: "(header \<Rightarrow> 'r) \<Rightarrow> InternalTokenTransport \<Rightarrow> header \<Rightarrow> 'r \<times> header" where
  \<comment> \<open>the response of the base transport and the caller's request after the call\<close>
  "RoundTrip base t req =
     (if tToken t = '''' then (base req, req)
      else (let clone = req in (base (clone(InternalTokenHeader \<mapsto> tToken t)), req)))"

definition NewInternalHTTPClient :: "string \<Rightarrow> InternalTokenTransport" where
  "NewInternalHTTPClient token = \<lparr>tToken = token\<rparr>"

section \<open>Who is let in\<close>

lemma InternalToken_Passed:
  "InternalToken expected hdr = Passed \<longleftrightarrow> expected \<noteq> '''' \<and> hdr InternalTokenHeader = Some expected"
  by (auto simp: InternalToken_def Let_def HeaderValue_def split: option.splits)

lemma resolve_outside_dev:
  "\<not> IsDevEnv appEnv \<Longrightarrow> ResolveInternalToken env appEnv = Inr token \<longleftrightarrow>
     token = TrimSpace env \<and> token \<noteq> DevInternalToken \<and> \<not> prefix PlaceholderPrefix (ToUpper token)
     \<and> 24 \<le> length token"
  by (auto simp: ResolveInternalToken_def Let_def MinInternalTokenLength_def)

lemma resolve_nonempty: "ResolveInternalToken env appEnv = Inr token \<Longrightarrow> token \<noteq> ''''"
  by (auto simp: ResolveInternalToken_def Let_def DevInternalToken_def split: if_splits)

text \<open>
  C36. The internal handshake. A service that resolved its token lets a client's request in exactly
  when the client sends that token: through the transport if the client has one, else in the header
  the request already carried. Outside the development environments the token in force is none of
  the published placeholders, in any letter case, and has at least 24 characters. An unconfigured
  service lets nobody in.
\<close>
theorem internal_token_handshake:
  assumes "ResolveInternalToken env appEnv = Inr expected"
  shows "(fst (RoundTrip (InternalToken expected) (NewInternalHTTPClient token) req) = Passed \<longleftrightarrow>
           (if token = '''' then req InternalTokenHeader = Some expected else token = expected))
     \<and> fst (RoundTrip (InternalToken '''') (NewInternalHTTPClient token) req) \<noteq> Passed
     \<and> (IsDevEnv appEnv \<or> (expected = TrimSpace env \<and> 24 \<le> length expected
          \<and> expected \<notin> {DevInternalToken, PlaceholderInternalToken}
          \<and> \<not> (\<exists>p s. expected = p @ s \<and> ToUpper p = PlaceholderPrefix)))"
proof -
  have "expected \<noteq> ''''" by (rule resolve_nonempty [OF assms])
  then have a: "fst (RoundTrip (InternalToken expected) (NewInternalHTTPClient token) req) = Passed \<longleftrightarrow>
       (if token = '''' then req InternalTokenHeader = Some expected else token = expected)"
    by (auto simp: RoundTrip_def NewInternalHTTPClient_def InternalToken_Passed)
  have b: "fst (RoundTrip (InternalToken '''') (NewInternalHTTPClient token) req) \<noteq> Passed"
    by (auto simp: RoundTrip_def InternalToken_def)
  have c: "expected = TrimSpace env \<and> 24 \<le> length expected
      \<and> expected \<notin> {DevInternalToken, PlaceholderInternalToken}
      \<and> \<not> (\<exists>p s. expected = p @ s \<and> ToUpper p = PlaceholderPrefix)" if "\<not> IsDevEnv appEnv"
  proof -
    have r: "expected = TrimSpace env" "expected \<noteq> DevInternalToken"
      "\<not> prefix PlaceholderPrefix (ToUpper expected)" "24 \<le> length expected"
      using assms unfolding resolve_outside_dev [OF that] by blast+
    have "prefix PlaceholderPrefix (ToUpper PlaceholderInternalToken)" by code_simp
    with r show ?thesis by (auto simp: ToUpper_def)
  qed
  from a b c show ?thesis by blast
qed

theorem internal_token_handshake_witness:
  "fst (RoundTrip (InternalToken ''kM3vQ9xT7bR2nL8wZ5cY1pHs'')
      (NewInternalHTTPClient ''kM3vQ9xT7bR2nL8wZ5cY1pHs'') Map.empty) = Passed
   \<and> fst (RoundTrip (InternalToken ''kM3vQ9xT7bR2nL8wZ5cY1pHs'')
      (NewInternalHTTPClient ''dev-internal-token'') Map.empty) \<noteq> Passed"
proof -
  have r: "ResolveInternalToken '' kM3vQ9xT7bR2nL8wZ5cY1pHs '' ''production'' = Inr ''kM3vQ9xT7bR2nL8wZ5cY1pHs''"
    by code_simp
  show ?thesis
    using internal_token_handshake [OF r, of "''kM3vQ9xT7bR2nL8wZ5cY1pHs''" Map.empty]
      internal_token_handshake [OF r, of "''dev-internal-token''" Map.empty] by simp
qed

end
