(* ===== verification/HttpMiddleware.thy ===== *)
theory HttpMiddleware
  imports HttpContext InternalToken
begin

text \<open>
  \<open>middleware/auth.go\<close>, \<open>csrf.go\<close>, \<open>cors.go\<close>, \<open>security.go\<close>, \<open>requestid.go\<close>, \<open>setup.go\<close> and
  \<open>SanitizeInput\<close> of \<open>validation.go\<close>, as handlers on the gin context, and \<open>auth.InternalToken\<close> as one.
  The JWT package, the clock and fresh UUIDs are arguments.
\<close>

section \<open>Authentication and roles\<close>

fun break_at :: "char \<Rightarrow> string \<Rightarrow> string \<Rightarrow> string list" where
  "break_at sep cur [] = [rev cur]"
| "break_at sep cur (c # cs) = (if c = sep then [rev cur, cs] else break_at sep (c # cur) cs)"

definition SplitN2 :: "string \<Rightarrow> char \<Rightarrow> string list" where
  \<comment> \<open>\<open>strings.SplitN(s, sep, 2)\<close> with a one-byte separator\<close>
  "SplitN2 s sep = break_at sep [] s"

definition bearer :: "string \<Rightarrow> string" where
  "bearer authHeader =
     (if authHeader \<noteq> '''' then
        (let parts = SplitN2 authHeader CHR '' ''
         in if length parts = 2 \<and> parts ! 0 = ''Bearer'' then parts ! 1 else '''')
      else '''')"

definition request_token :: "http_context \<Rightarrow> string" where
  \<comment> \<open>the cookie first, then the \<open>Authorization\<close> header\<close>
  "request_token c =
     (case Cookie ''access_token'' c of
        Some cookieToken \<Rightarrow> if cookieToken \<noteq> '''' then cookieToken else bearer (GetHeader ''Authorization'' c)
      | None \<Rightarrow> bearer (GetHeader ''Authorization'' c))"

definition set_user :: "Claims \<Rightarrow> http_context \<Rightarrow> http_context" where
  "set_user claims c =
     SetKey ''claims'' (CClaims claims)
       (SetKey ''user_role'' (CString (Role claims))
         (SetKey ''user_email'' (CString (Email claims))
           (SetKey ''user_id'' (CString (UserID claims)) c)))"

definition AuthMiddleware :: "jwt \<Rightarrow> JWTManager \<Rightarrow> Time \<Rightarrow> handler" where
  "AuthMiddleware J m now c =
     (let tokenString = request_token c
      in if tokenString = '''' then Stop (Unauthorized ''Authentication required'') c
         else (case ValidateToken J m now tokenString of
                 Inl err \<Rightarrow> Stop (Unauthorized ''Invalid or expired token'') c
               | Inr claims \<Rightarrow> Continue (set_user claims c)))"

definition RoleMiddleware :: "string list \<Rightarrow> handler" where
  "RoleMiddleware allowedRoles c =
     (case ckeys c ''user_role'' of
        None \<Rightarrow> Stop (Forbidden ''User role not found'') c
      | Some (CString userRole) \<Rightarrow>
          if list_ex (\<lambda>allowedRole. userRole = allowedRole) allowedRoles then Continue c
          else Stop (Forbidden ''Insufficient permissions'') c
      | Some _ \<Rightarrow> Stop (Forbidden ''Invalid user role type'') c)"

definition context_role :: "http_context \<Rightarrow> string" where
  "context_role c =
     (let userRole = (case ckeys c ''claims'' of
            Some (CClaims authClaims) \<Rightarrow> Role authClaims
          | Some (CMap claimsMap) \<Rightarrow> (case claimsMap ''role'' of Some role \<Rightarrow> role | None \<Rightarrow> '''')
          | _ \<Rightarrow> '''')
      in if userRole = ''''
         then (case ckeys c ''user_role'' of Some (CString r) \<Rightarrow> r | _ \<Rightarrow> '''')
         else userRole)"

definition RequireAdmin :: handler where
  "RequireAdmin c =
     (let userRole = context_role c
      in if userRole = ''''
         then Stop (Unauthorized ''Authentication required - use AuthMiddleware before RequireAdmin'') c
         else if userRole \<noteq> ''admin'' \<and> userRole \<noteq> ''super_admin''
         then Stop (Forbidden ''Admin access required'') c
         else Continue c)"

definition RequireAdminWithJWT :: "jwt \<Rightarrow> JWTManager \<Rightarrow> Time \<Rightarrow> handler" where
  "RequireAdminWithJWT J m now c =
     (let tokenString = request_token c
      in if tokenString = '''' then Stop (Unauthorized ''Authentication required'') c
         else (case ValidateToken J m now tokenString of
                 Inl err \<Rightarrow> Stop (Unauthorized ''Invalid or expired token'') c
               | Inr claims \<Rightarrow>
                   if Role claims \<noteq> ''admin'' \<and> Role claims \<noteq> ''super_admin''
                   then Stop (Forbidden ''Admin access required'') c
                   else Continue (set_user claims c)))"

definition internal_guard :: "string \<Rightarrow> handler" where
  \<comment> \<open>\<open>auth.InternalToken(expected)\<close> on the context\<close>
  "internal_guard expected c =
     (case InternalToken expected (rHeader (creq c)) of Refused a \<Rightarrow> Stop a c | Passed \<Rightarrow> Continue c)"

section \<open>CSRF\<close>

definition safe_method :: "string \<Rightarrow> bool" where
  "safe_method method \<longleftrightarrow> method = ''GET'' \<or> method = ''HEAD'' \<or> method = ''OPTIONS''"

definition csrf_compare :: "string \<Rightarrow> handler" where
  \<comment> \<open>the header against a cookie token that is present\<close>
  "csrf_compare cookieToken c =
     (let headerToken = GetHeader ''X-CSRF-Token'' c
      in if headerToken = '''' then Stop (Forbidden ''CSRF token missing from header'') c
         else if cookieToken \<noteq> headerToken then Stop (Forbidden ''CSRF token mismatch'') c
         else Continue c)"

definition CSRFProtection :: handler where
  "CSRFProtection c =
     (if safe_method (rMethod (creq c)) then Continue c
      else (case Cookie ''csrf_token'' c of
              None \<Rightarrow> Stop (Forbidden ''CSRF token missing from cookie'') c
            | Some cookieToken \<Rightarrow>
                if cookieToken = '''' then Stop (Forbidden ''CSRF token missing from cookie'') c
                else csrf_compare cookieToken c))"

definition CSRFProtectionWithSkip :: "string list \<Rightarrow> handler" where
  "CSRFProtectionWithSkip skipPaths c =
     (if rPath (creq c) \<in> set skipPaths then Continue c else CSRFProtection c)"

definition OptionalCSRFProtection :: handler where
  "OptionalCSRFProtection c =
     (if safe_method (rMethod (creq c)) then Continue c
      else (case Cookie ''csrf_token'' c of
              None \<Rightarrow> Continue c
            | Some cookieToken \<Rightarrow> if cookieToken = '''' then Continue c else csrf_compare cookieToken c))"

section \<open>CORS, security headers, request identifiers\<close>

definition CORSMiddleware :: "handler go" where
  "CORSMiddleware = Panic ''CORSMiddleware with wildcard (*) is disabled for security. Use CORSWithOrigins() with explicit origins instead.''"

definition parseOrigins :: "string \<Rightarrow> string list" where
  "parseOrigins originsStr =
     (if originsStr = '''' then []
      else filter (\<lambda>t. t \<noteq> '''') (map TrimSpace (Split originsStr CHR '','')))"

definition isOriginAllowed :: "string \<Rightarrow> string list \<Rightarrow> bool" where
  "isOriginAllowed origin allowedOrigins =
     (if origin = '''' then False else list_ex (\<lambda>allowed. allowed = origin) allowedOrigins)"

definition CORSWithOrigins :: "string \<Rightarrow> handler" where
  "CORSWithOrigins allowedOrigins c =
     (let origins = parseOrigins allowedOrigins;
          origin = GetHeader ''Origin'' c;
          c = (if isOriginAllowed origin origins
               then SetHeader ''Access-Control-Allow-Credentials'' ''true''
                      (SetHeader ''Access-Control-Allow-Origin'' origin c)
               else c);
          c = SetHeader ''Access-Control-Allow-Headers''
                ''Content-Type, Content-Length, Accept-Encoding, X-CSRF-Token, Authorization, accept, origin, Cache-Control, X-Requested-With'' c;
          c = SetHeader ''Access-Control-Allow-Methods'' ''POST, OPTIONS, GET, PUT, DELETE, PATCH'' c;
          c = SetHeader ''Access-Control-Max-Age'' ''86400'' c
      in if rMethod (creq c) = ''OPTIONS'' then Stop (StatusOnly 204) c else Continue c)"

definition CORS :: "string list \<Rightarrow> handler" where
  "CORS allowedOrigins c =
     (let origin = GetHeader ''Origin'' c;
          allowed = list_ex (\<lambda>allowedOrigin. origin = allowedOrigin) allowedOrigins;
          c = (if allowed then SetHeader ''Access-Control-Allow-Origin'' origin c else c);
          c = SetHeader ''Access-Control-Allow-Methods'' ''GET, POST, PUT, PATCH, DELETE, OPTIONS'' c;
          c = SetHeader ''Access-Control-Allow-Headers'' ''Content-Type, Authorization, X-Requested-With'' c;
          c = SetHeader ''Access-Control-Allow-Credentials'' ''true'' c;
          c = SetHeader ''Access-Control-Max-Age'' ''86400'' c
      in if rMethod (creq c) = ''OPTIONS'' then Stop (StatusOnly 204) c else Continue c)"

record SecurityConfig =
  EnableStrictCSP :: bool
  CSPReportURI :: string

definition DefaultSecurityConfig :: SecurityConfig where
  "DefaultSecurityConfig = \<lparr>EnableStrictCSP = True, CSPReportURI = ''''\<rparr>"

definition quoted :: "string \<Rightarrow> string" where
  "quoted s = [CHR 0x27] @ s @ [CHR 0x27]"

definition csp_policy :: "SecurityConfig \<Rightarrow> string" where
  "csp_policy config =
     (let csp =
        (if EnableStrictCSP config
         then ''default-src '' @ quoted ''self'' @ ''; '' @
              ''script-src '' @ quoted ''self'' @ ''; '' @
              ''style-src '' @ quoted ''self'' @ ''; '' @
              ''img-src '' @ quoted ''self'' @ '' data: https:; '' @
              ''font-src '' @ quoted ''self'' @ ''; '' @
              ''connect-src '' @ quoted ''self'' @ ''; '' @
              ''frame-ancestors '' @ quoted ''none'' @ ''; '' @
              ''form-action '' @ quoted ''self'' @ ''; '' @
              ''base-uri '' @ quoted ''self'' @ ''; '' @
              ''object-src '' @ quoted ''none''
         else ''default-src '' @ quoted ''self'' @ ''; '' @
              ''script-src '' @ quoted ''self'' @ '' '' @ quoted ''unsafe-inline'' @ '' '' @ quoted ''unsafe-eval'' @ ''; '' @
              ''style-src '' @ quoted ''self'' @ '' '' @ quoted ''unsafe-inline'' @ ''; '' @
              ''img-src '' @ quoted ''self'' @ '' data: https:; '' @
              ''font-src '' @ quoted ''self'' @ ''; '' @
              ''connect-src '' @ quoted ''self'')
      in if CSPReportURI config \<noteq> '''' then csp @ ''; report-uri '' @ CSPReportURI config else csp)"

definition SecurityHeadersWithConfig :: "SecurityConfig \<Rightarrow> handler" where
  "SecurityHeadersWithConfig config c =
     Continue (fold (\<lambda>(k, v). SetHeader k v)
       [(''X-Frame-Options'', ''DENY''),
        (''X-Content-Type-Options'', ''nosniff''),
        (''X-XSS-Protection'', ''1; mode=block''),
        (''Strict-Transport-Security'', ''max-age=31536000; includeSubDomains; preload''),
        (''Content-Security-Policy'', csp_policy config),
        (''Referrer-Policy'', ''strict-origin-when-cross-origin''),
        (''Permissions-Policy'', ''geolocation=(), microphone=(), camera=(), payment=(), usb=()''),
        (''Cache-Control'', ''no-store, no-cache, must-revalidate, proxy-revalidate''),
        (''Pragma'', ''no-cache''),
        (''Expires'', ''0'')] c)"

definition SecurityHeaders :: handler where
  "SecurityHeaders = SecurityHeadersWithConfig DefaultSecurityConfig"

definition RequestIDHeader :: string where
  "RequestIDHeader = ''X-Request-ID''"
definition RequestIDKey :: string where
  "RequestIDKey = ''request_id''"

definition RequestID :: "string \<Rightarrow> handler" where
  \<comment> \<open>\<open>fresh\<close> is the UUID generated when the request has no identifier\<close>
  "RequestID fresh c =
     (let requestID = GetHeader RequestIDHeader c;
          requestID = (if requestID = '''' then fresh else requestID)
      in Continue (SetHeader RequestIDHeader requestID (SetKey RequestIDKey (CString requestID) c)))"

definition GetRequestID :: "http_context \<Rightarrow> string" where
  "GetRequestID c = (case ckeys c RequestIDKey of Some (CString i) \<Rightarrow> i | _ \<Rightarrow> '''')"

section \<open>The common chain\<close>

record SetupConfig =
  HasLogger :: bool
  PreRequestID :: "handler option list"
  AllowedOrigins :: string
  cfgSecurity :: "SecurityConfig option"
  EnableInputValidation :: bool
  PostValidation :: "handler option list"

definition transparent :: handler where
  \<comment> \<open>recovery and request logging: they run around the rest of the chain and change no decision\<close>
  "transparent c = Continue c"

definition SetupCommonMiddleware :: "string \<Rightarrow> handler \<Rightarrow> SetupConfig \<Rightarrow> handler list go" where
  \<comment> \<open>the handlers in the order of \<open>r.Use\<close>; \<open>inputValidation\<close> is \<open>InputValidation()\<close>\<close>
  "SetupCommonMiddleware fresh inputValidation cfg =
     (if \<not> HasLogger cfg then Panic ''middleware.SetupCommonMiddleware: cfg.Logger is required''
      else Ret ([transparent] @ List.map_filter id (PreRequestID cfg) @ [RequestID fresh, transparent]
        @ (if AllowedOrigins cfg \<noteq> '''' then [CORSWithOrigins (AllowedOrigins cfg)] else [])
        @ (case cfgSecurity cfg of Some s \<Rightarrow> [SecurityHeadersWithConfig s] | None \<Rightarrow> [SecurityHeaders])
        @ (if EnableInputValidation cfg then [inputValidation] else [])
        @ List.map_filter id (PostValidation cfg)))"

section \<open>Sanitising\<close>

definition ReplaceAll :: "char \<Rightarrow> string \<Rightarrow> string \<Rightarrow> string" where
  \<comment> \<open>\<open>strings.ReplaceAll\<close> of one character\<close>
  "ReplaceAll old new s = concat (map (\<lambda>c. if c = old then new else [c]) s)"

definition SanitizeInput :: "string \<Rightarrow> string" where
  "SanitizeInput input =
     (let input = ReplaceAll CHR ''<'' ''&lt;'' input;
          input = ReplaceAll CHR ''>'' ''&gt;'' input;
          input = ReplaceAll CHR 0x22 ''&quot;'' input;
          input = ReplaceAll CHR 0x27 ''&#x27;'' input
      in ReplaceAll CHR ''/'' ''&#x2F;'' input)"

section \<open>The guards\<close>

lemma refusal_status [simp]:
  "answer_status (Unauthorized msg) = Some 401" "answer_status (Forbidden msg) = Some 403"
  by (simp_all add: Unauthorized_def Forbidden_def ErrorResponse_def)

lemma InternalToken_refuses: "InternalToken expected hdr = Refused a \<Longrightarrow> answer_status a = Some 401"
  by (auto simp: InternalToken_def Let_def split: if_splits)

interpretation role: guard "RoleMiddleware roles" for roles
  by unfold_locales (auto simp: RoleMiddleware_def split: option.splits cvalue.splits if_splits)

interpretation admin: guard RequireAdmin
  by unfold_locales (auto simp: RequireAdmin_def Let_def split: if_splits)

interpretation csrf: guard CSRFProtection
  by unfold_locales (auto simp: CSRFProtection_def csrf_compare_def Let_def split: option.splits if_splits)

interpretation csrf_skip: guard "CSRFProtectionWithSkip paths" for paths
  by unfold_locales (auto simp: CSRFProtectionWithSkip_def csrf.passes_iff split: if_splits
      dest: csrf.stop_same csrf.stop_status)

interpretation csrf_optional: guard OptionalCSRFProtection
  by unfold_locales (auto simp: OptionalCSRFProtection_def csrf_compare_def Let_def split: option.splits if_splits)

interpretation internal: guard "internal_guard expected" for expected
  by unfold_locales (auto simp: internal_guard_def split: gate.splits dest: InternalToken_refuses)

section \<open>Administrators\<close>

definition is_admin :: "string \<Rightarrow> bool" where
  "is_admin r \<longleftrightarrow> r = ''admin'' \<or> r = ''super_admin''"

lemma context_role_set_user: "context_role (set_user claims c) = Role claims"
  by (simp add: context_role_def set_user_def Let_def)

lemma admin_passes_user: "passes RequireAdmin (set_user claims c) \<longleftrightarrow> is_admin (Role claims)"
  by (auto simp: passes_def RequireAdmin_def Let_def context_role_set_user is_admin_def)

lemma role_passes_user: "passes (RoleMiddleware rs) (set_user claims c) \<longleftrightarrow> Role claims \<in> set rs"
  by (auto simp: passes_def RoleMiddleware_def set_user_def list_ex_iff)

lemma AuthMiddleware_Continue:
  "AuthMiddleware J m now c = Continue c' \<longleftrightarrow>
     request_token c \<noteq> '''' \<and> (\<exists>claims. ValidateToken J m now (request_token c) = Inr claims \<and> c' = set_user claims c)"
  by (auto simp: AuthMiddleware_def Let_def split: sum.splits)

lemma RequireAdminWithJWT_Continue:
  "RequireAdminWithJWT J m now c = Continue c' \<longleftrightarrow>
     request_token c \<noteq> '''' \<and> (\<exists>claims. ValidateToken J m now (request_token c) = Inr claims
       \<and> is_admin (Role claims) \<and> c' = set_user claims c)"
  by (auto simp: RequireAdminWithJWT_def Let_def is_admin_def split: sum.splits)

lemma chain_pair: "chain [g, h] c = Continue c' \<longleftrightarrow> (\<exists>d. g c = Continue d \<and> h d = Continue c')"
  by (auto split: verdict.splits)

text \<open>
  C23. The three ways to protect an admin route agree: \<open>AuthMiddleware\<close> followed by
  \<open>RequireAdmin\<close>, followed by \<open>RoleMiddleware("admin", "super_admin")\<close>, and the stand-alone
  \<open>RequireAdminWithJWT\<close> let the same requests through with the same context: those whose token
  validates and carries one of the two roles.
\<close>
theorem admin_chains_agree:
  "(chain [AuthMiddleware J m now, RequireAdmin] c = Continue c' \<longleftrightarrow> RequireAdminWithJWT J m now c = Continue c')
   \<and> (chain [AuthMiddleware J m now, RoleMiddleware [''admin'', ''super_admin'']] c = Continue c' \<longleftrightarrow>
        RequireAdminWithJWT J m now c = Continue c')
   \<and> (RequireAdminWithJWT J m now c = Continue c' \<longleftrightarrow>
        request_token c \<noteq> '''' \<and> (\<exists>claims. ValidateToken J m now (request_token c) = Inr claims
          \<and> Role claims \<in> {''admin'', ''super_admin''} \<and> c' = set_user claims c))"
proof (intro conjI)
  show "chain [AuthMiddleware J m now, RequireAdmin] c = Continue c' \<longleftrightarrow> RequireAdminWithJWT J m now c = Continue c'"
    unfolding chain_pair AuthMiddleware_Continue RequireAdminWithJWT_Continue admin.passes_iff
    using admin_passes_user by blast
  show "chain [AuthMiddleware J m now, RoleMiddleware [''admin'', ''super_admin'']] c = Continue c' \<longleftrightarrow>
      RequireAdminWithJWT J m now c = Continue c'"
    unfolding chain_pair AuthMiddleware_Continue RequireAdminWithJWT_Continue role.passes_iff
    using role_passes_user [of "[''admin'', ''super_admin'']"] by (auto simp: is_admin_def)
  show "RequireAdminWithJWT J m now c = Continue c' \<longleftrightarrow>
        request_token c \<noteq> '''' \<and> (\<exists>claims. ValidateToken J m now (request_token c) = Inr claims
          \<and> Role claims \<in> {''admin'', ''super_admin''} \<and> c' = set_user claims c)"
    unfolding RequireAdminWithJWT_Continue is_admin_def by blast
qed

section \<open>Cross-site requests\<close>

text \<open>
  C24. Double submit: a state-changing request passes \<open>CSRFProtection\<close> exactly when it carries the
  same non-empty token in the cookie and in the header. The skip list exempts exactly its paths,
  and the optional variant exempts exactly the requests without a token cookie.
\<close>
theorem csrf_double_submit:
  "(passes CSRFProtection c \<longleftrightarrow> rMethod (creq c) \<in> {''GET'', ''HEAD'', ''OPTIONS''}
      \<or> (\<exists>t. t \<noteq> '''' \<and> rCookie (creq c) ''csrf_token'' = Some t \<and> rHeader (creq c) ''X-CSRF-Token'' = Some t))
   \<and> (passes (CSRFProtectionWithSkip paths) c \<longleftrightarrow> rPath (creq c) \<in> set paths \<or> passes CSRFProtection c)
   \<and> (passes OptionalCSRFProtection c \<longleftrightarrow>
        rCookie (creq c) ''csrf_token'' \<in> {None, Some ''''} \<or> passes CSRFProtection c)"
proof -
  have cmp: "passes (csrf_compare t) c \<longleftrightarrow> rHeader (creq c) ''X-CSRF-Token'' = Some t" if "t \<noteq> ''''" for t
    using that by (auto simp: passes_def csrf_compare_def Let_def GetHeader_def split: option.splits)
  have a: "passes CSRFProtection c \<longleftrightarrow> rMethod (creq c) \<in> {''GET'', ''HEAD'', ''OPTIONS''}
      \<or> (\<exists>t. t \<noteq> '''' \<and> rCookie (creq c) ''csrf_token'' = Some t \<and> rHeader (creq c) ''X-CSRF-Token'' = Some t)"
    using cmp by (auto simp: passes_def CSRFProtection_def safe_method_def Cookie_def split: option.splits if_splits)
  have b: "passes (CSRFProtectionWithSkip paths) c \<longleftrightarrow> rPath (creq c) \<in> set paths \<or> passes CSRFProtection c"
    by (simp add: passes_def CSRFProtectionWithSkip_def)
  have o: "passes OptionalCSRFProtection c \<longleftrightarrow>
        rCookie (creq c) ''csrf_token'' \<in> {None, Some ''''} \<or> passes CSRFProtection c"
    by (auto simp: passes_def OptionalCSRFProtection_def CSRFProtection_def Cookie_def split: option.splits)
  from a b o show ?thesis by blast
qed

section \<open>Cross-origin headers\<close>

fun ctx_of :: "verdict \<Rightarrow> http_context" where
  "ctx_of (Continue c) = c"
| "ctx_of (Stop a c) = c"

lemma isOriginAllowed_iff:
  "isOriginAllowed origin (parseOrigins s) \<longleftrightarrow> origin \<noteq> '''' \<and> origin \<in> TrimSpace ` set (Split s CHR '','')"
proof (cases "s = ''''")
  case True
  moreover have "Split [] CHR '','' = [[]]" by code_simp
  ultimately show ?thesis by (auto simp: isOriginAllowed_def parseOrigins_def TrimSpace_def)
next
  case False
  then show ?thesis by (auto simp: isOriginAllowed_def parseOrigins_def list_ex_iff)
qed

text \<open>
  \<open>CORSWithOrigins\<close> answers an origin with \<open>Allow-Origin\<close> and \<open>Allow-Credentials\<close> exactly
  when it is one of the comma-separated origins of the configuration, trimmed, and never an empty
  one. \<open>CORS\<close>, its older variant, sends \<open>Allow-Credentials: true\<close> to every origin.
\<close>
theorem cors_credentials:
  "(\<forall>k \<in> {''Access-Control-Allow-Origin'', ''Access-Control-Allow-Credentials''}.
      cout (ctx_of (CORSWithOrigins s c)) k =
        (if GetHeader ''Origin'' c \<noteq> '''' \<and> GetHeader ''Origin'' c \<in> TrimSpace ` set (Split s CHR '','')
         then Some (if k = ''Access-Control-Allow-Origin'' then GetHeader ''Origin'' c else ''true'')
         else cout c k))
   \<and> cout (ctx_of (CORS origins c)) ''Access-Control-Allow-Credentials'' = Some ''true''
   \<and> cout (ctx_of (CORS origins c)) ''Access-Control-Allow-Origin'' =
       (if GetHeader ''Origin'' c \<in> set origins then Some (GetHeader ''Origin'' c)
        else cout c ''Access-Control-Allow-Origin'')"
  unfolding isOriginAllowed_iff [symmetric]
  by (simp add: CORSWithOrigins_def CORS_def Let_def list_ex_iff)

theorem cors_credentials_witness:
  "cout (ctx_of (CORSWithOrigins ''https://shop.my, https://admin.my''
      (start \<lparr>rMethod = ''GET'', rPath = ''/'', rHeader = [''Origin'' \<mapsto> ''https://admin.my''], rCookie = Map.empty, rClientIP = ''''\<rparr>)))
      ''Access-Control-Allow-Origin'' = Some ''https://admin.my''"
proof -
  have "''https://admin.my'' \<in> TrimSpace ` set (Split ''https://shop.my, https://admin.my'' CHR '','')" by code_simp
  with cors_credentials [of "''https://shop.my, https://admin.my''"
      "start \<lparr>rMethod = ''GET'', rPath = ''/'', rHeader = [''Origin'' \<mapsto> ''https://admin.my''], rCookie = Map.empty, rClientIP = ''''\<rparr>"]
  show ?thesis by (simp add: GetHeader_def start_def)
qed

section \<open>The common chain\<close>

definition security_keys :: "string list" where
  "security_keys = [''X-Frame-Options'', ''X-Content-Type-Options'', ''Strict-Transport-Security'',
     ''Content-Security-Policy'', ''Referrer-Policy'', ''Cache-Control'']"

lemma security_headers_set:
  "\<exists>c'. SecurityHeadersWithConfig s c = Continue c' \<and> ckeys c' = ckeys c \<and> creq c' = creq c
     \<and> (\<forall>k \<in> set security_keys. cout c' k \<noteq> None) \<and> cout c' RequestIDHeader = cout c RequestIDHeader"
  by (simp add: SecurityHeadersWithConfig_def security_keys_def RequestIDHeader_def)

lemma CORS_context:
  "creq (ctx_of (CORSWithOrigins s c)) = creq c" "ckeys (ctx_of (CORSWithOrigins s c)) = ckeys c"
  "cout (ctx_of (CORSWithOrigins s c)) RequestIDHeader = cout c RequestIDHeader"
  "k \<in> set security_keys \<Longrightarrow> cout (ctx_of (CORSWithOrigins s c)) k = cout c k"
  by (auto simp: CORSWithOrigins_def Let_def RequestIDHeader_def security_keys_def)

lemma CORS_verdict:
  "CORSWithOrigins s c = (if rMethod (creq c) = ''OPTIONS'' then Stop (StatusOnly 204) (ctx_of (CORSWithOrigins s c))
     else Continue (ctx_of (CORSWithOrigins s c)))"
  by (simp add: CORSWithOrigins_def Let_def)

definition identified :: "string \<Rightarrow> http_request \<Rightarrow> http_context \<Rightarrow> bool" where
  \<comment> \<open>the context and the response carry the same identifier: the caller's, else the fresh one\<close>
  "identified fresh r c \<longleftrightarrow>
     (let i = (if rHeader r RequestIDHeader \<in> {None, Some ''''} then fresh else the (rHeader r RequestIDHeader))
      in creq c = r \<and> GetRequestID c = i \<and> cout c RequestIDHeader = Some i)"

lemma RequestID_identifies: "\<exists>c. RequestID fresh (start r) = Continue c \<and> identified fresh r c
    \<and> (\<forall>k. k \<noteq> RequestIDHeader \<longrightarrow> cout c k = None)"
  by (auto simp: RequestID_def identified_def GetRequestID_def GetHeader_def start_def Let_def split: option.splits)

text \<open>
  The common chain: without handlers before it, every request gets the caller's identifier or a
  fresh one, in the context and in the response. A preflight request is answered with 204 by the
  CORS layer, when there is one, before the security headers are set; every other request reaches
  input validation and the service's own handlers with the security headers in place.
\<close>
theorem common_chain:
  assumes "SetupCommonMiddleware fresh iv cfg = Ret hs" and "PreRequestID cfg = []"
  shows "\<exists>c. identified fresh r c
     \<and> (if rMethod r = ''OPTIONS'' \<and> AllowedOrigins cfg \<noteq> ''''
        then chain hs (start r) = Stop (StatusOnly 204) c \<and> (\<forall>k \<in> set security_keys. cout c k = None)
        else chain hs (start r) = chain ((if EnableInputValidation cfg then [iv] else []) @ List.map_filter id (PostValidation cfg)) c
          \<and> (\<forall>k \<in> set security_keys. cout c k \<noteq> None))"
proof -
  let ?rest = "(if EnableInputValidation cfg then [iv] else []) @ List.map_filter id (PostValidation cfg)"
  define sec where "sec = (case cfgSecurity cfg of Some s \<Rightarrow> SecurityHeadersWithConfig s | None \<Rightarrow> SecurityHeaders)"
  define cors where "cors = (if AllowedOrigins cfg \<noteq> '''' then [CORSWithOrigins (AllowedOrigins cfg)] else [])"
  have hs: "hs = transparent # RequestID fresh # transparent # cors @ sec # ?rest"
    using assms by (auto simp: SetupCommonMiddleware_def sec_def cors_def map_filter_simps split: if_splits option.splits)
  obtain c where c: "RequestID fresh (start r) = Continue c" "identified fresh r c"
    "\<And>k. k \<noteq> RequestIDHeader \<Longrightarrow> cout c k = None" using RequestID_identifies by blast
  have run: "chain hs (start r) = chain (cors @ sec # ?rest) c"
    unfolding hs by (simp add: transparent_def c(1))
  have secure: "\<exists>d'. sec d = Continue d' \<and> (identified fresh r d \<longrightarrow> identified fresh r d')
      \<and> (\<forall>k \<in> set security_keys. cout d' k \<noteq> None)" for d
    using security_headers_set [of _ d]
    by (fastforce simp: sec_def SecurityHeaders_def identified_def GetRequestID_def Let_def split: option.splits)
  show ?thesis
  proof (cases "AllowedOrigins cfg = ''''")
    case True
    then have "cors = []" by (simp add: cors_def)
    with run secure [of c] c(2) True show ?thesis by auto
  next
    case False
    define d where "d = ctx_of (CORSWithOrigins (AllowedOrigins cfg) c)"
    have d: "identified fresh r d" "creq d = r"
      using c(2) by (auto simp: identified_def d_def CORS_context GetRequestID_def Let_def)
    have none: "\<forall>k \<in> set security_keys. cout d k = None"
      using c(3) by (auto simp: d_def CORS_context security_keys_def RequestIDHeader_def)
    have "creq c = r" using c(2) by (simp add: identified_def Let_def)
    then have v: "CORSWithOrigins (AllowedOrigins cfg) c = (if rMethod r = ''OPTIONS'' then Stop (StatusOnly 204) d else Continue d)"
      unfolding d_def using CORS_verdict [of "AllowedOrigins cfg" c] by simp
    have cr: "cors = [CORSWithOrigins (AllowedOrigins cfg)]" using False by (simp add: cors_def)
    show ?thesis
    proof (cases "rMethod r = ''OPTIONS''")
      case True
      with run v cr d(1) none False show ?thesis by auto
    next
      case False
      with run v cr secure [of d] d(1) show ?thesis by auto
    qed
  qed
qed

theorem common_chain_witness:
  "\<exists>c. identified ''r-1'' \<lparr>rMethod = ''GET'', rPath = ''/'', rHeader = Map.empty, rCookie = Map.empty, rClientIP = ''''\<rparr> c
     \<and> (\<forall>k \<in> set security_keys. cout c k \<noteq> None)"
proof -
  define cfg where "cfg = \<lparr>HasLogger = True, PreRequestID = [], AllowedOrigins = ''https://shop.my'',
    cfgSecurity = None, EnableInputValidation = False, PostValidation = []\<rparr>"
  have "\<exists>hs. SetupCommonMiddleware ''r-1'' transparent cfg = Ret hs" by (simp add: SetupCommonMiddleware_def cfg_def)
  then obtain hs where "SetupCommonMiddleware ''r-1'' transparent cfg = Ret hs" by blast
  from common_chain [OF this, of "\<lparr>rMethod = ''GET'', rPath = ''/'', rHeader = Map.empty, rCookie = Map.empty, rClientIP = ''''\<rparr>"]
  show ?thesis by (auto simp: cfg_def)
qed

section \<open>Sanitised text\<close>

lemma set_ReplaceAll: "set (ReplaceAll old new s) = (set s - {old}) \<union> (if old \<in> set s then set new else {})"
  by (induction s) (auto simp: ReplaceAll_def)

lemma SanitizeInput_clean:
  "set (SanitizeInput s) \<inter> {CHR ''<'', CHR ''>'', CHR 0x22, CHR 0x27, CHR ''/''} = {}"
  by (auto simp: SanitizeInput_def Let_def set_ReplaceAll)

end
