(* ===== verification/Health.thy ===== *)
theory Health
  imports HttpMiddleware
begin

text \<open>
  The observing middleware: \<open>middleware/health.go\<close> (liveness and readiness), \<open>audit.go\<close>, \<open>recovery.go\<close>,
  \<open>compression.go\<close> and \<open>logger.go\<close>. The readiness loop is driven by what its \<open>select\<close> receives: the
  answer of the i-th check, or the end of the budget. Log lines are values.
\<close>

section \<open>Readiness\<close>

record HealthStatus =
  hStatus :: string
  hChecks :: "string \<rightharpoonup> string"

datatype arrival = Answer nat "string option" | Deadline

definition readinessTimeout :: Duration where
  "readinessTimeout = 5 * Second"

fun outcome_text :: "string option \<Rightarrow> string" where
  "outcome_text None = ''ok''"
| "outcome_text (Some err) = ''fail: '' @ err"

definition no_answer :: string where
  "no_answer = ''fail: no answer within the readiness budget''"

fun fill_missing :: "string list \<Rightarrow> (string \<rightharpoonup> string) \<Rightarrow> (string \<rightharpoonup> string)" where
  "fill_missing [] results = results"
| "fill_missing (n # ns) results =
     fill_missing ns (if results n = None then results(n \<mapsto> no_answer) else results)"

fun collect :: "string list \<Rightarrow> nat \<Rightarrow> arrival list \<Rightarrow> (string \<rightharpoonup> string) \<Rightarrow> (string \<rightharpoonup> string) option" where
  \<comment> \<open>\<open>None\<close>: the loop is still waiting\<close>
  "collect names 0 evs results = Some results"
| "collect names (Suc pending) [] results = None"
| "collect names (Suc pending) (Answer i err # evs) results =
     collect names pending evs (results(names ! i \<mapsto> outcome_text err))"
| "collect names (Suc pending) (Deadline # evs) results = Some (fill_missing names results)"

definition runChecks :: "string list \<Rightarrow> arrival list \<Rightarrow> (string \<rightharpoonup> string) option" where
  "runChecks names evs = collect names (length names) evs Map.empty"

definition live :: "nat \<times> HealthStatus" where
  \<comment> \<open>\<open>GET /health\<close>\<close>
  "live = (200, \<lparr>hStatus = ''ok'', hChecks = Map.empty\<rparr>)"

definition ready :: "string list \<Rightarrow> arrival list \<Rightarrow> (nat \<times> HealthStatus) option" where
  \<comment> \<open>\<open>GET /health/ready\<close>; the keys of the result map are names of checks\<close>
  "ready names evs =
     map_option (\<lambda>results.
       if list_ex (\<lambda>n. results n \<noteq> None \<and> results n \<noteq> Some ''ok'') names
       then (503, \<lparr>hStatus = ''degraded'', hChecks = results\<rparr>)
       else (200, \<lparr>hStatus = ''ok'', hChecks = results\<rparr>)) (runChecks names evs)"

definition before_deadline :: "arrival list \<Rightarrow> arrival list" where
  "before_deadline evs = takeWhile (\<lambda>e. e \<noteq> Deadline) evs"

fun answer_of :: "arrival \<Rightarrow> nat list" where
  "answer_of (Answer i err) = [i]"
| "answer_of Deadline = []"

definition answers_once :: "nat \<Rightarrow> arrival list \<Rightarrow> bool" where
  \<comment> \<open>every goroutine sends at most one outcome\<close>
  "answers_once n evs \<longleftrightarrow> distinct (concat (map answer_of evs)) \<and> list_all (\<lambda>i. i < n) (concat (map answer_of evs))"

lemma fill_missing_apply: "fill_missing ns r n = (if n \<in> set ns \<and> r n = None then Some no_answer else r n)"
  by (induction ns arbitrary: r) auto

lemma outcome_ok [simp]: "outcome_text err = ''ok'' \<longleftrightarrow> err = None" "no_answer \<noteq> ''ok''"
  by (cases err) (simp_all add: no_answer_def)

lemma collect_finished:
  assumes "0 = card {i. i < length names \<and> res (names ! i) = None}" and "answers_once (length names) evs"
    and "\<forall>i\<in>set (concat (map answer_of evs)). res (names ! i) = None"
  shows "Answer j None \<notin> set (before_deadline evs)" and "j < length names \<Longrightarrow> res (names ! j) \<noteq> None"
proof -
  have u: "{i. i < length names \<and> res (names ! i) = None} = {}" using assms(1) by simp
  then have "concat (map answer_of evs) = []"
    using assms(2,3) unfolding answers_once_def list_all_iff
    by (metis (mono_tags, lifting) empty_Collect_eq list.set_intros(1) neq_Nil_conv)
  then show "Answer j None \<notin> set (before_deadline evs)" by (auto simp: before_deadline_def dest!: set_takeWhileD)
  show "j < length names \<Longrightarrow> res (names ! j) \<noteq> None" using u by auto
qed

lemma collect_answer:
  assumes "distinct names" and "answers_once (length names) (Answer i err # evs)"
    and "\<forall>a\<in>set (concat (map answer_of (Answer i err # evs))). res (names ! a) = None"
    and "Suc m = card {a. a < length names \<and> res (names ! a) = None}"
  shows "i < length names" and "res (names ! i) = None" and "answers_once (length names) evs"
    and "m = card {a. a < length names \<and> (res(names ! i \<mapsto> t)) (names ! a) = None}"
    and "\<forall>a\<in>set (concat (map answer_of evs)). (res(names ! i \<mapsto> t)) (names ! a) = None"
proof -
  let ?U = "\<lambda>res. {a. a < length names \<and> res (names ! a) = None}"
  show i: "i < length names" "res (names ! i) = None" "answers_once (length names) evs"
    using assms(2,3) by (auto simp: answers_once_def list_all_iff)
  have inj: "names ! a = names ! i \<longleftrightarrow> a = i" if "a < length names" for a
    using assms(1) i(1) that by (simp add: nth_eq_iff_index_eq)
  have "?U (res(names ! i \<mapsto> t)) = ?U res - {i}" using inj by auto
  moreover have "i \<in> ?U res" using i by simp
  ultimately show "m = card (?U (res(names ! i \<mapsto> t)))" using assms(4) [symmetric] by simp
  show "\<forall>a\<in>set (concat (map answer_of evs)). (res(names ! i \<mapsto> t)) (names ! a) = None"
    using assms(2,3) inj by (auto simp: answers_once_def list_all_iff)
qed

lemma collect_result:
  assumes "distinct names"
  shows "collect names k evs res = Some res' \<Longrightarrow> k = card {i. i < length names \<and> res (names ! i) = None} \<Longrightarrow>
    answers_once (length names) evs \<Longrightarrow> (\<forall>i\<in>set (concat (map answer_of evs)). res (names ! i) = None) \<Longrightarrow> j < length names \<Longrightarrow>
    res' (names ! j) \<noteq> None
    \<and> (res' (names ! j) = Some ''ok'' \<longleftrightarrow> res (names ! j) = Some ''ok'' \<or> Answer j None \<in> set (before_deadline evs))"
proof (induction evs arbitrary: k res)
  case Nil
  have k: "k = 0" using Nil.prems(1) by (cases k) simp_all
  then have "res' = res" using Nil.prems(1) by simp
  with collect_finished [OF Nil.prems(2) [unfolded k] Nil.prems(3,4)] Nil.prems(5) show ?case by simp
next
  case (Cons e evs)
  show ?case
  proof (cases k)
    case 0
    then have "res' = res" using Cons.prems(1) by simp
    with collect_finished [OF Cons.prems(2) [unfolded 0] Cons.prems(3,4)] Cons.prems(5) show ?thesis by simp
  next
    case (Suc m)
    show ?thesis
    proof (cases e)
      case Deadline
      with Suc Cons.prems have "res' = fill_missing names res" by simp
      with Cons.prems(5) Deadline show ?thesis by (auto simp: fill_missing_apply before_deadline_def)
    next
      case (Answer i err)
      note a = collect_answer [OF assms Cons.prems(3,4) [unfolded Answer] Cons.prems(2) [unfolded Suc]]
      have c: "collect names m evs (res(names ! i \<mapsto> outcome_text err)) = Some res'" using Cons.prems(1) Suc Answer by simp
      have "Answer j None \<in> set (before_deadline (e # evs)) \<longleftrightarrow> (j = i \<and> err = None) \<or> Answer j None \<in> set (before_deadline evs)"
        by (auto simp: Answer before_deadline_def)
      moreover have "names ! j = names ! i \<longleftrightarrow> j = i" using assms a(1) Cons.prems(5) by (simp add: nth_eq_iff_index_eq)
      ultimately show ?thesis
        using Cons.IH [OF c a(4,3,5) Cons.prems(5)] a(2) by (cases "j = i") auto
    qed
  qed
qed

lemma collect_returns:
  "Deadline \<in> set evs \<Longrightarrow> \<exists>res'. collect names k evs res = Some res'"
proof (induction evs arbitrary: k res)
  case (Cons e evs)
  show ?case
  proof (cases k)
    case (Suc m)
    with Cons show ?thesis by (cases e) auto
  qed simp
qed simp

text \<open>
  C34. Readiness comes to a verdict within its budget and the verdict is right: once the budget has
  run out the probe has an answer, even when a check hangs; and for checks with distinct names,
  answering in any order, it is 200 exactly when every one of them answered without an error before
  the deadline, and every check is named in the report.
\<close>
theorem readiness_sound:
  assumes "distinct names" and "answers_once (length names) evs"
  shows "(Deadline \<in> set evs \<longrightarrow> (\<exists>code status. ready names evs = Some (code, status)))
    \<and> (\<forall>code status. ready names evs = Some (code, status) \<longrightarrow>
         (code = (if \<forall>j<length names. Answer j None \<in> set (before_deadline evs) then 200 else 503))
         \<and> (\<forall>n\<in>set names. hChecks status n \<noteq> None))"
proof (intro conjI impI allI)
  assume "Deadline \<in> set evs"
  from collect_returns [OF this] obtain res where "runChecks names evs = Some res" unfolding runChecks_def by blast
  then have "ready names evs \<noteq> None" by (simp add: ready_def)
  then show "\<exists>code status. ready names evs = Some (code, status)" by auto
next
  fix code status assume "ready names evs = Some (code, status)"
  then obtain res where r: "collect names (length names) evs Map.empty = Some res"
    and code: "code = (if list_ex (\<lambda>n. res n \<noteq> None \<and> res n \<noteq> Some ''ok'') names then 503 else 200)"
    and st: "hChecks status = res"
    by (auto simp: ready_def runChecks_def split: if_splits)
  have "length names = card {i. i < length names \<and> (Map.empty :: string \<rightharpoonup> string) (names ! i) = None}" by simp
  note c = collect_result [OF assms(1) r this assms(2)]
  then have c: "res (names ! j) \<noteq> None" "res (names ! j) = Some ''ok'' \<longleftrightarrow> Answer j None \<in> set (before_deadline evs)"
    if "j < length names" for j using that by auto
  have eq: "list_ex (\<lambda>n. res n \<noteq> None \<and> res n \<noteq> Some ''ok'') names \<longleftrightarrow>
      (\<exists>j<length names. Answer j None \<notin> set (before_deadline evs))"
    unfolding list_ex_length using c by blast
  show "code = (if \<forall>j<length names. Answer j None \<in> set (before_deadline evs) then 200 else 503)"
    unfolding code eq by simp
  show "\<forall>n\<in>set names. hChecks status n \<noteq> None" using c(1) st by (auto simp: in_set_conv_nth)
qed

theorem readiness_sound_witness:
  "\<exists>status. ready [''db'', ''nats''] [Answer 1 None, Deadline] = Some (503, status) \<and> hChecks status ''db'' \<noteq> None"
proof -
  have a: "distinct [''db'', ''nats'']" "answers_once (length [''db'', ''nats'']) [Answer 1 None, Deadline]"
    by (simp_all add: answers_once_def)
  obtain code status where r: "ready [''db'', ''nats''] [Answer 1 None, Deadline] = Some (code, status)"
    using readiness_sound [OF a] by auto
  moreover have "\<not> (\<forall>j<length [''db'', ''nats'']. Answer j None \<in> set (before_deadline [Answer 1 None, Deadline]))"
    by (auto simp: before_deadline_def)
  ultimately show ?thesis using readiness_sound [OF a] by auto
qed

text \<open>
  The report is keyed by name: of two checks with one name the later answer hides the earlier, so a
  failing dependency can be reported ready.
\<close>
lemma same_name_hides_failure:
  "map_option fst (ready [''db'', ''db''] [Answer 0 (Some ''down''), Answer 1 None]) = Some 200"
  by (simp add: ready_def runChecks_def)

section \<open>Audit\<close>

record AuditEvent =
  aEventType :: string
  aUserID :: string
  aEmail :: string
  aIPAddress :: string
  aMethod :: string
  aPath :: string
  aStatusCode :: nat
  aSuccess :: bool

fun sub_at :: "string \<Rightarrow> string \<Rightarrow> nat \<Rightarrow> bool" where
  \<comment> \<open>the loop of \<open>containsSubstring\<close> on the offsets still to be tried\<close>
  "sub_at s substr 0 = (take (length substr) s = substr)"
| "sub_at s substr (Suc k) = (take (length substr) s = substr \<or> sub_at (tl s) substr k)"

definition containsSubstring :: "string \<Rightarrow> string \<Rightarrow> bool" where
  "containsSubstring s substr = (if length substr \<le> length s then sub_at s substr (length s - length substr) else False)"

definition contains :: "string \<Rightarrow> string \<Rightarrow> bool" where
  "contains s substr \<longleftrightarrow> length s \<ge> length substr \<and> (s = substr \<or> containsSubstring s substr)"

definition sensitivePatterns :: "string list" where
  "sensitivePatterns =
    [''/auth/login'', ''/auth/register'', ''/auth/logout'', ''/auth/refresh'', ''/auth/forgot-password'',
     ''/auth/reset-password'', ''/auth/change-password'', ''/admin/'', ''/permissions/'', ''/roles/'', ''/users/'']"

definition isSensitiveRoute :: "string \<Rightarrow> bool" where
  "isSensitiveRoute path = list_ex (\<lambda>pattern. contains path pattern) sensitivePatterns"

definition determineEventType :: "string \<Rightarrow> string \<Rightarrow> string" where
  "determineEventType path method =
     (if contains path ''/login'' then ''LOGIN_ATTEMPT''
      else if contains path ''/register'' then ''REGISTRATION''
      else if contains path ''/logout'' then ''LOGOUT''
      else if contains path ''/refresh'' then ''TOKEN_REFRESH''
      else if contains path ''/forgot-password'' then ''PASSWORD_RESET_REQUEST''
      else if contains path ''/reset-password'' then ''PASSWORD_RESET''
      else if contains path ''/change-password'' then ''PASSWORD_CHANGE''
      else if contains path ''/permissions/'' \<and> method = ''POST'' then ''PERMISSION_GRANTED''
      else if contains path ''/permissions/'' \<and> method = ''DELETE'' then ''PERMISSION_REVOKED''
      else if contains path ''/roles/'' \<and> method = ''POST'' then ''ROLE_CREATED''
      else if contains path ''/roles/'' \<and> method = ''PUT'' then ''ROLE_UPDATED''
      else if contains path ''/roles/'' \<and> method = ''DELETE'' then ''ROLE_DELETED''
      else if contains path ''/admin/'' then ''ADMIN_ACTION''
      else ''SENSITIVE_ACCESS'')"

definition context_string :: "string \<Rightarrow> http_context \<Rightarrow> string" where
  "context_string k c = (case ckeys c k of Some (CString s) \<Rightarrow> s | _ \<Rightarrow> '''')"

definition AuditLogger :: "Time \<Rightarrow> Time \<Rightarrow> http_context \<Rightarrow> nat \<Rightarrow> (AuditEvent \<times> Duration) option" where
  \<comment> \<open>what is logged, from the context and the status after the handlers ran, with the duration; the
     timestamp, user agent and details of the struct are never set\<close>
  "AuditLogger begun now c status =
     (if \<not> isSensitiveRoute (rPath (creq c)) then None
      else Some (\<lparr>aEventType = determineEventType (rPath (creq c)) (rMethod (creq c)),
                 aUserID = context_string ''user_id'' c, aEmail = context_string ''email'' c,
                 aIPAddress = rClientIP (creq c), aMethod = rMethod (creq c), aPath = rPath (creq c),
                 aStatusCode = status, aSuccess = (status < 400)\<rparr>, SubT now begun))"

lemma sub_at_iff: "k + length t \<le> length s \<Longrightarrow> sub_at s t k \<longleftrightarrow> (\<exists>u v. s = u @ t @ v \<and> length u \<le> k)"
proof (induction k arbitrary: s)
  case 0
  then show ?case by (metis append_take_drop_id append_eq_conv_conj le_zero_eq length_0_conv append_Nil sub_at.simps(1))
next
  case (Suc k)
  then obtain x xs where s: "s = x # xs" by (cases s) auto
  have "sub_at s t (Suc k) \<longleftrightarrow> (\<exists>v. s = t @ v) \<or> (\<exists>u v. xs = u @ t @ v \<and> length u \<le> k)"
    using Suc by (simp add: s) (metis append_eq_conv_conj append_take_drop_id)
  also have "\<dots> \<longleftrightarrow> (\<exists>u v. s = u @ t @ v \<and> length u \<le> Suc k)" (is "?here \<or> ?later \<longleftrightarrow> ?any")
  proof
    assume "?here \<or> ?later"
    then show ?any
    proof
      assume ?here
      then show ?any by (metis append_Nil list.size(3) zero_le)
    next
      assume ?later
      then obtain u v where "xs = u @ t @ v" "length u \<le> k" by blast
      then show ?any by (intro exI [of _ "x # u"] exI [of _ v]) (simp add: s)
    qed
  next
    assume ?any
    then obtain u v where "s = u @ t @ v" "length u \<le> Suc k" by blast
    then show "?here \<or> ?later" by (cases u) (auto simp: s)
  qed
  finally show ?case .
qed

lemma audit_contains_iff: "contains s t \<longleftrightarrow> sublist t s"
proof (cases "length t \<le> length s")
  case True
  have "sublist t s \<longleftrightarrow> (\<exists>u v. s = u @ t @ v \<and> length u \<le> length s - length t)"
    unfolding sublist_def by auto
  with True sub_at_iff [of "length s - length t" t s] show ?thesis by (auto simp: contains_def containsSubstring_def)
next
  case False
  then show ?thesis by (auto simp: contains_def dest: sublist_length_le)
qed

text \<open>
  What an audit line says of a request that passed authentication: its user, status and route, and
  a type that depends on the route and method alone; but never the user's email, which authentication
  stores under another key than the audit reads. Routes outside the audited patterns log nothing; the
  substring test of the package agrees with that of the standard library.
\<close>
theorem audit_of_authenticated:
  assumes "AuthMiddleware J m now (start r) = Continue c"
  shows "(\<exists>claims. ValidateToken J m now (request_token (start r)) = Inr claims
      \<and> AuditLogger begun ended c status =
          (if list_ex (\<lambda>p. Contains (rPath r) p) sensitivePatterns
           then Some (\<lparr>aEventType = determineEventType (rPath r) (rMethod r), aUserID = UserID claims, aEmail = '''',
                      aIPAddress = rClientIP r, aMethod = rMethod r, aPath = rPath r, aStatusCode = status,
                      aSuccess = (status < 400)\<rparr>, SubT ended begun)
           else None))
    \<and> contains s t = Contains s t"
proof -
  from assms obtain claims where "ValidateToken J m now (request_token (start r)) = Inr claims" "c = set_user claims (start r)"
    by (auto simp: AuthMiddleware_def Let_def split: if_splits sum.splits)
  then show ?thesis
    by (auto simp: AuditLogger_def isSensitiveRoute_def audit_contains_iff Contains_iff context_string_def set_user_def start_def)
qed

section \<open>Recovery, compression, request log\<close>

definition RecoveryMiddleware :: "(http_context \<Rightarrow> verdict go) \<Rightarrow> handler" where
  \<comment> \<open>the handlers after it may panic; \<open>%v\<close> of the panic value is its text\<close>
  "RecoveryMiddleware next c =
     (case next c of
        Ret v \<Rightarrow> v
      | Panic err \<Rightarrow> Stop (ErrorResponse 500 ''INTERNAL_SERVER_ERROR'' (''Internal server error: '' @ err) GNil) c)"

definition Gzip :: "http_context \<Rightarrow> http_context \<times> bool" where
  \<comment> \<open>the context for the handlers, and whether what they write is compressed\<close>
  "Gzip c =
     (if \<not> Contains (GetHeader ''Accept-Encoding'' c) ''gzip'' then (c, False)
      else if (case cout c ''Content-Encoding'' of None \<Rightarrow> '''' | Some v \<Rightarrow> v) \<noteq> '''' then (c, False)
      else (SetHeader ''Vary'' ''Accept-Encoding'' (SetHeader ''Content-Encoding'' ''gzip'' c), True))"

datatype log_line =
    RequestProcessed string nat string string string string string Duration
  | HandlerError string string

definition LoggerMiddleware ::
  "Time \<Rightarrow> Time \<Rightarrow> string \<Rightarrow> string list \<Rightarrow> nat \<Rightarrow> http_context \<Rightarrow> log_line list" where
  \<comment> \<open>the lines for the raw query, the errors of the context and the status after the handlers ran\<close>
  "LoggerMiddleware begun ended query errors status c =
     (let requestID = GetRequestID c
      in if length errors > 0 then map (\<lambda>e. HandlerError e requestID) errors
         else [RequestProcessed requestID status (rMethod (creq c)) (rPath (creq c)) query (rClientIP (creq c))
                 (GetHeader ''User-Agent'' c) (SubT ended begun)])"

text \<open>A panic is always answered with status 500, and its text reaches the client.\<close>
lemma RecoveryMiddleware_answers:
  "next c = Panic err \<Longrightarrow>
     \<exists>a. RecoveryMiddleware next c = Stop a c \<and> answer_status a = Some 500
       \<and> a = InternalServerError (''Internal server error: '' @ err)"
  by (simp add: RecoveryMiddleware_def ErrorResponse_def InternalServerError_def)

end
