(* ===== verification/Telemetry.thy ===== *)
theory Telemetry
  imports HttpContext
begin

text \<open>
  The \<open>telemetry\<close> package: spans around HTTP requests, database statements and NATS messages, and the
  configuration of the tracer. OpenTelemetry is a set of arguments: \<open>child\<close> gives the context of a new
  span, \<open>inject\<close> and \<open>extr\<close> are the text-map propagator on a header, and the calls that are traced
  return what the network answered. A span is the record of what the code does to it, ending included.
  Attributes made by \<open>semconv\<close> carry the name of their constructor.
\<close>

section \<open>Spans\<close>

datatype attr = AStr string | AInt int
datatype span_kind = KindClient | KindServer | KindProducer | KindConsumer
datatype span_status = Unset | StatusOk | StatusError string

record Span =
  spName :: string
  spKind :: span_kind
  spAttrs :: "(string \<times> attr) list"
  spStatus :: span_status
  spErrors :: "string list"
  spEnds :: nat
    \<comment> \<open>how often \<open>End\<close> was called\<close>

definition StartSpan :: "string \<Rightarrow> span_kind \<Rightarrow> (string \<times> attr) list \<Rightarrow> Span" where
  "StartSpan name kind attrs =
     \<lparr>spName = name, spKind = kind, spAttrs = attrs, spStatus = Unset, spErrors = [], spEnds = 0\<rparr>"

definition SetAttributes :: "(string \<times> attr) list \<Rightarrow> Span \<Rightarrow> Span" where
  "SetAttributes attrs s = s\<lparr>spAttrs := spAttrs s @ attrs\<rparr>"

definition SetStatus :: "span_status \<Rightarrow> Span \<Rightarrow> Span" where
  "SetStatus st s = s\<lparr>spStatus := st\<rparr>"

definition RecordError :: "string \<Rightarrow> Span \<Rightarrow> Span" where
  "RecordError err s = s\<lparr>spErrors := spErrors s @ [err]\<rparr>"

definition EndSpan :: "Span \<Rightarrow> Span" where
  "EndSpan s = s\<lparr>spEnds := spEnds s + 1\<rparr>"

definition fail_span :: "string \<Rightarrow> Span \<Rightarrow> Span" where
  "fail_span err s = SetStatus (StatusError err) (RecordError err s)"

lemmas span_defs = StartSpan_def SetAttributes_def SetStatus_def RecordError_def EndSpan_def fail_span_def

section \<open>Configuration\<close>

record TelemetryConfig =
  tServiceName :: string
  tServiceVersion :: string
  tEnvironment :: string
  tOTLPEndpoint :: string
  tSampleRate :: rat
  tEnabled :: bool

definition DefaultConfig :: "(string \<Rightarrow> string) \<Rightarrow> string \<Rightarrow> TelemetryConfig" where
  "DefaultConfig Getenv serviceName =
     (let endpoint = Getenv ''OTEL_EXPORTER_OTLP_ENDPOINT'';
          endpoint = (if endpoint = '''' then ''jaeger:4318'' else endpoint);
          env = Getenv ''APP_ENV'';
          env = (if env = '''' then ''development'' else env);
          enabled = (Getenv ''OTEL_ENABLED'' \<noteq> ''false'')
      in \<lparr>tServiceName = serviceName, tServiceVersion = Getenv ''APP_VERSION'', tEnvironment = env,
          tOTLPEndpoint = endpoint, tSampleRate = 1 / 10, tEnabled = enabled\<rparr>)"

datatype sampler = AlwaysSample | TraceIDRatioBased rat

record TracerProvider =
  tpEndpoint :: string
  tpSampler :: sampler
  tpBatchTimeout :: Duration
  tpMaxExportBatchSize :: nat

record Telemetry =
  tConfig :: TelemetryConfig
  tracerProvider :: "TracerProvider option"

definition choose_sampler :: "TelemetryConfig \<Rightarrow> sampler" where
  "choose_sampler cfg =
     (if tEnvironment cfg = ''production'' then TraceIDRatioBased (tSampleRate cfg) else AlwaysSample)"

definition initTracer :: "string option \<Rightarrow> string option \<Rightarrow> Telemetry \<Rightarrow> string option \<times> Telemetry" where
  \<comment> \<open>the errors of \<open>otlptracehttp.New\<close> and \<open>resource.New\<close>\<close>
  "initTracer exporterErr resourceErr t =
     (case exporterErr of
        Some err \<Rightarrow> (Some err, t)
      | None \<Rightarrow>
          (case resourceErr of
             Some err \<Rightarrow> (Some err, t)
           | None \<Rightarrow>
               (None, t\<lparr>tracerProvider := Some \<lparr>tpEndpoint = tOTLPEndpoint (tConfig t), tpSampler = choose_sampler (tConfig t),
                         tpBatchTimeout = 5 * Second, tpMaxExportBatchSize = 512\<rparr>\<rparr>)))"

definition Telemetry_New :: "string option \<Rightarrow> string option \<Rightarrow> TelemetryConfig \<Rightarrow> string + Telemetry" where
  "Telemetry_New exporterErr resourceErr cfg =
     (let t = \<lparr>tConfig = cfg, tracerProvider = None\<rparr>
      in if \<not> tEnabled cfg then Inr t
         else case initTracer exporterErr resourceErr t of
                (Some err, _) \<Rightarrow> Inl err
              | (None, t') \<Rightarrow> Inr t')"

datatype tracer_source = GlobalTracer string | ProviderTracer string

definition Telemetry_Tracer :: "Telemetry \<Rightarrow> tracer_source" where
  "Telemetry_Tracer t =
     (case tracerProvider t of
        None \<Rightarrow> GlobalTracer (tServiceName (tConfig t))
      | Some _ \<Rightarrow> ProviderTracer (tServiceName (tConfig t)))"

definition Telemetry_Shutdown :: "(TracerProvider \<Rightarrow> string option) \<Rightarrow> Telemetry \<Rightarrow> string option" where
  "Telemetry_Shutdown shutdown t = (case tracerProvider t of None \<Rightarrow> None | Some p \<Rightarrow> shutdown p)"

section \<open>HTTP\<close>

record out_request =
  oMethod :: string
  oURL :: string
  oHost :: string
  oPath :: string
  oHeader :: "string \<rightharpoonup> string list"

record in_response =
  StatusCode :: nat
  ContentLength :: int
  Body :: "string + string"
    \<comment> \<open>what reading the body returns\<close>

type_synonym 'c propagate = "'c \<Rightarrow> (string \<rightharpoonup> string list) \<Rightarrow> (string \<rightharpoonup> string list)"

definition Client_Do ::
  "('c \<Rightarrow> string \<Rightarrow> 'c) \<Rightarrow> 'c propagate \<Rightarrow> ('c \<Rightarrow> out_request \<Rightarrow> string + in_response) \<Rightarrow> 'c \<Rightarrow> out_request
     \<Rightarrow> (string + in_response) \<times> Span" where
  "Client_Do child inject send ctx req =
     (let spanName = ''HTTP '' @ oMethod req @ '' '' @ oPath req;
          ctx = child ctx spanName;
          span = StartSpan spanName KindClient
                   [(''semconv.HTTPMethod'', AStr (oMethod req)), (''semconv.HTTPURL'', AStr (oURL req)),
                    (''semconv.NetPeerName'', AStr (oHost req)), (''http.target'', AStr (oPath req))];
          req = req\<lparr>oHeader := inject ctx (oHeader req)\<rparr>
      in case send ctx req of
           Inl err \<Rightarrow> (Inl err, EndSpan (fail_span err span))
         | Inr resp \<Rightarrow>
             (let span = SetAttributes [(''semconv.HTTPStatusCode'', AInt (int (StatusCode resp))),
                           (''http.response_content_length'', AInt (ContentLength resp))] span;
                  span = (if StatusCode resp \<ge> 400 then SetStatus (StatusError (''HTTP '' @ show_nat (StatusCode resp))) span
                          else SetStatus StatusOk span)
              in (Inr resp, EndSpan span)))"

definition Client_Get ::
  "('c \<Rightarrow> string \<Rightarrow> 'c) \<Rightarrow> 'c propagate \<Rightarrow> ('c \<Rightarrow> out_request \<Rightarrow> string + in_response)
     \<Rightarrow> (string \<Rightarrow> string \<Rightarrow> string + out_request) \<Rightarrow> 'c \<Rightarrow> string \<Rightarrow> (string + in_response) \<times> Span option" where
  \<comment> \<open>\<open>NewRequest method url\<close> is \<open>http.NewRequestWithContext\<close>\<close>
  "Client_Get child inject send NewRequest ctx url =
     (case NewRequest ''GET'' url of
        Inl err \<Rightarrow> (Inl err, None)
      | Inr req \<Rightarrow> (let (r, span) = Client_Do child inject send ctx req in (r, Some span)))"

definition with_content_type :: "string \<Rightarrow> out_request \<Rightarrow> out_request" where
  "with_content_type contentType req = req\<lparr>oHeader := (oHeader req)(''Content-Type'' \<mapsto> [contentType])\<rparr>"

definition Client_Post ::
  "('c \<Rightarrow> string \<Rightarrow> 'c) \<Rightarrow> 'c propagate \<Rightarrow> ('c \<Rightarrow> out_request \<Rightarrow> string + in_response)
     \<Rightarrow> (string \<Rightarrow> string \<Rightarrow> string + out_request) \<Rightarrow> 'c \<Rightarrow> string \<Rightarrow> string \<Rightarrow> (string + in_response) \<times> Span option" where
  "Client_Post child inject send NewRequest ctx url contentType =
     (case NewRequest ''POST'' url of
        Inl err \<Rightarrow> (Inl err, None)
      | Inr req \<Rightarrow>
          (let (r, span) = Client_Do child inject send ctx (with_content_type contentType req) in (r, Some span)))"

definition Client_PostJSON ::
  "('c \<Rightarrow> string \<Rightarrow> 'c) \<Rightarrow> 'c propagate \<Rightarrow> ('c \<Rightarrow> out_request \<Rightarrow> string + in_response)
     \<Rightarrow> (string \<Rightarrow> string \<Rightarrow> string + out_request) \<Rightarrow> 'c \<Rightarrow> string \<Rightarrow> (string + in_response) \<times> Span option" where
  "Client_PostJSON child inject send NewRequest ctx url =
     Client_Post child inject send NewRequest ctx url ''application/json''"

definition Client_Put ::
  "('c \<Rightarrow> string \<Rightarrow> 'c) \<Rightarrow> 'c propagate \<Rightarrow> ('c \<Rightarrow> out_request \<Rightarrow> string + in_response)
     \<Rightarrow> (string \<Rightarrow> string \<Rightarrow> string + out_request) \<Rightarrow> 'c \<Rightarrow> string \<Rightarrow> string \<Rightarrow> (string + in_response) \<times> Span option" where
  "Client_Put child inject send NewRequest ctx url contentType =
     (case NewRequest ''PUT'' url of
        Inl err \<Rightarrow> (Inl err, None)
      | Inr req \<Rightarrow>
          (let (r, span) = Client_Do child inject send ctx (with_content_type contentType req) in (r, Some span)))"

definition Client_Delete ::
  "('c \<Rightarrow> string \<Rightarrow> 'c) \<Rightarrow> 'c propagate \<Rightarrow> ('c \<Rightarrow> out_request \<Rightarrow> string + in_response)
     \<Rightarrow> (string \<Rightarrow> string \<Rightarrow> string + out_request) \<Rightarrow> 'c \<Rightarrow> string \<Rightarrow> (string + in_response) \<times> Span option" where
  "Client_Delete child inject send NewRequest ctx url =
     (case NewRequest ''DELETE'' url of
        Inl err \<Rightarrow> (Inl err, None)
      | Inr req \<Rightarrow> (let (r, span) = Client_Do child inject send ctx req in (r, Some span)))"

definition ReadBody :: "in_response \<Rightarrow> Span \<Rightarrow> (string + string) \<times> Span \<times> bool" where
  \<comment> \<open>the flag says whether the body was closed\<close>
  "ReadBody resp sp =
     (case Body resp of
        Inl err \<Rightarrow> (Inl err, RecordError err sp, False)
      | Inr body \<Rightarrow> (Inr body, SetAttributes [(''http.response_body_size'', AInt (int (length body)))] sp, True))"

record server_request =
  sFullPath :: string
  sURL :: string
  sScheme :: string
  sHost :: string
  sUserAgent :: string
  sContentLength :: int

definition TracingMiddleware ::
  "(http_context \<Rightarrow> string) \<Rightarrow> server_request \<Rightarrow> (http_context \<Rightarrow> verdict \<times> nat \<times> int \<times> string list) \<Rightarrow> http_context
     \<Rightarrow> verdict \<times> Span" where
  \<comment> \<open>\<open>traceID\<close> is the identifier of the span that is started; \<open>next\<close> gives the verdict of the handlers
     with the status, size and errors they leave\<close>
  "TracingMiddleware traceID sr next c =
     (let path = (if sFullPath sr = '''' then rPath (creq c) else sFullPath sr);
          spanName = rMethod (creq c) @ '' '' @ path;
          span = StartSpan spanName KindServer
                   [(''semconv.HTTPMethod'', AStr (rMethod (creq c))), (''semconv.HTTPRoute'', AStr (sFullPath sr)),
                    (''semconv.HTTPURL'', AStr (sURL sr)), (''semconv.HTTPScheme'', AStr (sScheme sr)),
                    (''semconv.NetHostName'', AStr (sHost sr)), (''semconv.UserAgentOriginal'', AStr (sUserAgent sr)),
                    (''semconv.HTTPRequestContentLength'', AInt (sContentLength sr)),
                    (''http.client_ip'', AStr (rClientIP (creq c)))];
          c = SetHeader ''X-Trace-ID'' (traceID c) c;
          c = SetKey ''spanContext'' COther (SetKey ''traceID'' (CString (traceID c)) c);
          (v, statusCode, size, errors) = next c;
          span = SetAttributes [(''semconv.HTTPStatusCode'', AInt (int statusCode)),
                   (''semconv.HTTPResponseContentLength'', AInt size)] span;
          span = (if statusCode \<ge> 400 \<and> statusCode < 500
                  then SetStatus (StatusError (''Client error: '' @ show_nat statusCode)) span
                  else if statusCode \<ge> 500 then SetStatus (StatusError (''Server error: '' @ show_nat statusCode)) span
                  else SetStatus StatusOk span)
      in (v, EndSpan (fold RecordError errors span)))"

definition InjectTracingHeaders ::
  "'c propagate \<Rightarrow> 'c option option \<Rightarrow> out_request option \<Rightarrow> out_request option" where
  \<comment> \<open>\<open>ctx\<close> is the gin context, with the context of its request where that is not nil\<close>
  "InjectTracingHeaders inject ctx req =
     (case (ctx, req) of
        (Some (Some c), Some r) \<Rightarrow> Some (r\<lparr>oHeader := inject c (oHeader r)\<rparr>)
      | _ \<Rightarrow> req)"

definition GetTraceID :: "http_context \<Rightarrow> string go" where
  "GetTraceID c =
     (case ckeys c ''traceID'' of
        None \<Rightarrow> Ret ''''
      | Some (CString s) \<Rightarrow> Ret s
      | Some _ \<Rightarrow> Panic ''interface conversion'')"

section \<open>Database\<close>

record gorm_statement =
  gTable :: string
  gSchemaTable :: "string option"
  gSQL :: string
  gRowsAffected :: int
  gError :: "string option"

definition ErrRecordNotFound :: string where
  "ErrRecordNotFound = ''record not found''"

definition gorm_before :: "string \<Rightarrow> string \<Rightarrow> gorm_statement \<Rightarrow> Span" where
  "gorm_before dbName operation db =
     (let tableName = (if gTable db = '''' then (case gSchemaTable db of Some t \<Rightarrow> t | None \<Rightarrow> '''') else gTable db)
      in StartSpan (''GORM '' @ operation @ '' '' @ tableName) KindClient
           [(''semconv.DBSystemPostgreSQL'', AStr ''''), (''semconv.DBName'', AStr dbName),
            (''semconv.DBOperation'', AStr operation), (''db.table'', AStr tableName)])"

definition db_outcome :: "string option \<Rightarrow> Span \<Rightarrow> Span" where
  \<comment> \<open>an error other than \<open>ErrRecordNotFound\<close> fails the span\<close>
  "db_outcome err sp =
     (case err of
        Some e \<Rightarrow> if e \<noteq> ErrRecordNotFound then fail_span e sp else SetStatus StatusOk sp
      | None \<Rightarrow> SetStatus StatusOk sp)"

definition gorm_after :: "gorm_statement \<Rightarrow> Span option \<Rightarrow> Span option" where
  \<comment> \<open>given the span that \<open>before\<close> stored for this statement, if any\<close>
  "gorm_after db stored =
     map_option (\<lambda>span.
       let sql = gSQL db;
           sql = (if length sql > 1000 then take 1000 sql @ ''...'' else sql);
           span = SetAttributes [(''semconv.DBStatement'', AStr sql)] span;
           span = SetAttributes [(''db.rows_affected'', AInt (gRowsAffected db))] span
       in EndSpan (db_outcome (gError db) span)) stored"

definition StartDBSpan :: "string \<Rightarrow> string \<Rightarrow> Span" where
  "StartDBSpan operation table =
     StartSpan (''DB '' @ operation @ '' '' @ table) KindClient
       [(''semconv.DBSystemPostgreSQL'', AStr ''''), (''semconv.DBOperation'', AStr operation), (''db.table'', AStr table)]"

definition DBSpanTimer_End :: "Time \<Rightarrow> Time \<Rightarrow> string option \<Rightarrow> int \<Rightarrow> Span \<Rightarrow> Span" where
  "DBSpanTimer_End startTime now err rowsAffected sp =
     EndSpan (db_outcome err (SetAttributes [(''db.rows_affected'', AInt rowsAffected),
       (''db.duration_ms'', AInt (trunc_div (SubT now startTime) Millisecond))] sp))"

section \<open>NATS\<close>

type_synonym header = "string \<rightharpoonup> string list"

definition carrier_Get :: "header \<Rightarrow> string \<Rightarrow> string" where
  "carrier_Get c key = (case c key of Some (v # _) \<Rightarrow> v | _ \<Rightarrow> '''')"

definition carrier_Set :: "string \<Rightarrow> string \<Rightarrow> header \<Rightarrow> header" where
  "carrier_Set key v c = c(key \<mapsto> [v])"

record nats_msg =
  nSubject :: string
  nData :: string
  nHeader :: "header option"

definition Traced_Publish ::
  "('c \<Rightarrow> string \<Rightarrow> 'c) \<Rightarrow> 'c propagate \<Rightarrow> (nats_msg \<Rightarrow> string option) option \<Rightarrow> (nats_msg \<Rightarrow> string option)
     \<Rightarrow> 'c \<Rightarrow> string \<Rightarrow> string \<Rightarrow> string option \<times> nats_msg \<times> Span" where
  \<comment> \<open>through JetStream when the publisher has it, otherwise through the connection; with the message sent\<close>
  "Traced_Publish child inject js conn ctx subject data =
     (let spanName = ''NATS Publish '' @ subject;
          ctx = child ctx spanName;
          span = StartSpan spanName KindProducer
                   [(''messaging.system'', AStr ''nats''), (''semconv.MessagingDestinationName'', AStr subject),
                    (''semconv.MessagingOperationPublish'', AStr ''''),
                    (''messaging.message.payload_size_bytes'', AInt (int (length data)))];
          msg = \<lparr>nSubject = subject, nData = data, nHeader = Some (inject ctx Map.empty)\<rparr>;
          err = (case js of Some send \<Rightarrow> send msg | None \<Rightarrow> conn msg)
      in case err of
           Some e \<Rightarrow> (Some e, msg, EndSpan (fail_span e span))
         | None \<Rightarrow> (None, msg, EndSpan (SetStatus StatusOk span)))"

definition Traced_PublishJSON ::
  "('c \<Rightarrow> string \<Rightarrow> 'c) \<Rightarrow> 'c propagate \<Rightarrow> (nats_msg \<Rightarrow> string option) option \<Rightarrow> (nats_msg \<Rightarrow> string option)
     \<Rightarrow> 'c \<Rightarrow> string \<Rightarrow> string + string \<Rightarrow> string option" where
  \<comment> \<open>the last argument is what \<open>json.Marshal(v)\<close> returned\<close>
  "Traced_PublishJSON child inject js conn ctx subject marshalled =
     (case marshalled of
        Inl err \<Rightarrow> Some err
      | Inr data \<Rightarrow> fst (Traced_Publish child inject js conn ctx subject data))"

definition ExtractNATSContext :: "('c \<Rightarrow> header \<Rightarrow> 'c) \<Rightarrow> 'c \<Rightarrow> nats_msg \<Rightarrow> 'c" where
  "ExtractNATSContext extr ctx msg = (case nHeader msg of None \<Rightarrow> ctx | Some h \<Rightarrow> extr ctx h)"

definition StartConsumerSpan ::
  "('c \<Rightarrow> string \<Rightarrow> 'c) \<Rightarrow> ('c \<Rightarrow> header \<Rightarrow> 'c) \<Rightarrow> 'c \<Rightarrow> string \<Rightarrow> nats_msg \<Rightarrow> 'c \<times> Span" where
  "StartConsumerSpan child extr ctx subject msg =
     (let ctx = ExtractNATSContext extr ctx msg; spanName = ''NATS Consume '' @ subject
      in (child ctx spanName,
          StartSpan spanName KindConsumer
            [(''messaging.system'', AStr ''nats''), (''semconv.MessagingDestinationName'', AStr subject),
             (''semconv.MessagingOperationReceive'', AStr ''''),
             (''messaging.message.payload_size_bytes'', AInt (int (length (nData msg))))]))"

definition Traced_Handle ::
  "('c \<Rightarrow> string \<Rightarrow> 'c) \<Rightarrow> ('c \<Rightarrow> header \<Rightarrow> 'c) \<Rightarrow> 'c \<Rightarrow> ('c \<Rightarrow> nats_msg \<Rightarrow> string option) \<Rightarrow> nats_msg \<Rightarrow> Span" where
  "Traced_Handle child extr background handler msg =
     (let (ctx, span) = StartConsumerSpan child extr background (nSubject msg) msg
      in EndSpan (case handler ctx msg of
                    Some err \<Rightarrow> fail_span err span
                  | None \<Rightarrow> SetStatus StatusOk span))"

section \<open>Every span ends once, and traces join\<close>

definition propagates :: "('c \<Rightarrow> string) \<Rightarrow> ('c \<Rightarrow> string \<Rightarrow> 'c) \<Rightarrow> 'c propagate \<Rightarrow> ('c \<Rightarrow> header \<Rightarrow> 'c) \<Rightarrow> bool" where
  \<comment> \<open>OpenTelemetry: a child span stays in its trace, and what was injected is extracted\<close>
  "propagates trace_of child inject extr \<longleftrightarrow>
     (\<forall>c n. trace_of (child c n) = trace_of c) \<and> (\<forall>c d h. trace_of (extr d (inject c h)) = trace_of c)"

lemma downstream_joined:
  assumes "propagates trace_of child inject extr"
  shows "\<exists>r'. InjectTracingHeaders inject (Some (Some c)) (Some r) = Some r' \<and> trace_of (extr d (oHeader r')) = trace_of c"
  using assms by (simp add: InjectTracingHeaders_def propagates_def)

lemma Traced_Publish_span:
  "Traced_Publish child inject js conn ctx subject data = (err, msg, sp) \<Longrightarrow>
     spEnds sp = 1 \<and> spStatus sp = (case err of None \<Rightarrow> StatusOk | Some e \<Rightarrow> StatusError e)
     \<and> nHeader msg = Some (inject (child ctx (''NATS Publish '' @ subject)) Map.empty) \<and> nSubject msg = subject \<and> nData msg = data"
  by (auto simp: Traced_Publish_def Let_def span_defs split: option.splits)

lemma Client_Do_span:
  "Client_Do child inject send ctx req = (r, sp) \<Longrightarrow>
     spEnds sp = 1 \<and> (spStatus sp = StatusOk \<longleftrightarrow> (\<exists>resp. r = Inr resp \<and> StatusCode resp < 400))"
  by (cases r) (auto simp: Client_Do_def Let_def span_defs split: sum.splits if_splits)

lemma Traced_Handle_span:
  "spEnds (Traced_Handle child extr bg handler msg) = 1
   \<and> spStatus (Traced_Handle child extr bg handler msg) =
       (case handler (fst (StartConsumerSpan child extr bg (nSubject msg) msg)) msg of
          None \<Rightarrow> StatusOk | Some e \<Rightarrow> StatusError e)"
  by (auto simp: Traced_Handle_def StartConsumerSpan_def Let_def span_defs split: option.splits)

lemma span_fields:
  "spEnds (db_outcome e sp) = spEnds sp" "spEnds (SetAttributes as sp) = spEnds sp" "spEnds (StartSpan n k as) = 0"
  "spEnds (EndSpan sp) = spEnds sp + 1" "spStatus (EndSpan sp) = spStatus sp"
  "spStatus (db_outcome e sp) = StatusOk \<longleftrightarrow> e = None \<or> e = Some ErrRecordNotFound"
  by (auto simp: db_outcome_def span_defs split: option.splits)

lemma gorm_span:
  "\<exists>sp. gorm_after db (Some (gorm_before dbName operation db)) = Some sp \<and> spEnds sp = 1
     \<and> (spStatus sp = StatusOk \<longleftrightarrow> gError db = None \<or> gError db = Some ErrRecordNotFound)"
  by (simp add: gorm_after_def gorm_before_def Let_def span_fields)

text \<open>
  A message carries its trace to the consumer, and every span is closed: the handler that
  consumes what the traced publisher sent runs in the trace of the publishing request; the spans of
  publisher, consumer, HTTP client and database statement are each ended exactly once, with status
  ok exactly when the traced call succeeded (a database record that is not found counts as success,
  an HTTP status of 400 or more as failure).
\<close>
theorem trace_joined:
  assumes "propagates trace_of child inject extr"
    and "Traced_Publish child inject js conn ctx subject data = (err, msg, psp)"
    and "Client_Do child inject send ctx req = (r, hsp)"
  shows "trace_of (fst (StartConsumerSpan child extr background (nSubject msg) msg)) = trace_of ctx
    \<and> spEnds psp = 1 \<and> (spStatus psp = StatusOk \<longleftrightarrow> err = None)
    \<and> spEnds (Traced_Handle child extr background handler msg) = 1
    \<and> spEnds hsp = 1 \<and> (spStatus hsp = StatusOk \<longleftrightarrow> (\<exists>resp. r = Inr resp \<and> StatusCode resp < 400))
    \<and> (\<exists>sp. gorm_after db (Some (gorm_before dbName operation db)) = Some sp \<and> spEnds sp = 1
         \<and> (spStatus sp = StatusOk \<longleftrightarrow> gError db = None \<or> gError db = Some ErrRecordNotFound))"
proof -
  note p = Traced_Publish_span [OF assms(2)] and h = Client_Do_span [OF assms(3)]
  have "trace_of (fst (StartConsumerSpan child extr background (nSubject msg) msg)) = trace_of ctx"
    using p assms(1) by (simp add: StartConsumerSpan_def ExtractNATSContext_def propagates_def Let_def)
  moreover have "spStatus psp = StatusOk \<longleftrightarrow> err = None" using p by (cases err) auto
  ultimately show ?thesis using p h Traced_Handle_span [of child "extr" background handler msg] gorm_span [of db dbName operation]
    by blast
qed

theorem trace_joined_witness:
  "\<exists>msg psp. Traced_Publish (\<lambda>c n. c) (\<lambda>c. carrier_Set ''traceparent'' c) None (\<lambda>_. None) ''t42'' ''events.order.created'' ''{}'' = (None, msg, psp)
     \<and> fst (StartConsumerSpan (\<lambda>c n. c) (\<lambda>d h. carrier_Get h ''traceparent'') '''' (nSubject msg) msg) = ''t42''
     \<and> spEnds psp = 1"
proof -
  let ?inject = "\<lambda>c. carrier_Set ''traceparent'' c" and ?extr = "\<lambda>d h. carrier_Get h ''traceparent''"
  have l: "propagates (\<lambda>c. c) (\<lambda>c n. c) ?inject ?extr"
    by (simp add: propagates_def carrier_Get_def carrier_Set_def)
  obtain err msg psp where p: "Traced_Publish (\<lambda>c n. c) ?inject None (\<lambda>_. None) ''t42'' ''events.order.created'' ''{}'' = (err, msg, psp)"
    by (metis prod.exhaust)
  obtain r hsp where h: "Client_Do (\<lambda>c n. c) ?inject (\<lambda>_ _. Inl ''down'') ''t42''
      \<lparr>oMethod = ''GET'', oURL = ''/'', oHost = ''h'', oPath = ''/'', oHeader = Map.empty\<rparr> = (r, hsp)" by fastforce
  have "err = None" using p by (auto simp: Traced_Publish_def Let_def)
  moreover have "fst (StartConsumerSpan (\<lambda>c n. c) ?extr '''' (nSubject msg) msg) = ''t42''"
    by (rule conjunct1 [OF trace_joined [OF l p h]])
  moreover have "spEnds psp = 1" by (rule conjunct1 [OF conjunct2 [OF trace_joined [OF l p h]]])
  ultimately show ?thesis using p by blast
qed

text \<open>
  A query longer than a thousand bytes is cut and marked, a shorter one is kept as it is.
\<close>
lemma gorm_after_statement:
  "gorm_after db (Some sp) = Some sp' \<Longrightarrow>
     (''semconv.DBStatement'', AStr (if length (gSQL db) \<le> 1000 then gSQL db else take 1000 (gSQL db) @ ''...'')) \<in> set (spAttrs sp')"
  by (auto simp: gorm_after_def db_outcome_def Let_def span_defs split: option.splits if_splits)

end
