(* ===== verification/DbTracing.thy ===== *)
theory DbTracing
  imports Telemetry "HOL-Library.Sublist"
begin

text \<open>
  The wiring of \<open>telemetry/gorm.go\<close>: which callbacks \<open>RegisterCallbacks\<close> leaves registered, what a
  statement then does to its span, and the helper \<open>TraceDB\<close>. gorm is modelled where the code meets it:
  a handle carries the settings of \<open>Set\<close> and those of \<open>InstanceSet\<close>, which are separate, and a
  statement runs the callbacks registered before its kind, the statement, and those registered after.
\<close>

section \<open>Callbacks\<close>

datatype processor = Create | Query | Update | Delete | Row | Raw

datatype callback = Before processor string | After processor

definition gormSpanKey :: string where
  "gormSpanKey = ''otel:span''"

record gdb =
  stmt :: gorm_statement
  settings :: "string \<rightharpoonup> Span"
  instance_settings :: "string \<rightharpoonup> Span"

definition registrations :: "callback list" where
  "registrations =
    [Before Create ''INSERT'', Before Query ''SELECT'', Before Update ''UPDATE'', Before Delete ''DELETE'',
     Before Row ''ROW'', Before Raw ''RAW'', After Create, After Query, After Update, After Delete, After Row, After Raw]"

fun register_loop :: "(callback \<Rightarrow> string option) \<Rightarrow> callback list \<Rightarrow> callback list \<Rightarrow> string option \<times> callback list" where
  "register_loop register [] cbs = (None, cbs)"
| "register_loop register (cb # rest) cbs =
     (case register cb of
        Some err \<Rightarrow> (Some err, cbs)
      | None \<Rightarrow> register_loop register rest (cbs @ [cb]))"

definition RegisterCallbacks :: "(callback \<Rightarrow> string option) \<Rightarrow> callback list \<Rightarrow> string option \<times> callback list" where
  \<comment> \<open>\<open>register cb\<close> is the error of that call of \<open>Register\<close>; what was registered before an error stays\<close>
  "RegisterCallbacks register cbs = register_loop register registrations cbs"

definition before_callback :: "string \<Rightarrow> string \<Rightarrow> gdb \<Rightarrow> gdb" where
  "before_callback dbName operation db =
     db\<lparr>instance_settings := (instance_settings db)(gormSpanKey \<mapsto> gorm_before dbName operation (stmt db))\<rparr>"

definition after_callback :: "gdb \<Rightarrow> gdb" where
  \<comment> \<open>\<open>InstanceGet\<close>, then the span is ended\<close>
  "after_callback db =
     db\<lparr>instance_settings := (instance_settings db)(gormSpanKey := gorm_after (stmt db) (instance_settings db gormSpanKey))\<rparr>"

fun run_before :: "string \<Rightarrow> processor \<Rightarrow> callback \<Rightarrow> gdb \<Rightarrow> gdb" where
  "run_before dbName p (Before q operation) db = (if p = q then before_callback dbName operation db else db)"
| "run_before dbName p (After q) db = db"

fun run_after :: "processor \<Rightarrow> callback \<Rightarrow> gdb \<Rightarrow> gdb" where
  "run_after p (After q) db = (if p = q then after_callback db else db)"
| "run_after p (Before q operation) db = db"

definition run_statement :: "callback list \<Rightarrow> string \<Rightarrow> processor \<Rightarrow> (gorm_statement \<Rightarrow> gorm_statement) \<Rightarrow> gdb \<Rightarrow> gdb" where
  \<comment> \<open>\<open>sql\<close> is what the database does to the statement: its text, its rows and its error\<close>
  "run_statement cbs dbName p sql db =
     (let db = fold (run_before dbName p) cbs (db\<lparr>instance_settings := Map.empty\<rparr>);
          db = db\<lparr>stmt := sql (stmt db)\<rparr>
      in fold (run_after p) cbs db)"

definition TraceDB :: "string \<Rightarrow> string \<Rightarrow> gdb \<Rightarrow> gdb" where
  "TraceDB operation table db =
     db\<lparr>settings := (settings db)(gormSpanKey \<mapsto>
       StartSpan (''DB '' @ operation @ '' '' @ table) KindClient
         [(''semconv.DBSystemPostgreSQL'', AStr ''''), (''semconv.DBOperation'', AStr operation), (''db.table'', AStr table)])\<rparr>"

fun operation_of :: "processor \<Rightarrow> string" where
  "operation_of Create = ''INSERT''"
| "operation_of Query = ''SELECT''"
| "operation_of Update = ''UPDATE''"
| "operation_of Delete = ''DELETE''"
| "operation_of Row = ''ROW''"
| "operation_of Raw = ''RAW''"

section \<open>Spans of statements\<close>

lemma register_loop_prefix:
  "register_loop register cbs acc = (case find (\<lambda>cb. register cb \<noteq> None) cbs of
     None \<Rightarrow> (None, acc @ cbs)
   | Some cb \<Rightarrow> (register cb, acc @ takeWhile (\<lambda>cb. register cb = None) cbs))"
  by (induction register cbs acc rule: register_loop.induct) (auto split: option.splits)

lemma RegisterCallbacks_registered:
  assumes "RegisterCallbacks register [] = (err, cbs)"
  shows "prefix cbs registrations" and "err = None \<longleftrightarrow> cbs = registrations"
    and "err \<noteq> None \<Longrightarrow> \<exists>cb\<in>set registrations. register cb = err \<and> cb \<notin> set cbs"
proof -
  let ?ok = "takeWhile (\<lambda>cb. register cb = None) registrations"
  show "prefix cbs registrations"
    using assms by (auto simp: RegisterCallbacks_def register_loop_prefix takeWhile_is_prefix split: option.splits)
  show failed: "\<exists>cb\<in>set registrations. register cb = err \<and> cb \<notin> set cbs" if err: "err \<noteq> None"
  proof -
    obtain cb where cb: "find (\<lambda>cb. register cb \<noteq> None) registrations = Some cb" "register cb = err" "cbs = ?ok"
      using assms err by (auto simp: RegisterCallbacks_def register_loop_prefix split: option.splits)
    then have "cb \<in> set registrations" "register cb \<noteq> None" by (auto simp: find_Some_iff)
    moreover have "cb \<notin> set ?ok" using set_takeWhileD [of cb] \<open>register cb \<noteq> None\<close> by metis
    ultimately show ?thesis using cb(2,3) by (intro bexI [of _ cb]) simp_all
  qed
  show "err = None \<longleftrightarrow> cbs = registrations"
  proof
    assume "err = None"
    with assms have "find (\<lambda>cb. register cb \<noteq> None) registrations = None"
      unfolding RegisterCallbacks_def register_loop_prefix by (auto simp: find_Some_iff split: option.splits)
    with assms show "cbs = registrations" by (simp add: RegisterCallbacks_def register_loop_prefix)
  qed (use failed in blast)
qed

definition labelled :: "callback list \<Rightarrow> bool" where
  "labelled cbs \<longleftrightarrow> (\<forall>q l. Before q l \<in> set cbs \<longrightarrow> l = operation_of q)"

lemma run_before_fields [simp]:
  "stmt (run_before n p cb d) = stmt d" "settings (run_before n p cb d) = settings d"
  "stmt (run_after p cb d) = stmt d" "settings (run_after p cb d) = settings d"
  by (cases cb; simp add: before_callback_def after_callback_def)+

lemma fold_fields [simp]:
  "stmt (fold (run_before n p) cbs d) = stmt d" "settings (fold (run_before n p) cbs d) = settings d"
  "stmt (fold (run_after p) cbs d) = stmt d" "settings (fold (run_after p) cbs d) = settings d"
  by (induction cbs arbitrary: d) simp_all

lemma fold_before:
  "labelled cbs \<Longrightarrow> instance_settings (fold (run_before n p) cbs d) gormSpanKey =
     (if Before p (operation_of p) \<in> set cbs then Some (gorm_before n (operation_of p) (stmt d))
      else instance_settings d gormSpanKey)"
proof (induction cbs arbitrary: d)
  case (Cons cb cbs)
  then have "labelled cbs" by (simp add: labelled_def)
  note ih = Cons.IH [OF this]
  show ?case
  proof (cases cb)
    case (Before q l)
    with Cons.prems have "l = operation_of q" by (simp add: labelled_def)
    with Before show ?thesis by (simp add: ih) (simp add: before_callback_def)
  qed (simp add: ih)
qed simp

lemma fold_after_none: "After p \<notin> set cbs \<Longrightarrow> fold (run_after p) cbs d = d"
proof (induction cbs arbitrary: d)
  case (Cons cb cbs)
  then show ?case by (cases cb) auto
qed simp

lemma fold_after_once:
  assumes "distinct cbs" and "After p \<in> set cbs"
  shows "fold (run_after p) cbs d = after_callback d"
proof -
  obtain xs ys where "cbs = xs @ After p # ys" "After p \<notin> set xs" using split_list_first [OF assms(2)] by blast
  then show ?thesis using assms(1) by (simp add: fold_after_none)
qed

lemma prefix_registrations:
  assumes "prefix cbs registrations"
  shows "labelled cbs" and "distinct cbs"
proof -
  have "labelled registrations" "distinct registrations" by (auto simp: labelled_def registrations_def)
  moreover have "set cbs \<subseteq> set registrations" by (rule set_mono_prefix [OF assms])
  ultimately show "labelled cbs" "distinct cbs"
    using assms unfolding labelled_def prefix_def by (blast, metis distinct_append)
qed

lemma statement_span:
  assumes "prefix cbs registrations"
  shows "instance_settings (run_statement cbs n p sql db) gormSpanKey =
    (if Before p (operation_of p) \<notin> set cbs then None
     else if After p \<in> set cbs then gorm_after (sql (stmt db)) (Some (gorm_before n (operation_of p) (stmt db)))
     else Some (gorm_before n (operation_of p) (stmt db)))"
proof -
  note l = prefix_registrations [OF assms]
  show ?thesis
    by (cases "After p \<in> set cbs")
      (simp_all add: run_statement_def Let_def fold_before [OF l(1)] fold_after_once [OF l(2)] fold_after_none
        after_callback_def gorm_after_def)
qed

lemma span_names:
  "spName (db_outcome e sp) = spName sp" "spName (SetAttributes as sp) = spName sp" "spName (EndSpan sp) = spName sp"
  by (auto simp: db_outcome_def span_defs split: option.splits)

lemma gorm_after_span:
  "\<exists>y. gorm_after d (Some x) = Some y \<and> spEnds y = spEnds x + 1 \<and> spName y = spName x
     \<and> (spStatus y = StatusOk \<longleftrightarrow> gError d \<in> {None, Some ErrRecordNotFound})"
  by (simp add: gorm_after_def Let_def span_fields span_names)

text \<open>
  C35. Statements and their spans: after a registration without error every statement, of whatever
  kind, opens exactly one span under the name of its operation and ends it exactly once, with status
  ok unless the statement failed with something else than record not found. A registration that
  stops at an error keeps what it registered: a kind whose before callback is in place without its
  after callback opens spans that are never ended. And the span \<open>TraceDB\<close> opens is never ended by the
  callbacks, because they look for it among the settings of the instance.
\<close>
theorem gorm_spans:
  assumes "RegisterCallbacks register [] = (err, cbs)"
  shows "(case instance_settings (run_statement cbs dbName p sql db) gormSpanKey of
            None \<Rightarrow> err \<noteq> None \<and> Before p (operation_of p) \<notin> set cbs
          | Some sp \<Rightarrow>
              Before p (operation_of p) \<in> set cbs \<and> spEnds sp = (if After p \<in> set cbs then 1 else 0)
              \<and> HasPrefix (spName sp) (''GORM '' @ operation_of p)
              \<and> (err = None \<longrightarrow> spEnds sp = 1
                   \<and> (spStatus sp = StatusOk \<longleftrightarrow> gError (sql (stmt db)) \<in> {None, Some ErrRecordNotFound})))
       \<and> (err \<noteq> None \<longrightarrow> (\<exists>cb\<in>set registrations. register cb = err \<and> cb \<notin> set cbs))
       \<and> (\<exists>sp. settings (run_statement cbs dbName p sql (TraceDB operation table db)) gormSpanKey = Some sp \<and> spEnds sp = 0)"
proof -
  note r = RegisterCallbacks_registered [OF assms]
  have all: "Before p (operation_of p) \<in> set registrations" "After p \<in> set registrations"
    by (cases p; simp add: registrations_def)+
  have partial: "err \<noteq> None" if "Before p (operation_of p) \<notin> set cbs \<or> After p \<notin> set cbs"
    using that all r(2) by metis
  define started where "started = gorm_before dbName (operation_of p) (stmt db)"
  have s: "spEnds started = 0" "HasPrefix (spName started) (''GORM '' @ operation_of p)"
    by (simp_all add: started_def gorm_before_def Let_def StartSpan_def HasPrefix_def)
  obtain ended where e: "gorm_after (sql (stmt db)) (Some started) = Some ended" "spEnds ended = spEnds started + 1"
    "spStatus ended = StatusOk \<longleftrightarrow> gError (sql (stmt db)) \<in> {None, Some ErrRecordNotFound}" "spName ended = spName started"
    using gorm_after_span [of "sql (stmt db)" started] by blast
  have "spEnds (StartSpan nm k as) = 0" for nm k as by (simp add: StartSpan_def)
  then have "\<exists>sp. settings (run_statement cbs dbName p sql (TraceDB operation table db)) gormSpanKey = Some sp \<and> spEnds sp = 0"
    by (simp add: TraceDB_def run_statement_def Let_def)
  moreover have "case instance_settings (run_statement cbs dbName p sql db) gormSpanKey of
      None \<Rightarrow> err \<noteq> None \<and> Before p (operation_of p) \<notin> set cbs
    | Some sp \<Rightarrow>
        Before p (operation_of p) \<in> set cbs \<and> spEnds sp = (if After p \<in> set cbs then 1 else 0)
        \<and> HasPrefix (spName sp) (''GORM '' @ operation_of p)
        \<and> (err = None \<longrightarrow> spEnds sp = 1
             \<and> (spStatus sp = StatusOk \<longleftrightarrow> gError (sql (stmt db)) \<in> {None, Some ErrRecordNotFound}))"
    unfolding statement_span [OF r(1)] started_def [symmetric] e(1) using partial s e(2-4)
    by (cases "Before p (operation_of p) \<in> set cbs"; cases "After p \<in> set cbs") simp_all
  ultimately show ?thesis using r(3) by blast
qed

definition after_query_refused :: "callback \<Rightarrow> string option" where
  "after_query_refused cb = (if cb = After Query then Some ''duplicated callback'' else None)"

definition sample_gdb :: gdb where
  "sample_gdb =
     \<lparr>stmt = \<lparr>gTable = ''orders'', gSchemaTable = None, gSQL = '''', gRowsAffected = 0, gError = None\<rparr>,
      settings = Map.empty, instance_settings = Map.empty\<rparr>"

theorem gorm_spans_witness:
  "\<exists>cbs sp. RegisterCallbacks after_query_refused [] = (Some ''duplicated callback'', cbs)
     \<and> instance_settings (run_statement cbs ''shop'' Query (\<lambda>s. s) sample_gdb) gormSpanKey = Some sp \<and> spEnds sp = 0"
proof -
  let ?cbs = "take 7 registrations"
  have r: "RegisterCallbacks after_query_refused [] = (Some ''duplicated callback'', ?cbs)"
    by (simp add: RegisterCallbacks_def registrations_def after_query_refused_def)
  have "Before Query (operation_of Query) \<in> set ?cbs" "After Query \<notin> set ?cbs" by (simp_all add: registrations_def)
  then show ?thesis
    using conjunct1 [OF gorm_spans [OF r, where dbName = "''shop''" and p = Query and sql = "\<lambda>s. s" and db = sample_gdb]] r
    by (auto split: option.splits)
qed

end
