(* ===== verification/Platform.thy ===== *)
theory Platform
  imports HttpContext
begin

text \<open>
  The packages that connect a service to its platform: \<open>monitoring/sentry.go\<close>, \<open>logger/logger.go\<close>,
  \<open>database/postgres.go\<close>, \<open>database/redis.go\<close> and \<open>config/config.go\<close>. Sentry, zap, gorm, the Redis client
  and viper are arguments: functions to what their calls return. What the code makes them do is a
  list of effects.
\<close>

section \<open>Sentry\<close>

record SentryConfig =
  DSN :: string
  sEnvironment :: string
  sRelease :: string
  sServiceName :: string
  sTracesSampleRate :: rat

record SentryMonitor =
  mLogger :: bool
    \<comment> \<open>whether the logger is not nil\<close>
  mConfig :: "SentryConfig option"

datatype effect =
    SentryRecover string
  | SentryFlush Duration
  | SentryException string
  | SentryMessage string
  | LogError string string
  | LogInfo string string

definition zeroSentryConfig :: SentryConfig where
  "zeroSentryConfig = \<lparr>DSN = '''', sEnvironment = '''', sRelease = '''', sServiceName = '''', sTracesSampleRate = 0\<rparr>"

definition NewSentryMonitor ::
  "(SentryConfig \<Rightarrow> string option) \<Rightarrow> SentryConfig option \<Rightarrow> bool \<Rightarrow> SentryMonitor option \<times> string option" where
  \<comment> \<open>\<open>Init\<close> is the error of \<open>sentry.Init\<close> for the options made from the configuration\<close>
  "NewSentryMonitor Init config logger =
     (let config = (case config of None \<Rightarrow> zeroSentryConfig | Some c \<Rightarrow> c)
      in if DSN config = '''' then (Some \<lparr>mLogger = logger, mConfig = Some config\<rparr>, None)
         else case Init config of
                Some err \<Rightarrow> (Some \<lparr>mLogger = logger, mConfig = Some (config\<lparr>DSN := ''''\<rparr>)\<rparr>, Some err)
              | None \<Rightarrow> (Some \<lparr>mLogger = logger, mConfig = Some config\<rparr>, None))"

definition enabled :: "SentryMonitor option \<Rightarrow> bool" where
  "enabled m =
     (case m of None \<Rightarrow> False
      | Some mon \<Rightarrow> (case mConfig mon of None \<Rightarrow> False | Some c \<Rightarrow> DSN c \<noteq> ''''))"

definition mon_log :: "SentryMonitor option \<Rightarrow> bool" where
  \<comment> \<open>whether \<open>log()\<close> is not nil\<close>
  "mon_log m = (case m of None \<Rightarrow> False | Some mon \<Rightarrow> mLogger mon)"

definition Sentry_GinMiddleware :: "handler \<Rightarrow> SentryMonitor option \<Rightarrow> handler" where
  \<comment> \<open>the argument is the handler that \<open>sentrygin.New\<close> makes\<close>
  "Sentry_GinMiddleware sentrygin m c = (if \<not> enabled m then Continue c else sentrygin c)"

definition Sentry_RecoveryMiddleware ::
  "SentryMonitor option \<Rightarrow> (http_context \<Rightarrow> verdict go) \<Rightarrow> http_context \<Rightarrow> verdict \<times> effect list" where
  "Sentry_RecoveryMiddleware m next c =
     (case next c of
        Ret v \<Rightarrow> (v, [])
      | Panic err \<Rightarrow>
          (Stop (StatusOnly 500) c,
           (if enabled m then [SentryRecover err] else []) @ (if mon_log m then [LogError ''Panic recovered'' err] else [])))"

definition Sentry_Flush :: "SentryMonitor option \<Rightarrow> Duration \<Rightarrow> effect list" where
  "Sentry_Flush m timeout = (if enabled m then [SentryFlush timeout] else [])"

definition CaptureError :: "SentryMonitor option \<Rightarrow> string \<Rightarrow> effect list" where
  "CaptureError m err =
     (if enabled m then [SentryException err] else []) @ (if mon_log m then [LogError ''Error captured'' err] else [])"

definition CaptureMessage :: "SentryMonitor option \<Rightarrow> string \<Rightarrow> effect list" where
  "CaptureMessage m msg =
     (if enabled m then [SentryMessage msg] else []) @ (if mon_log m then [LogInfo ''Message captured'' msg] else [])"

fun is_sentry :: "effect \<Rightarrow> bool" where
  "is_sentry (LogError _ _) = False"
| "is_sentry (LogInfo _ _) = False"
| "is_sentry _ = True"

text \<open>
  Sentry is optional: a monitor is never nil, and Sentry is on exactly when a data source name was
  given and \<open>sentry.Init\<close> accepted it. On a nil monitor, one without a name and one with a rejected
  name, no call reaches Sentry and requests pass untouched; a panic is answered with status 500 in
  every case, never passed on.
\<close>
theorem sentry_optional:
  "(\<exists>mon err. NewSentryMonitor Init config logger = (Some mon, err)
      \<and> (enabled (Some mon) \<longleftrightarrow> (\<exists>cfg. config = Some cfg \<and> DSN cfg \<noteq> '''' \<and> Init cfg = None))
      \<and> (err \<noteq> None \<longleftrightarrow> (\<exists>cfg. config = Some cfg \<and> DSN cfg \<noteq> '''' \<and> Init cfg \<noteq> None)))
   \<and> (enabled m
      \<or> filter is_sentry (Sentry_Flush m t @ CaptureError m e @ CaptureMessage m s @ snd (Sentry_RecoveryMiddleware m next c)) = []
        \<and> Sentry_GinMiddleware gin m c = Continue c)
   \<and> \<not> enabled None
   \<and> fst (Sentry_RecoveryMiddleware m next c) = (case next c of Ret v \<Rightarrow> v | Panic p \<Rightarrow> Stop (StatusOnly 500) c)"
proof (intro conjI)
  show "\<exists>mon err. NewSentryMonitor Init config logger = (Some mon, err)
      \<and> (enabled (Some mon) \<longleftrightarrow> (\<exists>cfg. config = Some cfg \<and> DSN cfg \<noteq> '''' \<and> Init cfg = None))
      \<and> (err \<noteq> None \<longleftrightarrow> (\<exists>cfg. config = Some cfg \<and> DSN cfg \<noteq> '''' \<and> Init cfg \<noteq> None))"
    by (cases config) (auto simp: NewSentryMonitor_def enabled_def zeroSentryConfig_def Let_def split: option.splits)
  show "enabled m
      \<or> filter is_sentry (Sentry_Flush m t @ CaptureError m e @ CaptureMessage m s @ snd (Sentry_RecoveryMiddleware m next c)) = []
        \<and> Sentry_GinMiddleware gin m c = Continue c"
    by (auto simp: Sentry_Flush_def CaptureError_def CaptureMessage_def Sentry_RecoveryMiddleware_def
        Sentry_GinMiddleware_def split: go.splits)
  show "\<not> enabled None" by (simp add: enabled_def)
  show "fst (Sentry_RecoveryMiddleware m next c) = (case next c of Ret v \<Rightarrow> v | Panic p \<Rightarrow> Stop (StatusOnly 500) c)"
    by (simp add: Sentry_RecoveryMiddleware_def split: go.splits)
qed

section \<open>Logger\<close>

record zap_config =
  zBase :: string
  zTimeKey :: "string option"
  zEncodeTime :: "string option"
  zEncodeLevel :: "string option"

definition NewLogger :: "(zap_config \<Rightarrow> string + 'l) \<Rightarrow> string \<Rightarrow> string + 'l" where
  \<comment> \<open>\<open>None\<close> leaves the encoder setting of the base configuration as it is\<close>
  "NewLogger Build env =
     (let config = (if env = ''production''
            then \<lparr>zBase = ''zap.NewProductionConfig'', zTimeKey = Some ''timestamp'',
                  zEncodeTime = Some ''zapcore.ISO8601TimeEncoder'', zEncodeLevel = None\<rparr>
            else \<lparr>zBase = ''zap.NewDevelopmentConfig'', zTimeKey = None, zEncodeTime = None,
                  zEncodeLevel = Some ''zapcore.CapitalColorLevelEncoder''\<rparr>)
      in case Build config of Inl err \<Rightarrow> Inl err | Inr logger \<Rightarrow> Inr logger)"

definition NewSugaredLogger :: "(zap_config \<Rightarrow> string + 'l) \<Rightarrow> ('l \<Rightarrow> 's) \<Rightarrow> string \<Rightarrow> string + 's" where
  "NewSugaredLogger Build Sugar env =
     (case NewLogger Build env of Inl err \<Rightarrow> Inl err | Inr logger \<Rightarrow> Inr (Sugar logger))"

section \<open>Postgres\<close>

record PostgresConfig =
  pHost :: string
  pPort :: string
  pUser :: string
  pPassword :: string
  pDatabase :: string
  pSSLMode :: string

definition postgres_dsn :: "PostgresConfig \<Rightarrow> string" where
  "postgres_dsn config =
     ''host='' @ pHost config @ '' port='' @ pPort config @ '' user='' @ pUser config
     @ '' password='' @ pPassword config @ '' dbname='' @ pDatabase config @ '' sslmode='' @ pSSLMode config"

record pool =
  MaxIdleConns :: nat
  MaxOpenConns :: nat
  ConnMaxLifetime :: Duration

datatype gorm_logger = GormDefault | GormZap

definition Connect ::
  "(string \<Rightarrow> gorm_logger \<Rightarrow> string + 'd) \<Rightarrow> ('d \<Rightarrow> string option) \<Rightarrow> ('d \<Rightarrow> string option) \<Rightarrow> PostgresConfig \<Rightarrow> bool
     \<Rightarrow> (string + 'd \<times> pool) go" where
  \<comment> \<open>\<open>Open\<close> is \<open>gorm.Open\<close>, \<open>DB\<close> the error of \<open>db.DB()\<close>, \<open>Ping\<close> that of the ping; the flag says whether
     \<open>zapLogger\<close> is not nil. The last log call dereferences it.\<close>
  "Connect Open DB Ping config logger =
     (let dsn = postgres_dsn config; gormLogger = (if logger then GormZap else GormDefault)
      in case Open dsn gormLogger of
           Inl err \<Rightarrow> Ret (Inl (''failed to connect to database: '' @ err))
         | Inr db \<Rightarrow>
             (case DB db of
                Some err \<Rightarrow> Ret (Inl (''failed to get underlying database: '' @ err))
              | None \<Rightarrow>
                  (let p = \<lparr>MaxIdleConns = 10, MaxOpenConns = 100, ConnMaxLifetime = Hour\<rparr>
                   in case Ping db of
                        Some err \<Rightarrow> Ret (Inl (''failed to ping database: '' @ err))
                      | None \<Rightarrow>
                          if logger then Ret (Inr (db, p))
                          else Panic ''invalid memory address or nil pointer dereference'')))"

definition HealthCheck :: "('d \<Rightarrow> string option) \<Rightarrow> ('d \<Rightarrow> string option) \<Rightarrow> 'd \<Rightarrow> string option" where
  "HealthCheck DB Ping db = (case DB db of Some err \<Rightarrow> Some err | None \<Rightarrow> Ping db)"

record gormLogger =
  SlowThreshold :: Duration
  IgnoreRecordNotFoundError :: bool

definition NewGormLogger :: gormLogger where
  "NewGormLogger = \<lparr>SlowThreshold = 200 * Millisecond, IgnoreRecordNotFoundError = True\<rparr>"

datatype db_log = QueryError string Duration string int | SlowQuery Duration string int | QueryDebug Duration string int

definition gormLogger_Trace :: "gormLogger \<Rightarrow> Time \<Rightarrow> Time \<Rightarrow> string \<times> int \<Rightarrow> string option \<Rightarrow> db_log" where
  "gormLogger_Trace l begin now fc err =
     (let elapsed = SubT now begin; (sql, rows) = fc
      in case err of
           Some e \<Rightarrow> QueryError e elapsed sql rows
         | None \<Rightarrow> if elapsed > SlowThreshold l then SlowQuery elapsed sql rows else QueryDebug elapsed sql rows)"

text \<open>
  What the connection code gets wrong: a nil logger, for which it chooses another gorm logger,
  makes a successful connection panic; two configurations that differ in user and password can give
  the same connection string, because nothing is quoted; and a query that finds no record is logged
  as an error although the logger is built to ignore it.
\<close>
theorem connection_flaws:
  "Connect (\<lambda>_ _. Inr ()) (\<lambda>_. None) (\<lambda>_. None) config False = Panic ''invalid memory address or nil pointer dereference''
   \<and> postgres_dsn (config\<lparr>pUser := ''shop'', pPassword := ''x password=y''\<rparr>)
     = postgres_dsn (config\<lparr>pUser := ''shop password=x'', pPassword := ''y''\<rparr>)
   \<and> IgnoreRecordNotFoundError NewGormLogger
   \<and> gormLogger_Trace NewGormLogger t t ('''', 0) (Some ''record not found'') = QueryError ''record not found'' 0 '''' 0"
  by (simp add: Connect_def Let_def postgres_dsn_def NewGormLogger_def gormLogger_Trace_def SubT_def i64_limits)

section \<open>Redis\<close>

record RedisConfig =
  rHost :: string
  rPort :: string
  rPassword :: string
  rDB :: i64

record RedisOptions =
  roAddr :: string
  roPassword :: string
  roDB :: i64
  roMaxRetries :: nat
  roDialTimeout :: Duration
  roReadTimeout :: Duration
  roWriteTimeout :: Duration
  roPoolSize :: nat

definition redis_options :: "RedisConfig \<Rightarrow> RedisOptions" where
  "redis_options config =
     \<lparr>roAddr = rHost config @ '':'' @ rPort config, roPassword = rPassword config, roDB = rDB config,
      roMaxRetries = 3, roDialTimeout = 5 * Second, roReadTimeout = 3 * Second, roWriteTimeout = 3 * Second,
      roPoolSize = 10\<rparr>"

definition ConnectRedis :: "(RedisOptions \<Rightarrow> 'c) \<Rightarrow> (Duration \<Rightarrow> 'c \<Rightarrow> string option) \<Rightarrow> RedisConfig \<Rightarrow> string + 'c" where
  \<comment> \<open>\<open>Ping timeout client\<close> is the error of a ping under that timeout\<close>
  "ConnectRedis NewClient Ping config =
     (let client = NewClient (redis_options config)
      in case Ping (5 * Second) client of
           Some err \<Rightarrow> Inl (''failed to ping Redis: '' @ err)
         | None \<Rightarrow> Inr client)"

definition HealthCheckRedis :: "(Duration \<Rightarrow> 'c \<Rightarrow> string option) \<Rightarrow> 'c \<Rightarrow> string option" where
  "HealthCheckRedis Ping client = Ping (3 * Second) client"

section \<open>Configuration\<close>

record viper =
  vFile :: "string option"
    \<comment> \<open>an explicit file; otherwise config.yaml in the current directory or ./config\<close>
  vAutomaticEnv :: bool
  vDefaults :: "(string \<times> string) list"

definition setDefaults :: "viper \<Rightarrow> viper" where
  "setDefaults v = v\<lparr>vDefaults := vDefaults v @
     [(''app.env'', ''development''), (''app.port'', ''8080''),
      (''database.host'', ''localhost''), (''database.port'', ''5432''), (''database.ssl_mode'', ''disable''),
      (''redis.host'', ''localhost''), (''redis.port'', ''6379''), (''redis.db'', ''0''),
      (''jwt.access_token_expiry'', ''15m''), (''jwt.refresh_token_expiry'', ''168h'')]\<rparr>"

datatype read_result = ConfigRead | ConfigFileNotFound | ReadFailed string

definition LoadConfig ::
  "(viper \<Rightarrow> read_result) \<Rightarrow> (viper \<Rightarrow> string + 'config) \<Rightarrow> string \<Rightarrow> string + 'config" where
  "LoadConfig ReadInConfig Unmarshal configPath =
     (let v = \<lparr>vFile = (if configPath \<noteq> '''' then Some configPath else None), vAutomaticEnv = True, vDefaults = []\<rparr>;
          v = setDefaults v
      in case ReadInConfig v of
           ReadFailed err \<Rightarrow> Inl (''failed to read config file: '' @ err)
         | _ \<Rightarrow>
             (case Unmarshal v of
                Inl err \<Rightarrow> Inl (''failed to unmarshal config: '' @ err)
              | Inr config \<Rightarrow> Inr config))"

end
