(* ===== verification/ConfigLoad.thy ===== *)
theory ConfigLoad
  imports Platform
begin

text \<open>
  \<open>config/config.go\<close>: the configuration record, the keys its \<open>mapstructure\<close> tags name, and where
  \<open>LoadConfig\<close> takes their values from. viper is an argument; what is used of it is that \<open>Unmarshal\<close>
  fills the record from the keys it knows, those with a default and those of the file, and that the
  environment overrides the value of a known key (\<open>viper_ok\<close>).
\<close>

section \<open>The record\<close>

record AppConfig =
  acName :: string
  acEnv :: string
  acPort :: string

record DatabaseConfig =
  dcHost :: string
  dcPort :: string
  dcUser :: string
  dcPassword :: string
  dcName :: string
  dcSSLMode :: string

record cfgRedisConfig =
  rcHost :: string
  rcPort :: string
  rcPassword :: string
  rcDB :: int

record JWTConfig =
  jcSecret :: string
  jcAccessTokenExpiry :: string
  jcRefreshTokenExpiry :: string

record Config =
  App :: AppConfig
  Database :: DatabaseConfig
  Redis :: cfgRedisConfig
  JWT :: JWTConfig

definition decode_config :: "(string \<Rightarrow> int option) \<Rightarrow> (string \<Rightarrow> string) \<Rightarrow> string + Config" where
  \<comment> \<open>the tags of the record: each field from its key; \<open>redis.db\<close> has to be a number\<close>
  "decode_config Atoi val =
     (case Atoi (val ''redis.db'') of
        None \<Rightarrow> Inl ''cannot parse redis.db as int''
      | Some db \<Rightarrow>
          Inr \<lparr>App = \<lparr>acName = val ''app.name'', acEnv = val ''app.env'', acPort = val ''app.port''\<rparr>,
               Database = \<lparr>dcHost = val ''database.host'', dcPort = val ''database.port'', dcUser = val ''database.user'',
                 dcPassword = val ''database.password'', dcName = val ''database.name'', dcSSLMode = val ''database.ssl_mode''\<rparr>,
               Redis = \<lparr>rcHost = val ''redis.host'', rcPort = val ''redis.port'', rcPassword = val ''redis.password'', rcDB = db\<rparr>,
               JWT = \<lparr>jcSecret = val ''jwt.secret'', jcAccessTokenExpiry = val ''jwt.access_token_expiry'',
                 jcRefreshTokenExpiry = val ''jwt.refresh_token_expiry''\<rparr>\<rparr>)"

section \<open>Where a value comes from\<close>

definition env_name :: "string \<Rightarrow> string" where
  \<comment> \<open>\<open>SetEnvKeyReplacer(".", "_")\<close> and viper's upper case\<close>
  "env_name k = ToUpper (map (\<lambda>c. if c = CHR ''.'' then CHR ''_'' else c) k)"

definition viper_value :: "(string \<Rightarrow> string) \<Rightarrow> (string \<rightharpoonup> string) \<Rightarrow> viper \<Rightarrow> string \<Rightarrow> string" where
  \<comment> \<open>the value of a key among all settings; an empty environment variable counts as unset\<close>
  "viper_value env file v k =
     (if map_of (vDefaults v) k = None \<and> file k = None then ''''
      else if vAutomaticEnv v \<and> env (env_name k) \<noteq> '''' then env (env_name k)
      else case file k of Some x \<Rightarrow> x | None \<Rightarrow> the (map_of (vDefaults v) k))"

definition viper_ok ::
  "(string \<Rightarrow> int option) \<Rightarrow> (string \<Rightarrow> string) \<Rightarrow> (string \<rightharpoonup> string) \<Rightarrow> (viper \<Rightarrow> string + Config) \<Rightarrow> bool" where
  \<comment> \<open>viper 1.19: \<open>Unmarshal\<close> decodes all settings, and these are the keys with a default or in the file\<close>
  "viper_ok Atoi env file Unmarshal \<longleftrightarrow> (\<forall>v. Unmarshal v = decode_config Atoi (viper_value env file v))"

definition loaded :: "string \<Rightarrow> viper" where
  \<comment> \<open>the instance that \<open>LoadConfig\<close> hands to \<open>ReadInConfig\<close> and \<open>Unmarshal\<close>\<close>
  "loaded configPath =
     setDefaults \<lparr>vFile = (if configPath \<noteq> '''' then Some configPath else None), vAutomaticEnv = True, vDefaults = []\<rparr>"

lemma LoadConfig_loaded:
  "LoadConfig ReadInConfig Unmarshal configPath =
     (case ReadInConfig (loaded configPath) of
        ReadFailed err \<Rightarrow> Inl (''failed to read config file: '' @ err)
      | _ \<Rightarrow> (case Unmarshal (loaded configPath) of
                Inl err \<Rightarrow> Inl (''failed to unmarshal config: '' @ err) | Inr c \<Rightarrow> Inr c))"
  by (simp only: LoadConfig_def loaded_def Let_def)

lemma loaded_value:
  "viper_value env file (loaded configPath) k =
     (case map_of (vDefaults (loaded '''')) k of
        None \<Rightarrow> (case file k of None \<Rightarrow> '''' | Some x \<Rightarrow> if env (env_name k) \<noteq> '''' then env (env_name k) else x)
      | Some d \<Rightarrow> if env (env_name k) \<noteq> '''' then env (env_name k) else (case file k of Some x \<Rightarrow> x | None \<Rightarrow> d))"
proof -
  have "vDefaults (loaded configPath) = vDefaults (loaded '''')" "vAutomaticEnv (loaded configPath)"
    by (simp_all add: loaded_def setDefaults_def)
  then show ?thesis
    unfolding viper_value_def by (cases "map_of (vDefaults (loaded '''')) k"; cases "file k") simp_all
qed

text \<open>
  Where the values come from: a key with a default takes the environment before the file before
  the default. A key without one, the application's name, the database user, password and name, the
  Redis password and the JWT secret, is empty unless the file has it: without a file, setting it in
  the environment has no effect, although the loader is meant to fall back on the environment then.
\<close>
theorem LoadConfig_sources:
  assumes "viper_ok Atoi env file Unmarshal" and "LoadConfig ReadInConfig Unmarshal configPath = Inr c"
  shows "dcHost (Database c) = (if env ''DATABASE_HOST'' \<noteq> '''' then env ''DATABASE_HOST''
             else case file ''database.host'' of Some h \<Rightarrow> h | None \<Rightarrow> ''localhost'')
    \<and> acEnv (App c) = (if env ''APP_ENV'' \<noteq> '''' then env ''APP_ENV''
             else case file ''app.env'' of Some e \<Rightarrow> e | None \<Rightarrow> ''development'')
    \<and> jcSecret (JWT c) = (case file ''jwt.secret'' of None \<Rightarrow> ''''
             | Some s \<Rightarrow> if env ''JWT_SECRET'' \<noteq> '''' then env ''JWT_SECRET'' else s)
    \<and> dcPassword (Database c) = (case file ''database.password'' of None \<Rightarrow> ''''
             | Some s \<Rightarrow> if env ''DATABASE_PASSWORD'' \<noteq> '''' then env ''DATABASE_PASSWORD'' else s)
    \<and> (file = Map.empty \<longrightarrow> acName (App c) = '''' \<and> dcUser (Database c) = '''' \<and> dcName (Database c) = '''' \<and> rcPassword (Redis c) = '''')"
proof -
  let ?val = "viper_value env file (loaded configPath)"
  have d: "decode_config Atoi ?val = Inr c"
    using assms by (auto simp: LoadConfig_loaded viper_ok_def split: read_result.splits sum.splits)
  have names: "env_name ''database.host'' = ''DATABASE_HOST''" "env_name ''app.env'' = ''APP_ENV''"
    "env_name ''jwt.secret'' = ''JWT_SECRET''" "env_name ''database.password'' = ''DATABASE_PASSWORD''" by code_simp+
  have defaults: "map_of (vDefaults (loaded '''')) ''database.host'' = Some ''localhost''"
    "map_of (vDefaults (loaded '''')) ''app.env'' = Some ''development''"
    "map_of (vDefaults (loaded '''')) ''jwt.secret'' = None" "map_of (vDefaults (loaded '''')) ''database.password'' = None"
    "map_of (vDefaults (loaded '''')) ''app.name'' = None" "map_of (vDefaults (loaded '''')) ''database.user'' = None"
    "map_of (vDefaults (loaded '''')) ''database.name'' = None" "map_of (vDefaults (loaded '''')) ''redis.password'' = None"
    by (simp_all add: loaded_def setDefaults_def)
  have c: "dcHost (Database c) = ?val ''database.host''" "acEnv (App c) = ?val ''app.env''" "jcSecret (JWT c) = ?val ''jwt.secret''"
    "dcPassword (Database c) = ?val ''database.password''" "acName (App c) = ?val ''app.name''"
    "dcUser (Database c) = ?val ''database.user''" "dcName (Database c) = ?val ''database.name''"
    "rcPassword (Redis c) = ?val ''redis.password''"
    using d by (auto simp: decode_config_def split: option.splits)
  show ?thesis unfolding c loaded_value names defaults by simp
qed

definition sample_unmarshal :: "(string \<Rightarrow> string) \<Rightarrow> viper \<Rightarrow> string + Config" where
  \<comment> \<open>a viper without a file, in a given environment\<close>
  "sample_unmarshal env v = decode_config (\<lambda>s. if s = ''0'' then Some 0 else None) (viper_value env Map.empty v)"

theorem LoadConfig_sources_witness:
  "\<exists>c. LoadConfig (\<lambda>_. ConfigFileNotFound) (sample_unmarshal (\<lambda>n. if n = ''JWT_SECRET'' then ''s3cret'' else '''')) '''' = Inr c
     \<and> jcSecret (JWT c) = '''' \<and> dcHost (Database c) = ''localhost''"
proof -
  let ?env = "\<lambda>n. if n = ''JWT_SECRET'' then ''s3cret'' else ''''"
  have v: "viper_ok (\<lambda>s. if s = ''0'' then Some 0 else None) ?env Map.empty (sample_unmarshal ?env)"
    by (simp add: viper_ok_def sample_unmarshal_def)
  have "env_name ''redis.db'' = ''REDIS_DB''" by code_simp
  then have "viper_value ?env Map.empty (loaded '''') ''redis.db'' = ''0''"
    unfolding loaded_value by (simp add: loaded_def setDefaults_def)
  then obtain c where c: "LoadConfig (\<lambda>_. ConfigFileNotFound) (sample_unmarshal ?env) '''' = Inr c"
    by (auto simp: LoadConfig_loaded sample_unmarshal_def decode_config_def)
  from LoadConfig_sources [OF v c] c show ?thesis by (intro exI [of _ c]) simp
qed

end
