(* ===== verification/Spec2Isabelle.thy ===== *)
theory Spec2Isabelle
  imports DomainJson DomainErrors Executor RedisLock Delivery EventIds EventLog Schema
    ServiceClient KeyHash RateLimitLife Upload Validation BizDay TrustedProxies Health DbTracing ConfigLoad
begin

text \<open>
  \<^bold>\<open>A verification library for the common library of the shop services.\<close>

  The repository is a Go library that every service of the shop links. Its parts are domain values
  (\<open>domain/\<close>), fault tolerance (\<open>resilience/\<close>), coordination through shared stores (\<open>lock/\<close>, \<open>outbox/\<close>,
  \<open>eventsourcing/\<close>, \<open>nats/\<close>), authentication (\<open>auth/\<close>), the gin middleware (\<open>middleware/\<close>), answers and
  uploads (\<open>response/\<close>, \<open>storage/\<close>, \<open>validator/\<close>), the business calendar (\<open>bizday/\<close>), and the connection
  of a service to its platform (\<open>telemetry/\<close>, \<open>monitoring/\<close>, \<open>logger/\<close>, \<open>database/\<close>, \<open>config/\<close>).

  How the parts interact. A service writes an event into the outbox table in its own transaction;
  the processor publishes it through the JetStream client into the stream of its domain; consumers
  decode the payload, claim the event with the idempotency checker and route what they cannot handle
  to the dead letter queue. Requests pass the common middleware chain, then a guard (JWT, API key,
  internal token, CSRF), then the handler, which answers through \<open>response/\<close>. Calls to other services
  run under an executor: bulkhead, circuit breaker, retry.

  \<^bold>\<open>Conventions of the model.\<close>

  \<^item> Go's \<open>int\<close> and \<open>int64\<close> are \<open>64 word\<close> read by \<open>sint\<close>, so arithmetic wraps; durations, instants and
  counters that the code only compares or adds far from the limits are \<open>int\<close> or \<open>nat\<close>. A
  \<open>float64\<close> is a rational rounded to nearest even after every operation (\<open>GoFloat\<close>).
  \<^item> A struct is a record with the field names of the source, a string is a list of bytes, an error
  is a value of a sum or an option, and a panic is a value too. Where the code reads the clock, random
  bytes, the environment or the order of a map, the model takes them as an argument.
  \<^item> A database table is a list of rows. Every statement takes a fault argument that says whether
  the database fails there, so each error return of the code is a branch of the model. Code that runs
  in several goroutines or processes is an \<open>inductive\<close> step relation whose steps are the atomic
  sections of the code (a mutex section, a transaction, a Redis command), and the safety theorems are
  invariants by rule induction over its reachable states.

  \<^bold>\<open>Theories, sources and results.\<close>

  Foundations: \<open>Prelude\<close> (words, option and list lemmas, the collections, the locales \<open>checked_sum\<close>
  and \<open>registry\<close>), \<open>GoStrings\<close> (\<open>strings\<close>, \<open>strconv\<close>), \<open>GoFloat\<close> (binary64), \<open>GoJson\<close> (struct tags of
  \<open>encoding/json\<close>: a struct whose tags are distinct round-trips), \<open>GoRegexp\<close> (derivatives, proved equal
  to the language of the pattern), \<open>GoCrypto\<close> (SHA-256, hexadecimal digits, comparison in constant time),
  \<open>HttpContext\<close> (requests, the gin context, handler chains, the locale
  \<open>guard\<close>).

  \<^item> \<open>Money\<close>, \<open>Quantity\<close>, \<open>DomainJson\<close>, \<open>DomainErrors\<close> model \<open>domain/money.go\<close>, \<open>quantity.go\<close> and
  \<open>errors.go\<close>: bounds of the rounding, sums as checked folds, no negative quantity but by \<open>Multiply\<close>,
  JSON round trips, and the agreement of the status with the classifiers.
  \<^item> \<open>ResilienceCore\<close>, \<open>CircuitBreaker\<close>, \<open>Bulkhead\<close>, \<open>Retry\<close>, \<open>Executor\<close> model \<open>resilience/\<close>: the state
  machine of the breaker and when it trips and stays open, the limit of the bulkhead under any
  interleaving, the exact number of attempts and the bounded delay, and that the executor invents no
  success and no unknown error.
  \<^item> \<open>RedisLock\<close> models \<open>lock/redis_lock.go\<close>, its two Lua scripts included: mutual exclusion of
  unexpired leases for any number of clients, with expiry and lost replies.
  \<^item> \<open>Outbox\<close> and \<open>OutboxRun\<close> model \<open>outbox/\<close>: \<open>ProcessNext\<close> on every branch, at-least-once delivery,
  when a duplicate can occur, and that a run with enough ticks settles every row.
  \<^item> \<open>Idempotency\<close> and \<open>EventStore\<close> model \<open>eventsourcing/idempotency.go\<close>, \<open>event.go\<close>, \<open>store.go\<close>,
  \<open>postgres_store.go\<close> and \<open>dlq.go\<close>: exclusive claims, finality of a completed event, unique versions,
  and loading what was appended. \<open>EventIds\<close> adds the layout of \<open>generateEventID\<close> and \<open>UnmarshalData\<close>: two
  events share an identifier exactly when their clock readings agree, and a batch with both is refused.
  \<^item> \<open>EventLog\<close> states the contract of the interfaces in \<open>store.go\<close>, one log per aggregate with an atomic
  conditional append, and proves that the concurrent transactions of \<open>postgres_store.go\<close> refine it: no gap
  in a stream, no lost update, and an aggregate built from its snapshot is the aggregate built from all
  its events. It also shows what the callers of \<open>Append\<close> have to keep to.
  \<^item> \<open>Schema\<close> models the gorm tags of the row types, the SQL that the library ships and \<open>AutoMigrate\<close>:
  which ways of creating the tables give the unique keys that the stores rely on.
  \<^item> \<open>Delivery\<close> composes \<open>outbox/processor.go\<close>, \<open>nats/jetstream.go\<close>, \<open>idempotency.go\<close> and \<open>dlq.go\<close>: the
  row's identifier travels to the dead letter, an event whose consumer crashed is handled after the
  lease, and under any interleaving of publishing, redelivery and claims an event completed at a
  consumer came out of the outbox and is not handled again.
  \<^item> \<open>EventCatalog\<close> models \<open>catalog.go\<close>, \<open>order_payloads.go\<close> and \<open>supplier_handoff.go\<close>: consumers decode
  what publishers encode. \<open>Streams\<close> models \<open>nats/jetstream.go\<close>: which stream captures which subject, the
  bounded connection loop, and what the outbox keeps of an event that no stream captures.
  \<^item> \<open>ApiKeys\<close>, \<open>InternalToken\<close>, \<open>Jwt\<close> model \<open>auth/\<close>: who passes each guard and with which token.
  \<open>ServiceClient\<close> models the calling side, \<open>ServiceAuthClient\<close>, and follows a key from its generation
  through the store to the middleware of the service that is called. \<open>KeyHash\<close> instantiates the hash with
  SHA-256 (checked on a test vector) and shows what a generated key looks like.
  \<^item> \<open>HttpMiddleware\<close> (\<open>auth.go\<close>, \<open>csrf.go\<close>, \<open>cors.go\<close>, \<open>security.go\<close>, \<open>requestid.go\<close>, \<open>setup.go\<close>),
  \<open>RateLimit\<close>, \<open>Validation\<close> (with \<open>validator/\<close>), \<open>TrustedProxies\<close> and \<open>Health\<close> (with \<open>audit.go\<close>, \<open>recovery.go\<close>,
  \<open>compression.go\<close>, \<open>logger.go\<close>) model \<open>middleware/\<close>: the exact conditions of the guards and of the
  request filter, one bucket per client, private ranges only, and the verdict of the readiness probe.
  \<open>RateLimitLife\<close> puts the limiters on a heap: which cleanup goroutines \<open>Shutdown\<close> ends and which leak,
  and the race of the first requests of an endpoint.
  \<^item> \<open>Response\<close>, \<open>Upload\<close>, \<open>BizDay\<close> model \<open>response/response.go\<close>, \<open>storage/validator.go\<close> and
  \<open>bizday/bizday.go\<close>: the answers and pagination, the files accepted, and the zone name that goes into SQL.
  \<^item> \<open>Telemetry\<close> and \<open>Platform\<close> model \<open>telemetry/\<close>, \<open>monitoring/\<close>, \<open>logger/\<close>, \<open>database/\<close> and
  \<open>config/\<close>: spans that a consumer joins to the trace of the publisher, and the decisions of the code
  around libraries that are arguments. \<open>DbTracing\<close> models the callbacks of \<open>telemetry/gorm.go\<close>: which
  statements end the span they begin, also when the registration stopped half way. \<open>ConfigLoad\<close> models
  \<open>config/config.go\<close>: where each key of the configuration takes its value from.
  \<^item> This theory composes the parts: a request with the tokens of a login on its way through the common
  chain, input validation and the guards to an admin handler.

  \<^bold>\<open>Interfaces.\<close> \<open>checked_sum\<close> is the contract of an addition that may be refused; it is interpreted
  for money and quantities. \<open>registry\<close> is the contract of a get-or-create table; bulkhead groups,
  executor groups and the rate limiters are its instances. \<open>protection\<close> is the contract of a
  layer around a function; breaker, bulkhead, retry and executor are its instances, and the executor's
  result rests on the facts of the layers. \<open>delivery_source\<close> is the contract of a system that hands
  events to consumers; the outbox is its instance. \<open>event_store\<close> and \<open>snapshot_store\<close> are the two
  interfaces of \<open>store.go\<close>, \<open>sourced_aggregate\<close> is a service that uses both; the Postgres stores are their
  instances. \<open>guard\<close> is the contract of a handler that passes the
  context on unchanged or answers; the role, admin, CSRF and internal-token handlers are its instances.

  \<^bold>\<open>Parameters and their laws.\<close> Code outside the repository is an argument, and the theorems name what
  they use of it: \<open>redis_laws\<close> (the commands of the Redis client), \<open>jwt_laws\<close> (signing and parsing),
  \<open>stored_laws\<close> (defaults that gorm and Postgres fill in), \<open>shortest_ok\<close> (a printed float reads back),
  \<open>tail_wildcard\<close> and \<open>needs_stream\<close> (subject matching and publishing of a NATS server), \<open>reads_ranges\<close>
  and \<open>installs\<close> (parsing of the private ranges, and gin's list of proxies), \<open>propagates\<close> (the trace
  propagator), \<open>received\<close> (a message arrives with its subject, data and header), \<open>automigrates\<close> and
  \<open>naming_ok\<close> (gorm's migrator and its column names), \<open>viper_ok\<close> (the precedence of viper),
  \<open>never_done\<close> and \<open>never_cancelled\<close> (a background context). Each theorem that assumes one has a witness with a concrete instance.

  \<^bold>\<open>Bounds and loops.\<close> The retry loop recurses over the attempts left and the connection loop over
  its ten attempts, so both are total; the outbox tick recurses over the batch size. The processor's
  \<open>run\<close>, which goes on until it is stopped, is driven by the list of wake-ups of its \<open>select\<close>, and the
  liveness theorem says how many ticks are enough; the limiter's cleanup goroutine is a step relation
  with one step per round. The JSON round trip of money is stated up to 2^50 cents: that far the amount divided by 100
  and multiplied by 100 again in \<open>float64\<close> rounds back to itself. Patterns are matched on bytes with the ASCII case folding of \<open>ToLower\<close>.

  \<^bold>\<open>Not modelled.\<close> Log calls. The internals of gin, gorm, viper, zap, OpenTelemetry, Sentry, NATS and
  the standard library's text syntax of JSON and of network prefixes: the model starts at the parsed
  value or at the library's documented answer. \<open>GetSpanContext\<close>, the getters
  of the JetStream client, the one-line methods of the gorm logger, the registration in \<open>NewValidator\<close>
  and the constructors that only store their arguments take no decision. \<open>Schema\<close> records the
  types of columns without interpreting them and leaves out their defaults. Data races below the mutex sections have no model; the
  executor registry, which has no mutex, is modelled sequentially.
\<close>

section \<open>From login to an admin route\<close>




section \<open>The whole chain of an admin route\<close>
















end
